(* ===== verification/Prelude.thy ===== *)
theory Prelude
  imports
    Complex_Main
    "HOL-Library.Multiset"
    "HOL-Library.Char_ord"
    "HOL-Library.List_Lexorder"
    "HOL-Library.Product_Lexorder"
begin

text \<open>
  The JavaScript runtime operations the front end calls, as HOL functions: the
  built-ins \<open>Array.prototype.slice\<close> and \<open>Array.prototype.sort\<close> (with a
  comparator), \<open>String.prototype.toLowerCase\<close> and \<open>String.prototype.includes\<close>,
  the truthiness of strings, and number division with its non-finite results.
  Each follows the ECMAScript definition for the arguments the code passes. The
  lemmas relate them to the list library (\<open>take\<close>, \<open>drop\<close>, \<open>sort_key\<close>) so that the
  component theories reason about the library's functions; the collection
  \<open>js_simps\<close> holds the evaluation rules a witness needs.
\<close>

named_theorems js_simps "evaluation rules of the JavaScript runtime model"

section \<open>Array.prototype.slice\<close>

text \<open>
  \<open>xs.slice(start, end)\<close>: a negative index counts from the end, an index is clipped
  to \<open>[0, length]\<close>, and an empty range gives the empty array (never an error).
\<close>

definition js_rel_index :: "int \<Rightarrow> nat \<Rightarrow> nat" where
  "js_rel_index i len = (if i < 0 then nat (max 0 (int len + i)) else min (nat i) len)"

definition js_slice :: "'a list \<Rightarrow> int \<Rightarrow> int \<Rightarrow> 'a list" where
  "js_slice xs s e =
     (let k = js_rel_index s (length xs); f = js_rel_index e (length xs)
      in take (f - k) (drop k xs))"

section \<open>Array.prototype.sort with a comparator\<close>

text \<open>
  Since ECMAScript 2019 \<open>sort\<close> is stable: for a consistent comparator the result is
  the one permutation that is ordered by the comparator and keeps the input order of
  elements the comparator calls equal. Insertion from the right computes exactly that
  permutation; an element goes in front of the first element it is not greater than.
\<close>

fun js_insert_by :: "('a \<Rightarrow> 'a \<Rightarrow> int) \<Rightarrow> 'a \<Rightarrow> 'a list \<Rightarrow> 'a list" where
  "js_insert_by cmp x [] = [x]"
| "js_insert_by cmp x (y # ys) =
     (if cmp x y \<le> 0 then x # y # ys else y # js_insert_by cmp x ys)"

definition js_sort :: "('a \<Rightarrow> 'a \<Rightarrow> int) \<Rightarrow> 'a list \<Rightarrow> 'a list" where
  "js_sort cmp xs = foldr (js_insert_by cmp) xs []"

section \<open>Strings\<close>

text \<open>
  \<open>toLowerCase\<close> on the characters the model's strings hold (bytes): the ASCII
  capitals map to small letters, every other character is kept.
\<close>

definition js_lower_char :: "char \<Rightarrow> char" where
  "js_lower_char c =
     (let n = (of_char c :: nat) in if 65 \<le> n \<and> n \<le> 90 then char_of (n + 32) else c)"

definition js_to_lower :: "string \<Rightarrow> string" where
  "js_to_lower s = map js_lower_char s"

text \<open>\<open>s.startsWith(t)\<close> and \<open>s.includes(t)\<close>: a search from every position of \<open>s\<close>.\<close>

fun js_starts_with :: "string \<Rightarrow> string \<Rightarrow> bool" where
  "js_starts_with s [] = True"
| "js_starts_with [] (c # t) = False"
| "js_starts_with (d # s) (c # t) = (d = c \<and> js_starts_with s t)"

fun js_includes :: "string \<Rightarrow> string \<Rightarrow> bool" where
  "js_includes [] t = (t = [])"
| "js_includes (c # s) t = (js_starts_with (c # s) t \<or> js_includes s t)"

text \<open>A string is truthy when it is not empty.\<close>

definition js_truthy_str :: "string \<Rightarrow> bool" where
  "js_truthy_str s \<longleftrightarrow> s \<noteq> []"

section \<open>Numbers and division\<close>

text \<open>
  Amounts are exact rationals (the model does not round as IEEE doubles do). Division
  by zero does not fail in JavaScript: it gives \<open>NaN\<close> or an infinity, which
  \<open>toFixed\<close> then prints.
\<close>

datatype js_num = JsNum rat | JsNaN | JsPosInf | JsNegInf

definition js_div :: "rat \<Rightarrow> rat \<Rightarrow> js_num" where
  "js_div a b =
     (if b = 0 then (if a = 0 then JsNaN else if 0 < a then JsPosInf else JsNegInf)
      else JsNum (a / b))"

section \<open>Printing numbers\<close>

text \<open>Decimal digits of a number, as \<open>String(n)\<close> prints an integer.\<close>

fun string_of_nat :: "nat \<Rightarrow> string" where
  "string_of_nat n =
     (if n < 10 then [char_of (48 + n)] else string_of_nat (n div 10) @ [char_of (48 + n mod 10)])"

text \<open>Its equation is unfolded by the guarded rules below, on numerals only.\<close>

declare string_of_nat.simps [simp del]

definition string_of_int :: "int \<Rightarrow> string" where
  "string_of_int i = (if i < 0 then CHR ''-'' # string_of_nat (nat (- i)) else string_of_nat (nat i))"

text \<open>
  The digits after the decimal point of a fraction in \<open>[0, 1)\<close>, at most \<open>k\<close> of
  them; a fraction with a finite decimal expansion of at most \<open>k\<close> digits is printed
  exactly.
\<close>

fun frac_digits :: "nat \<Rightarrow> rat \<Rightarrow> string" where
  "frac_digits 0 r = []"
| "frac_digits (Suc k) r =
     (if r = 0 then []
      else let d = \<lfloor>10 * r\<rfloor> in char_of (48 + nat d) # frac_digits k (10 * r - of_int d))"

text \<open>
  \<open>Number.prototype.toString()\<close> on the model's exact numbers: an integer as its
  digits, any other number as its integer part, a point and its decimal fraction. The
  model prints plain digits where JavaScript switches to exponent notation (beyond
  \<open>10^21\<close> and below \<open>10^-6\<close>) and cuts a fraction at 20 digits where a double would
  have been rounded; the code prints ids and amounts, for which neither arises.
\<close>

definition js_number_string :: "rat \<Rightarrow> string" where
  "js_number_string r =
     (let a = \<bar>r\<bar>; i = \<lfloor>a\<rfloor>; f = a - of_int i
      in (if r < 0 then ''-'' else []) @ string_of_nat (nat i) @
         (if f = 0 then [] else CHR ''.'' # frac_digits 20 f))"

fun js_num_to_string :: "js_num \<Rightarrow> string" where
  "js_num_to_string (JsNum r) = js_number_string r"
| "js_num_to_string JsNaN = ''NaN''"
| "js_num_to_string JsPosInf = ''Infinity''"
| "js_num_to_string JsNegInf = ''-Infinity''"

text \<open>The unfolding rules that evaluate the string built-ins on concrete strings.\<close>

lemmas js_string_eval = js_to_lower_def js_lower_char_def js_truthy_str_def char_of_eq_iff

section \<open>JSON values\<close>

text \<open>
  A request or response body as \<open>JSON.parse\<close> gives it and \<open>JSON.stringify\<close>
  reads it. Numbers are the model's exact rationals; an object keeps its members in
  order, and a repeated key reads as its last occurrence, as \<open>JSON.parse\<close> does.
\<close>

datatype json =
    JNull | JBool bool | JNum rat | JStr string | JArr "json list" | JObj "(string \<times> json) list"

text \<open>Truthiness of a value; \<open>undefined\<close> (\<open>None\<close>) is falsy.\<close>

fun js_truthy :: "json option \<Rightarrow> bool" where
  "js_truthy None = False"
| "js_truthy (Some JNull) = False"
| "js_truthy (Some (JBool b)) = b"
| "js_truthy (Some (JNum n)) = (n \<noteq> 0)"
| "js_truthy (Some (JStr s)) = (s \<noteq> [])"
| "js_truthy (Some (JArr xs)) = True"
| "js_truthy (Some (JObj kvs)) = True"

text \<open>\<open>a || b\<close>: the first operand when it is truthy, else the second.\<close>

definition js_or :: "json option \<Rightarrow> json option \<Rightarrow> json option" where
  "js_or a b = (if js_truthy a then a else b)"

fun js_join :: "string list \<Rightarrow> string" where
  "js_join [] = []"
| "js_join [x] = x"
| "js_join (x # xs) = x @ '','' @ js_join xs"

text \<open>\<open>String(v)\<close>: an array joins its elements with commas, \<open>null\<close> inside it as nothing.\<close>

fun js_to_string :: "json \<Rightarrow> string" where
  "js_to_string JNull = ''null''"
| "js_to_string (JBool b) = (if b then ''true'' else ''false'')"
| "js_to_string (JNum n) = js_number_string n"
| "js_to_string (JStr s) = s"
| "js_to_string (JArr xs) =
     js_join (map (\<lambda>x. if x = JNull then [] else js_to_string x) xs)"
| "js_to_string (JObj kvs) = ''[object Object]''"

section \<open>Lemmas on printing numbers\<close>

lemma string_of_nat_small [simp]: "n < 10 \<Longrightarrow> string_of_nat n = [char_of (48 + n)]"
  by (simp add: string_of_nat.simps)

lemma string_of_nat_large [simp]:
  "\<not> n < 10 \<Longrightarrow> string_of_nat n = string_of_nat (n div 10) @ [char_of (48 + n mod 10)]"
  by (subst string_of_nat.simps) simp

lemma string_of_nat_Nil [simp]: "string_of_nat n \<noteq> []"
  by (cases "n < 10") simp_all

section \<open>Lemmas on slicing\<close>

lemma js_rel_index_nonneg [simp]: "0 \<le> i \<Longrightarrow> js_rel_index i len = min (nat i) len"
  by (simp add: js_rel_index_def)

lemma js_slice_nonneg:
  assumes "0 \<le> s" and "s \<le> e"
  shows "js_slice xs s e = take (nat (e - s)) (drop (nat s) xs)"
proof (cases "nat s \<le> length xs")
  case True
  with assms show ?thesis
    by (auto simp: js_slice_def Let_def min_def nat_diff_distrib' intro!: take_all)
next
  case False
  then show ?thesis using assms by (simp add: js_slice_def)
qed

lemma js_slice_from_zero [js_simps]: "0 \<le> n \<Longrightarrow> js_slice xs 0 n = take (nat n) xs"
  by (simp add: js_slice_nonneg)

lemma js_slice_length_le: "0 \<le> s \<Longrightarrow> s \<le> e \<Longrightarrow> length (js_slice xs s e) \<le> nat (e - s)"
  by (simp add: js_slice_nonneg)

lemma js_slice_beyond: "int (length xs) \<le> s \<Longrightarrow> js_slice xs s e = []"
  by (simp add: js_slice_def)

text \<open>Consecutive windows of width \<open>n\<close> tile a prefix of the list.\<close>

lemma concat_windows: "concat (map (\<lambda>p. take n (drop (p * n) xs)) [0..<m]) = take (m * n) xs"
proof (induction m)
  case 0
  then show ?case by simp
next
  case (Suc m)
  have "take (Suc m * n) xs = take (m * n + n) xs" by (simp add: add.commute)
  also have "\<dots> = take (m * n) xs @ take n (drop (m * n) xs)" by (rule take_add)
  finally have "take (Suc m * n) xs = take (m * n) xs @ take n (drop (m * n) xs)" .
  with Suc show ?case by simp
qed

section \<open>Lemmas on strings\<close>

lemma js_starts_with_iff: "js_starts_with s t \<longleftrightarrow> (\<exists>q. s = t @ q)"
  by (induction s t rule: js_starts_with.induct) auto

lemma js_includes_iff: "js_includes s t \<longleftrightarrow> (\<exists>p q. s = p @ t @ q)"
proof (induction s)
  case Nil
  then show ?case by simp
next
  case (Cons c s)
  show ?case
  proof
    assume "js_includes (c # s) t"
    then consider "js_starts_with (c # s) t" | "js_includes s t" by auto
    then show "\<exists>p q. c # s = p @ t @ q"
    proof cases
      case 1
      then obtain q where "c # s = t @ q" by (auto simp: js_starts_with_iff)
      then have "c # s = [] @ t @ q" by simp
      then show ?thesis by blast
    next
      case 2
      with Cons.IH obtain p q where "s = p @ t @ q" by blast
      then have "c # s = (c # p) @ t @ q" by simp
      then show ?thesis by blast
    qed
  next
    assume "\<exists>p q. c # s = p @ t @ q"
    then obtain p q where pq: "c # s = p @ t @ q" by blast
    show "js_includes (c # s) t"
    proof (cases p)
      case Nil
      with pq have "js_starts_with (c # s) t" by (auto simp: js_starts_with_iff)
      then show ?thesis by simp
    next
      case (Cons d p')
      with pq have "s = p' @ t @ q" by simp
      with Cons.IH show ?thesis by auto
    qed
  qed
qed

lemma js_includes_empty [simp]: "js_includes s []"
  by (cases s) simp_all

lemma js_to_lower_idem [simp]: "js_to_lower (js_to_lower s) = js_to_lower s"
proof -
  have "js_lower_char (js_lower_char c) = js_lower_char c" for c
    by (simp add: js_lower_char_def Let_def)
  then show ?thesis by (simp add: js_to_lower_def comp_def)
qed

lemma js_to_lower_Nil_iff [simp]: "js_to_lower s = [] \<longleftrightarrow> s = []"
  by (simp add: js_to_lower_def)

section \<open>Lemmas on the comparator sort\<close>

lemma mset_js_insert_by [simp]: "mset (js_insert_by cmp x ys) = add_mset x (mset ys)"
  by (induction ys) auto

lemma mset_js_sort [simp]: "mset (js_sort cmp xs) = mset xs"
  by (induction xs) (simp_all add: js_sort_def)

lemma set_js_sort [simp]: "set (js_sort cmp xs) = set xs"
  by (metis mset_js_sort set_mset_mset)

lemma length_js_sort [simp]: "length (js_sort cmp xs) = length xs"
  by (metis mset_js_sort size_mset)

lemma js_sort_Nil [simp, js_simps]: "js_sort cmp [] = []"
  by (simp add: js_sort_def)

lemma js_sort_Cons [js_simps]: "js_sort cmp (x # xs) = js_insert_by cmp x (js_sort cmp xs)"
  by (simp add: js_sort_def)

text \<open>
  A comparator built from a key into a linear order: \<open>-1\<close>, \<open>1\<close> or \<open>0\<close> as the
  source's nested conditional computes it, in ascending or in descending direction.
\<close>

definition cmp_asc :: "('a \<Rightarrow> 'k::linorder) \<Rightarrow> 'a \<Rightarrow> 'a \<Rightarrow> int" where
  "cmp_asc f a b = (if f a < f b then -1 else if f a > f b then 1 else 0)"

definition cmp_desc :: "('a \<Rightarrow> 'k::linorder) \<Rightarrow> 'a \<Rightarrow> 'a \<Rightarrow> int" where
  "cmp_desc f a b = (if f b < f a then -1 else if f b > f a then 1 else 0)"

lemma cmp_asc_le_0 [simp]: "cmp_asc f a b \<le> 0 \<longleftrightarrow> f a \<le> f b"
  by (auto simp: cmp_asc_def)

lemma cmp_desc_le_0 [simp]: "cmp_desc f a b \<le> 0 \<longleftrightarrow> f b \<le> f a"
  by (auto simp: cmp_desc_def)

lemma js_insert_by_asc: "js_insert_by (cmp_asc f) x ys = insort_key f x ys"
  by (induction ys) auto

lemma js_sort_asc_sort_key: "js_sort (cmp_asc f) xs = sort_key f xs"
  by (induction xs) (simp_all add: js_sort_def js_insert_by_asc)

text \<open>The descending insertion: ordered by \<open>\<ge>\<close> on the key, and stable.\<close>

lemma set_js_insert_by [simp]: "set (js_insert_by cmp x ys) = insert x (set ys)"
  by (induction ys) auto

lemma sorted_desc_insert:
  "sorted_wrt (\<ge>) (map f ys) \<Longrightarrow> sorted_wrt (\<ge>) (map f (js_insert_by (cmp_desc f) x ys))"
  by (induction ys) (auto simp: order_trans)

lemma sorted_desc_js_sort: "sorted_wrt (\<ge>) (map f (js_sort (cmp_desc f) xs))"
  by (induction xs) (simp_all add: js_sort_def sorted_desc_insert)

lemma filter_desc_insert:
  "filter (\<lambda>y. f y = k) (js_insert_by (cmp_desc f) x ys) =
     (if f x = k then x # filter (\<lambda>y. f y = k) ys else filter (\<lambda>y. f y = k) ys)"
proof (induction ys)
  case Nil
  then show ?case by simp
next
  case (Cons y ys)
  show ?case
  proof (cases "f y \<le> f x")
    case True
    then show ?thesis by simp
  next
    case False
    then have "f x \<noteq> f y" by auto
    with False Cons.IH show ?thesis by auto
  qed
qed

lemma filter_desc_js_sort:
  "filter (\<lambda>y. f y = k) (js_sort (cmp_desc f) xs) = filter (\<lambda>y. f y = k) xs"
  by (induction xs) (simp_all add: js_sort_def filter_desc_insert)

lemma js_sort_desc_id_if_sorted:
  "sorted_wrt (\<ge>) (map f xs) \<Longrightarrow> js_sort (cmp_desc f) xs = xs"
proof (induction xs)
  case Nil
  then show ?case by simp
next
  case (Cons x xs)
  then have "js_sort (cmp_desc f) xs = xs" by simp
  moreover have "js_insert_by (cmp_desc f) x xs = x # xs"
    using Cons.prems by (cases xs) auto
  ultimately show ?case by (simp add: js_sort_Cons)
qed

text \<open>
  The descending sort is the library's stable sort run on the reversed input and
  reversed back: ties keep their input order, all else is in decreasing key order.
\<close>

lemma js_sort_desc_sort_key: "js_sort (cmp_desc f) xs = rev (sort_key f (rev xs))"
proof -
  have "sort_key f (rev xs) = rev (js_sort (cmp_desc f) xs)"
  proof (rule properties_for_sort_key)
    show "mset (rev (js_sort (cmp_desc f) xs)) = mset (rev xs)" by simp
  next
    fix k
    have eq: "(\<lambda>x. f k = f x) = (\<lambda>y. f y = f k)" by auto
    show "filter (\<lambda>x. f k = f x) (rev (js_sort (cmp_desc f) xs)) = filter (\<lambda>x. f k = f x) (rev xs)"
      unfolding eq rev_filter [symmetric] filter_desc_js_sort ..
  next
    show "sorted (map f (rev (js_sort (cmp_desc f) xs)))"
      using sorted_desc_js_sort [of f xs] by (simp add: rev_map [symmetric] sorted_wrt_rev)
  qed
  then show ?thesis by simp
qed

lemma js_sort_asc_idem: "js_sort (cmp_asc f) (js_sort (cmp_asc f) xs) = js_sort (cmp_asc f) xs"
  by (simp add: js_sort_asc_sort_key sort_key_id_if_sorted)

lemma js_sort_desc_idem: "js_sort (cmp_desc f) (js_sort (cmp_desc f) xs) = js_sort (cmp_desc f) xs"
  by (rule js_sort_desc_id_if_sorted) (rule sorted_desc_js_sort)

end
