(* ===== verification/Domain.thy ===== *)
theory Domain
  imports Prelude
begin

text \<open>
  The domain model of \<open>src/expense-tracker-fe/src/types.ts\<close> and of the older
  \<open>types/index.ts\<close>. Every page imports \<open>'../types'\<close>, which TypeScript resolves to
  \<open>types.ts\<close> (a file before a directory's index), so \<open>types.ts\<close> is the live
  vocabulary and \<open>types/index.ts\<close> is shadowed; both enumerations are modelled so that
  their disagreement can be stated. A string enum becomes a datatype with the function
  that gives each tag its string value. An \<open>Expense\<close> holds at run time what the
  server sent: the TypeScript types are never checked, so its category and payment
  method are the strings received, and \<open>expense_category_values\<close> is the whitelist the
  enum declares. The field values the list page compares are \<open>field_value\<close>s, ordered
  as JavaScript's \<open><\<close> orders two numbers, two strings or two booleans.
\<close>

section \<open>Enumerations\<close>

text \<open>\<open>types/index.ts\<close>, lines 1--14 (shadowed by \<open>types.ts\<close>).\<close>

datatype expense_category_index =
    MAINTENANCE | CREDIT_CARD | BILL | ENTERTAINMENT | RENT | GROCERIES
  | TECHNOLOGY | FOOD | INVESTMENT | EDUCATION | CHILD | DEBT

fun expense_category_index_value :: "expense_category_index \<Rightarrow> string" where
  "expense_category_index_value MAINTENANCE = ''MAINTENANCE''"
| "expense_category_index_value CREDIT_CARD = ''CREDIT_CARD''"
| "expense_category_index_value BILL = ''BILL''"
| "expense_category_index_value ENTERTAINMENT = ''ENTERTAINMENT''"
| "expense_category_index_value RENT = ''RENT''"
| "expense_category_index_value GROCERIES = ''GROCERIES''"
| "expense_category_index_value TECHNOLOGY = ''TECHNOLOGY''"
| "expense_category_index_value FOOD = ''FOOD''"
| "expense_category_index_value INVESTMENT = ''INVESTMENT''"
| "expense_category_index_value EDUCATION = ''EDUCATION''"
| "expense_category_index_value CHILD = ''CHILD''"
| "expense_category_index_value DEBT = ''DEBT''"

definition expense_category_index_values :: "string list" where
  "expense_category_index_values =
     map expense_category_index_value
       [MAINTENANCE, CREDIT_CARD, BILL, ENTERTAINMENT, RENT, GROCERIES,
        TECHNOLOGY, FOOD, INVESTMENT, EDUCATION, CHILD, DEBT]"

text \<open>\<open>types.ts\<close>, lines 1--9: the enumeration the pages use.\<close>

datatype expense_category =
    FOOD | TRANSPORTATION | ENTERTAINMENT | SHOPPING | UTILITIES | HEALTH | OTHER

fun category_value :: "expense_category \<Rightarrow> string" where
  "category_value FOOD = ''FOOD''"
| "category_value TRANSPORTATION = ''TRANSPORTATION''"
| "category_value ENTERTAINMENT = ''ENTERTAINMENT''"
| "category_value SHOPPING = ''SHOPPING''"
| "category_value UTILITIES = ''UTILITIES''"
| "category_value HEALTH = ''HEALTH''"
| "category_value OTHER = ''OTHER''"

text \<open>\<open>Object.values(ExpenseCategory)\<close>: the values in declaration order.\<close>

definition expense_category_values :: "string list" where
  "expense_category_values =
     map category_value [FOOD, TRANSPORTATION, ENTERTAINMENT, SHOPPING, UTILITIES, HEALTH, OTHER]"

text \<open>\<open>types.ts\<close>, lines 11--15.\<close>

datatype payment_method = IBAN | CASH | CREDIT_CARD

fun payment_method_value :: "payment_method \<Rightarrow> string" where
  "payment_method_value IBAN = ''IBAN''"
| "payment_method_value CASH = ''CASH''"
| "payment_method_value CREDIT_CARD = ''CREDIT_CARD''"

definition payment_method_values :: "string list" where
  "payment_method_values = map payment_method_value [IBAN, CASH, CREDIT_CARD]"

section \<open>Records\<close>

text \<open>\<open>types.ts\<close>, lines 17--27. Dates are the strings the server sends.\<close>

record expense =
  expense_id :: int
  description :: string
  amount :: rat
  date :: string
  category :: string
  payment_method :: string
  is_recurring :: bool
  create_date :: string
  update_date :: string

text \<open>\<open>types.ts\<close>, lines 29--33.\<close>

record expense_category_report =
  report_category :: string
  report_count :: int
  total_amount :: rat

text \<open>\<open>types.ts\<close>, lines 35--53.\<close>

record login_request =
  login_username :: string
  login_password :: string

record signup_request =
  signup_username :: string
  signup_email :: string
  signup_password :: string

text \<open>
  \<open>AuthResponse\<close>: the object \<open>login\<close> builds from the response body. Its members are
  the JSON values read from the body (\<open>None\<close> is \<open>undefined\<close>); the declared
  string types are not checked.
\<close>

record auth_response =
  auth_token :: json
  auth_type :: "json option"
  auth_id :: "json option"
  auth_username :: "json option"
  auth_email :: "json option"
  auth_roles :: json

text \<open>\<open>types.ts\<close>, lines 55--62: the body the form sends.\<close>

record expense_update_request =
  req_description :: string
  req_amount :: rat
  req_date :: string
  req_payment_method :: string
  req_category :: string
  req_is_recurring :: bool

section \<open>Field values and their order\<close>

text \<open>
  A value read from an expense field by \<open>expense[key]\<close>. Two values of one field have
  the same constructor; the order between constructors only makes the type linear.
\<close>

datatype field_value = FNum rat | FStr string | FBool bool

fun field_value_key :: "field_value \<Rightarrow> nat \<times> rat \<times> string \<times> bool" where
  "field_value_key (FNum r) = (0, r, [], False)"
| "field_value_key (FStr s) = (1, 0, s, False)"
| "field_value_key (FBool b) = (2, 0, [], b)"

lemma field_value_key_inj: "field_value_key x = field_value_key y \<Longrightarrow> x = y"
  by (cases x; cases y) auto

instantiation field_value :: linorder
begin

definition less_eq_field_value :: "field_value \<Rightarrow> field_value \<Rightarrow> bool" where
  "x \<le> y \<longleftrightarrow> field_value_key x \<le> field_value_key y"

definition less_field_value :: "field_value \<Rightarrow> field_value \<Rightarrow> bool" where
  "x < y \<longleftrightarrow> field_value_key x < field_value_key y"

instance
proof
  fix x y z :: field_value
  show "(x < y) = (x \<le> y \<and> \<not> y \<le> x)"
    by (auto simp: less_eq_field_value_def less_field_value_def)
  show "x \<le> x" by (simp add: less_eq_field_value_def)
  show "x \<le> y \<Longrightarrow> y \<le> z \<Longrightarrow> x \<le> z"
    by (auto simp: less_eq_field_value_def)
  show "x \<le> y \<Longrightarrow> y \<le> x \<Longrightarrow> x = y"
    by (auto simp: less_eq_field_value_def intro: field_value_key_inj)
  show "x \<le> y \<or> y \<le> x"
    by (auto simp: less_eq_field_value_def)
qed

end

text \<open>Within one constructor the order is JavaScript's \<open><\<close>.\<close>

lemma field_value_order [simp]:
  "FNum a \<le> FNum b \<longleftrightarrow> a \<le> b" "FNum a < FNum b \<longleftrightarrow> a < b"
  "FStr s \<le> FStr t \<longleftrightarrow> s \<le> t" "FStr s < FStr t \<longleftrightarrow> s < t"
  "FBool p \<le> FBool q \<longleftrightarrow> p \<le> q" "FBool p < FBool q \<longleftrightarrow> p < q"
  by (auto simp: less_eq_field_value_def less_field_value_def less_le)

section \<open>Lemmas on the enumerations\<close>

lemma category_value_inj: "category_value a = category_value b \<longleftrightarrow> a = b"
  by (cases a; cases b) simp_all

lemma distinct_expense_category_values: "distinct expense_category_values"
  by (simp add: expense_category_values_def)

lemma expense_category_values_complete: "category_value c \<in> set expense_category_values"
  by (cases c) (simp_all add: expense_category_values_def)

lemma payment_method_value_inj: "payment_method_value a = payment_method_value b \<longleftrightarrow> a = b"
  by (cases a; cases b) simp_all

end
