(* ===== verification/Dates.thy ===== *)
theory Dates
  imports Prelude
begin

text \<open>
  JavaScript dates as the pages use them. A \<open>Date\<close> is its time value, milliseconds
  from the epoch, or Invalid Date (\<open>None\<close>); comparing dates compares time values,
  and a comparison with Invalid Date (\<open>NaN\<close>) is false. \<open>js_new_date\<close> is
  \<open>new Date(string)\<close> on the ECMAScript date-time string format
  \<open>YYYY-MM-DD\<close>, \<open>YYYY-MM-DDTHH:mm\<close>, \<open>YYYY-MM-DDTHH:mm:ss\<close> and
  \<open>YYYY-MM-DDTHH:mm:ss.sss\<close> (the forms the server and the expense form write);
  a string outside the format, or with a field out of range, is Invalid Date. The
  model fixes the time zone to UTC, where a date-only form (read as UTC) and a
  date-time form (read as local time) agree; the day arithmetic is ECMAScript's
  \<open>DayFromYear\<close>, \<open>MakeDay\<close> and \<open>MakeTime\<close> with the proleptic Gregorian calendar.
\<close>

type_synonym js_date = "int option"

section \<open>Calendar arithmetic\<close>

definition is_leap_year :: "int \<Rightarrow> bool" where
  "is_leap_year y \<longleftrightarrow> y mod 4 = 0 \<and> (y mod 100 \<noteq> 0 \<or> y mod 400 = 0)"

definition days_in_month :: "int \<Rightarrow> nat \<Rightarrow> nat" where
  "days_in_month y m =
     (if m = 2 then (if is_leap_year y then 29 else 28)
      else if m = 4 \<or> m = 6 \<or> m = 9 \<or> m = 11 then 30 else 31)"

text \<open>\<open>DayFromYear\<close>: the day number of January 1 of year \<open>y\<close>.\<close>

definition day_from_year :: "int \<Rightarrow> int" where
  "day_from_year y =
     365 * (y - 1970) + (y - 1969) div 4 - (y - 1901) div 100 + (y - 1601) div 400"

text \<open>Days of the year before month \<open>m\<close> (months counted from 1).\<close>

definition days_before_month :: "int \<Rightarrow> nat \<Rightarrow> nat" where
  "days_before_month y m = (\<Sum>k\<leftarrow>[1..<m]. days_in_month y k)"

definition make_day :: "int \<Rightarrow> nat \<Rightarrow> nat \<Rightarrow> int" where
  "make_day y m d = day_from_year y + int (days_before_month y m) + int d - 1"

definition ms_per_day :: int where
  "ms_per_day = 86400000"

definition make_time :: "nat \<Rightarrow> nat \<Rightarrow> nat \<Rightarrow> nat \<Rightarrow> int" where
  "make_time h mi s ms = int (((h * 60 + mi) * 60 + s) * 1000 + ms)"

definition time_value :: "int \<Rightarrow> nat \<Rightarrow> nat \<Rightarrow> nat \<Rightarrow> nat \<Rightarrow> nat \<Rightarrow> nat \<Rightarrow> int" where
  "time_value y m d h mi s ms = make_day y m d * ms_per_day + make_time h mi s ms"

section \<open>Parsing the date-time string format\<close>

definition digit_value :: "char \<Rightarrow> nat option" where
  "digit_value c =
     (let n = (of_char c :: nat) in if 48 \<le> n \<and> n \<le> 57 then Some (n - 48) else None)"

text \<open>A run of decimal digits, most significant first; the empty run is no number.\<close>

fun digits_acc :: "nat \<Rightarrow> string \<Rightarrow> nat option" where
  "digits_acc acc [] = Some acc"
| "digits_acc acc (c # cs) =
     (case digit_value c of None \<Rightarrow> None | Some d \<Rightarrow> digits_acc (10 * acc + d) cs)"

definition digits_value :: "string \<Rightarrow> nat option" where
  "digits_value s = (if s = [] then None else digits_acc 0 s)"

definition field_at :: "string \<Rightarrow> nat \<Rightarrow> nat \<Rightarrow> nat option" where
  "field_at s i n = digits_value (take n (drop i s))"

definition char_at :: "string \<Rightarrow> nat \<Rightarrow> char option" where
  "char_at s i = (if i < length s then Some (s ! i) else None)"

text \<open>
  The fields of an ISO string: year, month, day, hours, minutes, seconds and
  milliseconds, when the separators stand where the format puts them.
\<close>

definition iso_fields :: "string \<Rightarrow> (nat \<times> nat \<times> nat \<times> nat \<times> nat \<times> nat \<times> nat) option" where
  "iso_fields s =
     (let n = length s;
          sep_date = (char_at s 4 = Some CHR ''-'' \<and> char_at s 7 = Some CHR ''-'');
          sep_time = (char_at s 10 = Some CHR ''T'' \<and> char_at s 13 = Some CHR '':'');
          sep_sec = (char_at s 16 = Some CHR '':'');
          sep_ms = (char_at s 19 = Some CHR ''.'')
      in if \<not> (n = 10 \<or> n = 16 \<or> n = 19 \<or> n = 23) then None
         else if \<not> sep_date then None
         else if 10 < n \<and> \<not> sep_time then None
         else if 16 < n \<and> \<not> sep_sec then None
         else if 19 < n \<and> \<not> sep_ms then None
         else
           (case (field_at s 0 4, field_at s 5 2, field_at s 8 2) of
              (Some y, Some mo, Some d) \<Rightarrow>
                (case (if n = 10 then Some 0 else field_at s 11 2,
                       if n = 10 then Some 0 else field_at s 14 2,
                       if n \<le> 16 then Some 0 else field_at s 17 2,
                       if n \<le> 19 then Some 0 else field_at s 20 3) of
                   (Some h, Some mi, Some sec, Some ms) \<Rightarrow> Some (y, mo, d, h, mi, sec, ms)
                 | _ \<Rightarrow> None)
            | _ \<Rightarrow> None))"

text \<open>
  Field ranges: months 1--12, days within the month, hours to 24 (24 only as
  \<open>24:00:00\<close>, the end of the day), minutes and seconds to 59.
\<close>

definition iso_fields_valid :: "nat \<times> nat \<times> nat \<times> nat \<times> nat \<times> nat \<times> nat \<Rightarrow> bool" where
  "iso_fields_valid f =
     (case f of (y, mo, d, h, mi, s, ms) \<Rightarrow>
        1 \<le> mo \<and> mo \<le> 12 \<and> 1 \<le> d \<and> d \<le> days_in_month (int y) mo \<and>
        (h < 24 \<or> (h = 24 \<and> mi = 0 \<and> s = 0 \<and> ms = 0)) \<and> mi < 60 \<and> s < 60)"

definition js_new_date :: "string \<Rightarrow> js_date" where
  "js_new_date s =
     (case iso_fields s of
        None \<Rightarrow> None
      | Some f \<Rightarrow>
          if iso_fields_valid f
          then (case f of (y, mo, d, h, mi, sec, ms) \<Rightarrow> Some (time_value (int y) mo d h mi sec ms))
          else None)"

section \<open>Comparison\<close>

text \<open>\<open>a >= b\<close> and \<open>a <= b\<close> on dates: false when either is Invalid Date.\<close>

fun js_date_ge :: "js_date \<Rightarrow> js_date \<Rightarrow> bool" where
  "js_date_ge (Some a) (Some b) = (b \<le> a)"
| "js_date_ge _ _ = False"

fun js_date_le :: "js_date \<Rightarrow> js_date \<Rightarrow> bool" where
  "js_date_le (Some a) (Some b) = (a \<le> b)"
| "js_date_le _ _ = False"

text \<open>The unfolding rules that evaluate \<open>new Date\<close> on a concrete string.\<close>

lemmas js_date_eval =
  js_new_date_def iso_fields_def char_at_def field_at_def digits_value_def digit_value_def
  iso_fields_valid_def days_in_month_def is_leap_year_def time_value_def make_day_def
  make_time_def day_from_year_def days_before_month_def ms_per_day_def upt_rec

lemma js_date_ge_None [simp]: "\<not> js_date_ge None b" "\<not> js_date_ge a None"
  by (cases a; simp)+

lemma js_date_le_None [simp]: "\<not> js_date_le None b" "\<not> js_date_le a None"
  by (cases a; simp)+

end
