(* ===== verification/ExpenseList.thy ===== *)
theory ExpenseList
  imports Domain Dates
begin

text \<open>
  The expense list page, \<open>src/expense-tracker-fe/src/pages/ExpenseList.tsx\<close>: the
  client-side view-model. Its React state is the record \<open>list_state\<close>;
  \<open>filterExpenses\<close> (lines 63--98) is \<open>apply_filters\<close> followed by the comparator
  sort \<open>js_sort (expense_cmp \<dots>)\<close>; the rendered table is the slice
  \<open>page_slice\<close> of the filtered list (lines 192--193). A user action or a fetch is a
  \<open>list_event\<close>; \<open>list_step\<close> applies its setter and then the effect of lines
  100--102, which reruns \<open>filterExpenses\<close> when one of the dependencies of its
  \<open>useCallback\<close> (line 98) changed. The lemmas show the filters refine the
  conjunction of the active predicates, the sort is the library's stable sort (and its
  descending variant), the pages tile the list, and every reachable state shows the
  filtered list of its current parameters.
\<close>

section \<open>State\<close>

text \<open>\<open>type Order = 'asc' | 'desc'\<close> (line 30).\<close>

datatype sort_order = Asc | Desc

text \<open>\<open>keyof Expense\<close>: the keys \<open>orderBy\<close> may hold.\<close>

datatype expense_key =
    KId | KDescription | KAmount | KDate | KCategory | KPaymentMethod
  | KIsRecurring | KCreateDate | KUpdateDate

text \<open>\<open>a[orderBy]\<close> (lines 87--88): the value of one field.\<close>

fun expense_field :: "expense_key \<Rightarrow> expense \<Rightarrow> field_value" where
  "expense_field KId e = FNum (of_int (expense_id e))"
| "expense_field KDescription e = FStr (description e)"
| "expense_field KAmount e = FNum (amount e)"
| "expense_field KDate e = FStr (date e)"
| "expense_field KCategory e = FStr (category e)"
| "expense_field KPaymentMethod e = FStr (payment_method e)"
| "expense_field KIsRecurring e = FBool (is_recurring e)"
| "expense_field KCreateDate e = FStr (create_date e)"
| "expense_field KUpdateDate e = FStr (update_date e)"

text \<open>The table's columns (lines 32--45); only sortable ones carry a sort label.\<close>

record head_cell =
  cell_id :: "expense_key option"
  cell_label :: string
  cell_numeric :: bool
  cell_sortable :: bool

definition head_cells :: "head_cell list" where
  "head_cells =
     [\<lparr>cell_id = Some KDate, cell_label = ''Date'', cell_numeric = False, cell_sortable = True\<rparr>,
      \<lparr>cell_id = Some KDescription, cell_label = ''Description'', cell_numeric = False,
       cell_sortable = True\<rparr>,
      \<lparr>cell_id = Some KCategory, cell_label = ''Category'', cell_numeric = False,
       cell_sortable = True\<rparr>,
      \<lparr>cell_id = Some KAmount, cell_label = ''Amount'', cell_numeric = True, cell_sortable = True\<rparr>,
      \<lparr>cell_id = None, cell_label = ''Actions'', cell_numeric = False, cell_sortable = False\<rparr>]"

definition sortable_keys :: "expense_key list" where
  "sortable_keys =
     concat (map (\<lambda>c. if cell_sortable c then (case cell_id c of Some k \<Rightarrow> [k] | None \<Rightarrow> [])
                        else []) head_cells)"

text \<open>The component's state (lines 49--57); dates are \<open>Date | null\<close>.\<close>

record list_state =
  expenses :: "expense list"
  filtered_expenses :: "expense list"
  page :: nat
  rows_per_page :: nat
  order_by :: expense_key
  order :: sort_order
  search_term :: string
  start_date :: "js_date option"
  end_date :: "js_date option"

definition init_list_state :: list_state where
  "init_list_state =
     \<lparr>expenses = [], filtered_expenses = [], page = 0, rows_per_page = 10,
      order_by = KDate, order = Desc, search_term = [], start_date = None, end_date = None\<rparr>"

section \<open>filterExpenses\<close>

text \<open>The text predicate (lines 67--71).\<close>

definition search_match :: "string \<Rightarrow> expense \<Rightarrow> bool" where
  "search_match t e \<longleftrightarrow>
     js_includes (js_to_lower (description e)) (js_to_lower t) \<or>
     js_includes (js_to_lower (category e)) (js_to_lower t)"

text \<open>The three narrowing filters, in the source's order (lines 64--84).\<close>

definition apply_filters :: "list_state \<Rightarrow> expense list \<Rightarrow> expense list" where
  "apply_filters s xs =
     (let f1 = (if js_truthy_str (search_term s)
                then filter (search_match (search_term s)) xs else xs);
          f2 = (case start_date s of
                  None \<Rightarrow> f1
                | Some sd \<Rightarrow> filter (\<lambda>e. js_date_ge (js_new_date (date e)) sd) f1);
          f3 = (case end_date s of
                  None \<Rightarrow> f2
                | Some ed \<Rightarrow> filter (\<lambda>e. js_date_le (js_new_date (date e)) ed) f2)
      in f3)"

text \<open>The comparator (lines 86--95).\<close>

definition expense_cmp :: "sort_order \<Rightarrow> expense_key \<Rightarrow> expense \<Rightarrow> expense \<Rightarrow> int" where
  "expense_cmp ord k =
     (if ord = Asc then cmp_asc (expense_field k) else cmp_desc (expense_field k))"

definition filter_expenses :: "list_state \<Rightarrow> expense list \<Rightarrow> expense list" where
  "filter_expenses s xs = js_sort (expense_cmp (order s) (order_by s)) (apply_filters s xs)"

section \<open>Pagination\<close>

text \<open>\<open>slice(page * rowsPerPage, page * rowsPerPage + rowsPerPage)\<close> (lines 192--193).\<close>

definition page_slice :: "'a list \<Rightarrow> nat \<Rightarrow> nat \<Rightarrow> 'a list" where
  "page_slice xs p n = js_slice xs (int (p * n)) (int (p * n + n))"

definition visible_rows :: "list_state \<Rightarrow> expense list" where
  "visible_rows s = page_slice (filtered_expenses s) (page s) (rows_per_page s)"

section \<open>Events and effects\<close>

text \<open>\<open>handleSort\<close> (lines 124--128).\<close>

definition handle_sort :: "expense_key \<Rightarrow> list_state \<Rightarrow> list_state" where
  "handle_sort p s =
     (let is_asc = (order_by s = p \<and> order s = Asc)
      in s\<lparr>order := (if is_asc then Desc else Asc), order_by := p\<rparr>)"

datatype list_event =
    SearchChanged string
  | StartDateChanged "js_date option"
  | EndDateChanged "js_date option"
  | SortClicked expense_key
  | PageChanged nat
  | RowsPerPageChanged nat
  | ExpensesFetched "expense list"

text \<open>
  The setters: the search field (line 142), the date pickers (lines 147, 153), a sort
  label (line 180), the pager (lines 228--232; a new page size resets the page) and
  \<open>setExpenses\<close> after a fetch (line 107).
\<close>

fun apply_event :: "list_state \<Rightarrow> list_event \<Rightarrow> list_state" where
  "apply_event s (SearchChanged t) = s\<lparr>search_term := t\<rparr>"
| "apply_event s (StartDateChanged d) = s\<lparr>start_date := d\<rparr>"
| "apply_event s (EndDateChanged d) = s\<lparr>end_date := d\<rparr>"
| "apply_event s (SortClicked k) = handle_sort k s"
| "apply_event s (PageChanged p) = s\<lparr>page := p\<rparr>"
| "apply_event s (RowsPerPageChanged n) = s\<lparr>rows_per_page := n, page := 0\<rparr>"
| "apply_event s (ExpensesFetched xs) = s\<lparr>expenses := xs\<rparr>"

text \<open>The dependencies of \<open>filterExpenses\<close> (line 98) and the effect that reruns it.\<close>

definition filter_deps ::
  "list_state \<Rightarrow> expense list \<times> string \<times> js_date option \<times> js_date option \<times> expense_key \<times> sort_order"
  where
  "filter_deps s = (expenses s, search_term s, start_date s, end_date s, order_by s, order s)"

definition run_effects :: "list_state \<Rightarrow> list_state \<Rightarrow> list_state" where
  "run_effects old new =
     (if filter_deps new = filter_deps old then new
      else new\<lparr>filtered_expenses := filter_expenses new (expenses new)\<rparr>)"

definition list_step :: "list_state \<Rightarrow> list_event \<Rightarrow> list_state" where
  "list_step s ev = run_effects s (apply_event s ev)"

text \<open>
  What the page can send: a sort click on a sortable column, a page the pager offers
  (the first, or one that starts inside the list), a page size of the options (line 223).
\<close>

fun event_enabled :: "list_state \<Rightarrow> list_event \<Rightarrow> bool" where
  "event_enabled s (SortClicked k) = (k \<in> set sortable_keys)"
| "event_enabled s (PageChanged p) =
     (p = 0 \<or> p * rows_per_page s < length (filtered_expenses s))"
| "event_enabled s (RowsPerPageChanged n) = (n \<in> {5, 10, 25})"
| "event_enabled s _ = True"

inductive list_reachable :: "list_state \<Rightarrow> bool" where
  init: "list_reachable init_list_state"
| step: "list_reachable s \<Longrightarrow> event_enabled s ev \<Longrightarrow> list_reachable (list_step s ev)"

fun list_run :: "list_state \<Rightarrow> list_event list \<Rightarrow> list_state" where
  "list_run s [] = s"
| "list_run s (ev # evs) = list_run (list_step s ev) evs"

text \<open>A run whose every event the page can send at the moment it is sent.\<close>

fun run_enabled :: "list_state \<Rightarrow> list_event list \<Rightarrow> bool" where
  "run_enabled s [] = True"
| "run_enabled s (ev # evs) = (event_enabled s ev \<and> run_enabled (list_step s ev) evs)"

section \<open>Sample data\<close>

text \<open>Two expenses of the same day, used by the scenarios below.\<close>

definition sample_gas :: expense where
  "sample_gas =
     \<lparr>expense_id = 1, description = ''Gas'', amount = 40, date = ''2024-01-15T10:30:00'',
      category = ''TRANSPORTATION'', payment_method = ''CASH'', is_recurring = False,
      create_date = ''2024-01-15T10:30:00'', update_date = ''2024-01-15T10:30:00''\<rparr>"

definition sample_coffee :: expense where
  "sample_coffee =
     \<lparr>expense_id = 2, description = ''Morning Coffee'', amount = 3, date = ''2024-01-15T10:30:00'',
      category = ''FOOD'', payment_method = ''CASH'', is_recurring = False,
      create_date = ''2024-01-15T10:30:00'', update_date = ''2024-01-15T10:30:00''\<rparr>"

section \<open>The abstract filter specification\<close>

text \<open>
  The promise of the filters: an expense is shown when it satisfies every active
  predicate (the text match when the search term is non-empty, each date bound that is
  set), and the shown expenses keep their input order before the sort.
\<close>

definition passes_filters :: "list_state \<Rightarrow> expense \<Rightarrow> bool" where
  "passes_filters s e \<longleftrightarrow>
     (if js_truthy_str (search_term s) then search_match (search_term s) e else True) \<and>
     (case start_date s of None \<Rightarrow> True | Some sd \<Rightarrow> js_date_ge (js_new_date (date e)) sd) \<and>
     (case end_date s of None \<Rightarrow> True | Some ed \<Rightarrow> js_date_le (js_new_date (date e)) ed)"

text \<open>A direction-aware order on field values: \<open>\<le>\<close> ascending, \<open>\<ge>\<close> descending.\<close>

fun in_order :: "sort_order \<Rightarrow> field_value \<Rightarrow> field_value \<Rightarrow> bool" where
  "in_order Asc a b = (a \<le> b)"
| "in_order Desc a b = (b \<le> a)"

section \<open>Lemmas on the filters\<close>

lemma apply_filters_eq_filter: "apply_filters s xs = filter (passes_filters s) xs"
  by (cases "start_date s"; cases "end_date s")
    (auto simp: apply_filters_def passes_filters_def Let_def intro!: filter_cong)

lemma set_apply_filters: "set (apply_filters s xs) \<subseteq> set xs"
  by (auto simp: apply_filters_eq_filter)

lemma apply_filters_sorted_input:
  "apply_filters s (js_sort cmp (apply_filters s xs)) = js_sort cmp (apply_filters s xs)"
  by (simp add: apply_filters_eq_filter filter_id_conv)

lemma search_match_Nil: "search_match [] e"
  by (simp add: search_match_def js_to_lower_def)

section \<open>Lemmas on the comparator\<close>

lemma js_sort_expense_cmp_Asc: "js_sort (expense_cmp Asc k) xs = sort_key (expense_field k) xs"
  by (simp add: expense_cmp_def js_sort_asc_sort_key)

lemma js_sort_expense_cmp_Desc:
  "js_sort (expense_cmp Desc k) xs = rev (sort_key (expense_field k) (rev xs))"
  by (simp add: expense_cmp_def js_sort_desc_sort_key)

lemma js_sort_expense_cmp_idem:
  "js_sort (expense_cmp ord k) (js_sort (expense_cmp ord k) xs) = js_sort (expense_cmp ord k) xs"
  by (cases ord) (simp_all add: expense_cmp_def js_sort_asc_idem js_sort_desc_idem)

lemma sorted_js_sort_expense_cmp:
  "sorted_wrt (in_order ord) (map (expense_field k) (js_sort (expense_cmp ord k) xs))"
proof (cases ord)
  case Asc
  have "in_order Asc = (\<le>)" by (intro ext) simp
  with Asc show ?thesis by (simp add: js_sort_expense_cmp_Asc)
next
  case Desc
  have "sorted_wrt (\<ge>) (map (expense_field k) (js_sort (cmp_desc (expense_field k)) xs))"
    by (rule sorted_desc_js_sort)
  with Desc show ?thesis
    by (simp add: expense_cmp_def sorted_wrt_map)
qed

section \<open>Lemmas on the pages\<close>

lemma page_slice_take_drop: "page_slice xs p n = take n (drop (p * n) xs)"
  by (simp add: page_slice_def js_slice_nonneg flip: of_nat_mult)

lemma ceil_div_cover: "0 < n \<Longrightarrow> m \<le> (m + n - 1) div n * (n::nat)"
proof -
  assume n: "0 < n"
  have "(m + n - 1) div n * n = (m + n - 1) - (m + n - 1) mod n"
    by (simp add: minus_mod_eq_div_mult)
  moreover have "(m + n - 1) mod n < n" using n by simp
  ultimately show ?thesis by linarith
qed

section \<open>Lemmas on steps\<close>

lemma list_reachable_run:
  "list_reachable s \<Longrightarrow> run_enabled s evs \<Longrightarrow> list_reachable (list_run s evs)"
  by (induction evs arbitrary: s) (auto intro: list_reachable.step)


lemma filter_expenses_deps:
  assumes "filter_deps a = filter_deps b"
  shows "filter_expenses a = filter_expenses b"
proof -
  from assms have "search_term a = search_term b" "start_date a = start_date b"
    "end_date a = end_date b" "order_by a = order_by b" "order a = order b"
    by (simp_all add: filter_deps_def)
  then show ?thesis by (simp add: fun_eq_iff filter_expenses_def apply_filters_def)
qed

lemma apply_event_filtered [simp]: "filtered_expenses (apply_event s ev) = filtered_expenses s"
  by (cases ev) (simp_all add: handle_sort_def Let_def)

lemma list_step_eq: "\<exists>fx. list_step s ev = (apply_event s ev)\<lparr>filtered_expenses := fx\<rparr>"
proof (cases "filter_deps (apply_event s ev) = filter_deps s")
  case True
  then have "list_step s ev = (apply_event s ev)\<lparr>filtered_expenses := filtered_expenses s\<rparr>"
    by (simp add: list_step_def run_effects_def)
  then show ?thesis by blast
next
  case False
  then show ?thesis by (auto simp: list_step_def run_effects_def)
qed

lemma list_step_shows_filtered:
  assumes "filtered_expenses s = filter_expenses s (expenses s)"
  shows "filtered_expenses (list_step s ev) = filter_expenses (list_step s ev) (expenses (list_step s ev))"
proof (cases "filter_deps (apply_event s ev) = filter_deps s")
  case True
  then have "expenses (apply_event s ev) = expenses s" by (simp add: filter_deps_def)
  moreover have "filter_expenses (apply_event s ev) = filter_expenses s"
    using True by (rule filter_expenses_deps)
  ultimately show ?thesis
    using True assms by (simp add: list_step_def run_effects_def)
next
  case False
  have "filter_deps ((apply_event s ev)\<lparr>filtered_expenses := fx\<rparr>) = filter_deps (apply_event s ev)"
    for fx by (simp add: filter_deps_def)
  then have "filter_expenses ((apply_event s ev)\<lparr>filtered_expenses := fx\<rparr>) =
      filter_expenses (apply_event s ev)" for fx
    by (rule filter_expenses_deps)
  with False show ?thesis by (simp add: list_step_def run_effects_def)
qed

lemma list_step_rows_per_page:
  "rows_per_page (list_step s ev) = rows_per_page (apply_event s ev)"
  "order_by (list_step s ev) = order_by (apply_event s ev)"
  "page (list_step s ev) = page (apply_event s ev)"
  "search_term (list_step s ev) = search_term (apply_event s ev)"
  using list_step_eq [of s ev] by auto

lemma list_step_fields:
  "expenses (list_step s ev) = expenses (apply_event s ev)"
  "start_date (list_step s ev) = start_date (apply_event s ev)"
  "end_date (list_step s ev) = end_date (apply_event s ev)"
  "order (list_step s ev) = order (apply_event s ev)"
  using list_step_eq [of s ev] by auto

lemma filter_expenses_upd_filtered [simp]:
  "filter_expenses (s\<lparr>filtered_expenses := fx\<rparr>) = filter_expenses s"
  by (simp add: fun_eq_iff filter_expenses_def apply_filters_def)

lemma div_mult_le_self: "i div n * n \<le> (i::nat)"
  by (simp flip: minus_mod_eq_div_mult)

lemma handle_sort_changes_deps: "filter_deps (handle_sort k s) \<noteq> filter_deps s"
  by (auto simp: handle_sort_def filter_deps_def Let_def split: if_splits)

lemma list_step_sort_refilters:
  "filtered_expenses (list_step s (SortClicked k)) =
   filter_expenses (list_step s (SortClicked k)) (expenses s)"
proof -
  have "filter_deps (apply_event s (SortClicked k)) \<noteq> filter_deps s"
    by (simp add: handle_sort_changes_deps)
  then show ?thesis
    by (simp add: list_step_def run_effects_def handle_sort_def Let_def)
qed

lemma list_step_page_keeps_filtered:
  "filtered_expenses (list_step s (PageChanged p)) = filtered_expenses s"
  by (simp add: list_step_def run_effects_def filter_deps_def)

lemma apply_filters_cleared:
  "search_term s = [] \<Longrightarrow> start_date s = None \<Longrightarrow> end_date s = None \<Longrightarrow> apply_filters s xs = xs"
  by (simp add: apply_filters_def js_truthy_str_def)

lemma visible_rows_nth:
  assumes "i < length (filtered_expenses s)" "rows_per_page s = n" "0 < n" "page s = i div n"
  shows "filtered_expenses s ! i \<in> set (visible_rows s)"
proof -
  let ?xs = "filtered_expenses s"
  have "i - i div n * n < n" using assms(3) by (simp add: minus_div_mult_eq_mod)
  moreover have "i div n * n \<le> i" by (rule div_mult_le_self)
  moreover have "take n (drop (i div n * n) ?xs) ! (i - i div n * n) = ?xs ! i"
  proof -
    have "i div n * n \<le> length ?xs" using div_mult_le_self [of i n] assms(1) by linarith
    from nth_drop [OF this, of "i - i div n * n"] show ?thesis
      using \<open>i - i div n * n < n\<close> div_mult_le_self [of i n] by simp
  qed
  ultimately show ?thesis using assms(1,2,4)
    by (metis (no_types) visible_rows_def page_slice_take_drop add_diff_inverse_nat diff_less_mono
        length_drop length_take min_less_iff_conj nth_mem not_less)
qed

lemmas list_eval =
  Let_def init_list_state_def list_step_def run_effects_def filter_deps_def filter_expenses_def
  apply_filters_def expense_cmp_def js_sort_Cons cmp_desc_def cmp_asc_def search_match_def
  js_string_eval visible_rows_def page_slice_def js_slice_def js_rel_index_def
  sample_gas_def sample_coffee_def

section \<open>Properties of the list page\<close>

text \<open>
  C1. \<open>filterExpenses\<close> meets its contract: the result is a permutation of exactly
  the expenses that satisfy every active predicate, ordered by the selected field in the
  selected direction.
\<close>

theorem filter_expenses_contract:
  "mset (filter_expenses s xs) = mset (filter (passes_filters s) xs) \<and>
   sorted_wrt (in_order (order s)) (map (expense_field (order_by s)) (filter_expenses s xs))"
  by (simp add: filter_expenses_def apply_filters_eq_filter [symmetric] sorted_js_sort_expense_cmp)

text \<open>
  C2. In every state the page can reach, the table's list is \<open>filterExpenses\<close> of the
  current expenses and parameters: the dependency list of the \<open>useCallback\<close> names
  every input of the filter, so no change is ever missed.
\<close>

theorem list_reachable_shows_filtered:
  "list_reachable s \<Longrightarrow> filtered_expenses s = filter_expenses s (expenses s)"
proof (induction rule: list_reachable.induct)
  case init
  then show ?case by (simp add: init_list_state_def filter_expenses_def apply_filters_def)
next
  case (step s ev)
  from step.IH show ?case by (rule list_step_shows_filtered)
qed

theorem list_reachable_shows_filtered_witness:
  "list_reachable (list_step init_list_state (SearchChanged ''gas'')) \<and>
   filtered_expenses (list_step init_list_state (SearchChanged ''gas'')) =
   filter_expenses (list_step init_list_state (SearchChanged ''gas''))
     (expenses (list_step init_list_state (SearchChanged ''gas'')))"
proof -
  have r: "list_reachable (list_step init_list_state (SearchChanged ''gas''))"
    by (rule list_reachable.step [OF list_reachable.init]) simp
  show ?thesis using r list_reachable_shows_filtered [OF r] by simp
qed

text \<open>
  C3. With a positive page size the pages \<open>0 .. ceil(length / n) - 1\<close> cover the list
  exactly once, in order, with no gap and no overlap.
\<close>

theorem page_slices_tile:
  assumes "0 < n"
  shows "concat (map (\<lambda>p. page_slice xs p n) [0..<(length xs + n - 1) div n]) = xs"
proof -
  have "length xs \<le> (length xs + n - 1) div n * n" using assms by (rule ceil_div_cover)
  then show ?thesis by (simp add: page_slice_take_drop concat_windows)
qed

theorem page_slices_tile_witness:
  "0 < (2::nat) \<and>
   concat (map (\<lambda>p. page_slice [1, 2, 3 :: nat] p 2) [0..<(length [1, 2, 3 :: nat] + 2 - 1) div 2]) =
     [1, 2, 3]"
  using page_slices_tile [of 2 "[1, 2, 3 :: nat]"] by simp

text \<open>
  The descending comparator sorts exactly as the library's stable \<open>sort_key\<close> run on
  the reversed list, reversed back: decreasing key order, ties in input order.
\<close>

lemma sort_desc_is_stable_reverse:
  "js_sort (expense_cmp Desc k) xs = rev (sort_key (expense_field k) (rev xs))"
  by (rule js_sort_expense_cmp_Desc)

text \<open>Filtering and sorting an already filtered and sorted list changes nothing.\<close>

lemma filter_expenses_idem: "filter_expenses s (filter_expenses s xs) = filter_expenses s xs"
  by (simp add: filter_expenses_def apply_filters_sorted_input js_sort_expense_cmp_idem)

text \<open>With an empty search term and no date bounds the filters keep every expense.\<close>

lemma apply_filters_inactive:
  assumes "search_term s = []" and "start_date s = None" and "end_date s = None"
  shows "apply_filters s xs = xs"
  using assms by (simp add: apply_filters_def js_truthy_str_def)

text \<open>
  Where the sort field's values are distinct, reversing the direction reverses the
  sorted list.
\<close>

lemma sort_direction_reverses:
  assumes "inj_on (expense_field k) (set xs)"
  shows "js_sort (expense_cmp Desc k) xs = rev (js_sort (expense_cmp Asc k) xs)"
proof -
  have "sort_key (expense_field k) (rev xs) = sort_key (expense_field k) xs"
    by (rule sort_key_inj_key_eq) (simp_all add: assms)
  then show ?thesis by (simp add: js_sort_expense_cmp_Desc js_sort_expense_cmp_Asc)
qed

text \<open>
  The sort is stable: the expenses with one value of the sort field appear in the
  order they had before sorting, in either direction.
\<close>

lemma sort_stable:
  "filter (\<lambda>e. expense_field k e = v) (js_sort (expense_cmp ord k) xs) =
   filter (\<lambda>e. expense_field k e = v) xs"
  by (cases ord)
    (simp_all add: js_sort_expense_cmp_Asc sort_key_stable expense_cmp_def filter_desc_js_sort
      js_sort_asc_sort_key)

text \<open>
  C9. A page holds \<open>min n (length - p * n)\<close> rows: never more than the page size, and
  none for a page that starts at or after the end (an empty slice, not an error).
\<close>

theorem page_slice_length: "length (page_slice xs p n) = min n (length xs - p * n)"
  by (simp add: page_slice_take_drop)

text \<open>
  Clicking one column's label twice always flips the direction between the clicks,
  the column becomes the sort key, and a click on another column sorts ascending.
\<close>

lemma handle_sort_toggles:
  "order (handle_sort p (handle_sort p s)) \<noteq> order (handle_sort p s) \<and>
   order_by (handle_sort p s) = p \<and>
   (order_by s \<noteq> p \<longrightarrow> order (handle_sort p s) = Asc)"
  by (cases "order s") (auto simp: handle_sort_def Let_def)

text \<open>
  C11. Every expense the page has loaded can be brought on screen, from any state, by
  events the page can send: clear the search field and both date pickers, choose ten
  rows per page, click a sort label (a click always changes a dependency of the filter,
  so the effect reruns) and go to the page that holds the expense.
\<close>

theorem every_expense_can_be_shown:
  assumes "e \<in> set (expenses s)"
  shows "\<exists>evs. run_enabled s evs \<and> e \<in> set (visible_rows (list_run s evs))"
proof -
  let ?clear = "[SearchChanged [], StartDateChanged None, EndDateChanged None,
                RowsPerPageChanged 10, SortClicked KDate]"
  define t where "t = list_run s ?clear"
  have t: "rows_per_page t = 10" "expenses t = expenses s"
    "filtered_expenses t = js_sort (expense_cmp (order t) (order_by t)) (expenses s)"
    by (simp_all add: t_def list_step_rows_per_page list_step_fields list_step_sort_refilters
        filter_expenses_def apply_filters_cleared handle_sort_def Let_def)
  have en: "run_enabled s ?clear"
    by (simp add: sortable_keys_def head_cells_def)
  obtain i where i: "i < length (filtered_expenses t)" "filtered_expenses t ! i = e"
    using assms by (metis t(3) in_set_conv_nth set_js_sort)
  let ?u = "list_step t (PageChanged (i div 10))"
  have "i div 10 * 10 < length (filtered_expenses t)"
    using div_mult_le_self [of i 10] i(1) by linarith
  then have pe: "event_enabled t (PageChanged (i div 10))"
    using t(1) by simp
  have "e \<in> set (visible_rows ?u)"
    using visible_rows_nth [of i ?u 10] i t(1)
    by (simp add: list_step_page_keeps_filtered list_step_rows_per_page)
  moreover have "list_run s (?clear @ [PageChanged (i div 10)]) = ?u"
    by (simp add: t_def)
  moreover have "run_enabled s (?clear @ [PageChanged (i div 10)])"
    using en pe by (simp add: t_def)
  ultimately show ?thesis by metis
qed
theorem every_expense_can_be_shown_witness:
  "sample_coffee \<in> set (expenses (init_list_state\<lparr>expenses := [sample_gas, sample_coffee]\<rparr>)) \<and>
   (\<exists>evs. run_enabled (init_list_state\<lparr>expenses := [sample_gas, sample_coffee]\<rparr>) evs \<and>
      sample_coffee \<in> set (visible_rows
        (list_run (init_list_state\<lparr>expenses := [sample_gas, sample_coffee]\<rparr>) evs)))"
proof -
  have m: "sample_coffee \<in> set (expenses (init_list_state\<lparr>expenses := [sample_gas, sample_coffee]\<rparr>))"
    by simp
  show ?thesis using m every_expense_can_be_shown [OF m] by simp
qed

text \<open>
  The spec's search example: searching for \<open>coffee\<close> over "Morning Coffee" and "Gas"
  keeps only the first, matching case-insensitively.
\<close>

lemma search_coffee_scenario:
  "apply_filters (init_list_state\<lparr>search_term := ''coffee''\<rparr>) [sample_coffee, sample_gas] =
   [sample_coffee]"
  by (simp add: list_eval)

lemma list_step_pager:
  "page (list_step s ev) = page (apply_event s ev)"
  "rows_per_page (list_step s ev) = rows_per_page (apply_event s ev)"
  using list_step_eq [of s ev] by auto

text \<open>
  C12. The search field does not reset the page (line 142, and the filter effect of
  lines 97--102 leaves the page alone): after any search change the page index is the
  old one, and whenever the narrowed list ends before that page the table shows no rows,
  although expenses may match.
\<close>

theorem stale_page_after_search:
  "page (list_step s (SearchChanged t)) = page s \<and>
   (length (filtered_expenses (list_step s (SearchChanged t))) \<le> page s * rows_per_page s \<longrightarrow>
    visible_rows (list_step s (SearchChanged t)) = [])"
  by (simp add: list_step_pager visible_rows_def page_slice_take_drop)

theorem stale_page_after_search_witness:
  "let s = list_run init_list_state
             [ExpensesFetched [sample_gas, sample_gas, sample_gas, sample_gas, sample_gas, sample_coffee],
              RowsPerPageChanged 5, PageChanged 1]
   in page (list_step s (SearchChanged ''coffee'')) = 1 \<and>
      filtered_expenses (list_step s (SearchChanged ''coffee'')) = [sample_coffee] \<and>
      visible_rows (list_step s (SearchChanged ''coffee'')) = []"
proof -
  let ?s = "list_run init_list_state
             [ExpensesFetched [sample_gas, sample_gas, sample_gas, sample_gas, sample_gas, sample_coffee],
              RowsPerPageChanged 5, PageChanged 1]"
  have f: "filtered_expenses (list_step ?s (SearchChanged ''coffee'')) = [sample_coffee]" "page ?s = 1"
    "rows_per_page ?s = 5"
    by (simp_all add: list_eval)
  show ?thesis using stale_page_after_search [of ?s "''coffee''"] f by (simp add: Let_def)
qed

text \<open>
  C13. In every reachable state the page size is one of the pager's options and the sort
  key is a sortable column.
\<close>

theorem list_reachable_bounds:
  "list_reachable s \<Longrightarrow> rows_per_page s \<in> {5, 10, 25} \<and> order_by s \<in> set sortable_keys"
proof (induction rule: list_reachable.induct)
  case init
  then show ?case by (simp add: init_list_state_def sortable_keys_def head_cells_def)
next
  case (step s ev)
  then show ?case
    by (cases ev) (auto simp: list_step_rows_per_page handle_sort_def Let_def)
qed

theorem list_reachable_bounds_witness:
  "list_reachable (list_step init_list_state (SortClicked KAmount)) \<and>
   rows_per_page (list_step init_list_state (SortClicked KAmount)) \<in> {5, 10, 25} \<and>
   order_by (list_step init_list_state (SortClicked KAmount)) \<in> set sortable_keys"
proof -
  have r: "list_reachable (list_step init_list_state (SortClicked KAmount))"
    by (rule list_reachable.step [OF list_reachable.init])
      (simp add: sortable_keys_def head_cells_def)
  show ?thesis using r list_reachable_bounds [OF r] by simp
qed

end
