(* ===== verification/Client.thy ===== *)
theory Client
  imports Domain
begin

text \<open>
  The remote access client, \<open>src/expense-tracker-fe/src/services/api.ts\<close>, and the
  session guard \<open>PrivateRoute\<close> with the route table of \<open>App.tsx\<close>. The client's
  mutable state is the record \<open>client_state\<close>: the token under the storage key
  \<open>token\<close>, the default \<open>Authorization\<close> header of the axios instance, and the
  browser location. The server is a parameter, a function from the request the client
  sends to the response it gets, so every lemma holds for any server. \<open>api_send\<close> is
  one call through both interceptors (lines 15--60): the request interceptor puts the
  stored token in the header, the response interceptor rejects a status outside
  200--299 and logs the user out on 401. \<open>login\<close>, \<open>signup\<close> and \<open>logout\<close> are
  \<open>authService\<close> (lines 62--111); the \<open>expenseService\<close> calls (lines 113--171) send one
  request and read the \<open>data\<close> member of the body. Errors are the left side of a sum;
  a thrown \<open>TypeError\<close> (reading a member of \<open>null\<close>) is one of them.
\<close>

section \<open>State, requests and errors\<close>

record client_state =
  stored_token :: "string option"
  default_auth :: "string option"
  location :: string

datatype http_method = GET | POST | PUT | DELETE

record http_request =
  rq_method :: http_method
  rq_url :: string
  rq_params :: "(string \<times> string) list"
  rq_body :: "json option"
  rq_auth :: "string option"

datatype http_result = HttpResponse nat json | NetworkError

type_synonym server = "http_request \<Rightarrow> http_result"

datatype api_error =
    HttpError nat json
  | NetworkFailure
  | TypeErrorNullMember string
  | NoTokenReceived

section \<open>Property access\<close>

text \<open>
  \<open>v.k\<close> on a parsed body: \<open>undefined\<close> (\<open>None\<close>) for a missing member or a member
  of a primitive, a \<open>TypeError\<close> on \<open>null\<close>; a repeated key reads its last value.
\<close>

fun js_member :: "json \<Rightarrow> string \<Rightarrow> api_error + json option" where
  "js_member JNull k = Inl (TypeErrorNullMember k)"
| "js_member (JObj kvs) k = Inr (map_of (rev kvs) k)"
| "js_member _ k = Inr None"

text \<open>A member of a body already known not to be \<open>null\<close>.\<close>

definition js_member_value :: "json \<Rightarrow> string \<Rightarrow> json option" where
  "js_member_value b k = (case js_member b k of Inr v \<Rightarrow> v | Inl _ \<Rightarrow> None)"

section \<open>The interceptors\<close>

text \<open>
  The header a request carries (lines 15--29): axios starts from the instance's
  defaults and the interceptor overwrites \<open>Authorization\<close> when the stored token is
  truthy.
\<close>

definition auth_header :: "client_state \<Rightarrow> string option" where
  "auth_header s =
     (case stored_token s of
        Some t \<Rightarrow> if js_truthy_str t then Some (''Bearer '' @ t) else default_auth s
      | None \<Rightarrow> default_auth s)"

text \<open>\<open>authService.logout\<close> (lines 106--110).\<close>

definition logout :: "client_state \<Rightarrow> client_state" where
  "logout s = s\<lparr>stored_token := None, default_auth := None, location := ''/login''\<rparr>"

definition is_success :: "nat \<Rightarrow> bool" where
  "is_success st \<longleftrightarrow> 200 \<le> st \<and> st < 300"

text \<open>One call through both interceptors (lines 15--60).\<close>

definition api_send ::
  "server \<Rightarrow> client_state \<Rightarrow> http_method \<Rightarrow> string \<Rightarrow> (string \<times> string) list \<Rightarrow> json option \<Rightarrow>
   client_state \<times> (api_error + json)" where
  "api_send srv s m url params body =
     (let rq = \<lparr>rq_method = m, rq_url = url, rq_params = params, rq_body = body,
                rq_auth = auth_header s\<rparr>
      in case srv rq of
           NetworkError \<Rightarrow> (s, Inl NetworkFailure)
         | HttpResponse st b \<Rightarrow>
             if is_success st then (s, Inr b)
             else ((if st = 401 then logout s else s), Inl (HttpError st b)))"

section \<open>authService\<close>

text \<open>The \<open>catch\<close> of \<open>login\<close>: the token and the default header are removed.\<close>

definition clear_session :: "client_state \<Rightarrow> client_state" where
  "clear_session s = s\<lparr>stored_token := None, default_auth := None\<rparr>"

text \<open>
  \<open>login\<close> (lines 63--96): the token is \<open>accessToken || token\<close>; a truthy one is
  stored as a string and put in the default header, a falsy one throws. Every error,
  the HTTP error included, passes the \<open>catch\<close>, which clears the session.
\<close>

definition login_body :: "json \<Rightarrow> api_error + (json \<times> auth_response)" where
  "login_body b =
     (case js_member b ''accessToken'' of
        Inl e \<Rightarrow> Inl e
      | Inr acc \<Rightarrow>
          (case js_member b ''token'' of
             Inl e \<Rightarrow> Inl e
           | Inr tk \<Rightarrow>
               (let tok = js_or acc tk
                in if js_truthy tok then
                     (case tok of
                        None \<Rightarrow> Inl NoTokenReceived
                      | Some v \<Rightarrow>
                          Inr (v, \<lparr>auth_token = v,
                                   auth_type = js_or (js_member_value b ''tokenType'')
                                                     (js_member_value b ''type''),
                                   auth_id = js_member_value b ''id'',
                                   auth_username = js_member_value b ''username'',
                                   auth_email = js_member_value b ''email'',
                                   auth_roles =
                                     (case js_or (js_member_value b ''roles'') (Some (JArr [])) of
                                        Some r \<Rightarrow> r | None \<Rightarrow> JArr [])\<rparr>))
                   else Inl NoTokenReceived)))"

definition login :: "server \<Rightarrow> client_state \<Rightarrow> login_request \<Rightarrow> client_state \<times> (api_error + auth_response)"
  where
  "login srv s rq =
     (case api_send srv s POST ''/auth/signin'' []
             (Some (JObj [(''username'', JStr (login_username rq)),
                          (''password'', JStr (login_password rq))])) of
        (s1, Inl e) \<Rightarrow> (clear_session s1, Inl e)
      | (s1, Inr b) \<Rightarrow>
          (case login_body b of
             Inl e \<Rightarrow> (clear_session s1, Inl e)
           | Inr (v, r) \<Rightarrow>
               (s1\<lparr>stored_token := Some (js_to_string v),
                   default_auth := Some (''Bearer '' @ js_to_string v)\<rparr>, Inr r)))"

text \<open>\<open>signup\<close> (lines 98--104).\<close>

definition signup :: "server \<Rightarrow> client_state \<Rightarrow> signup_request \<Rightarrow> client_state \<times> (api_error + unit)"
  where
  "signup srv s rq =
     (case api_send srv s POST ''/auth/signup'' []
             (Some (JObj [(''username'', JStr (signup_username rq)),
                          (''email'', JStr (signup_email rq)),
                          (''password'', JStr (signup_password rq))])) of
        (s1, Inl e) \<Rightarrow> (s1, Inl e)
      | (s1, Inr _) \<Rightarrow> (s1, Inr ()))"

section \<open>expenseService\<close>

text \<open>A call whose result is \<open>response.data.data\<close>.\<close>

definition api_data ::
  "server \<Rightarrow> client_state \<Rightarrow> http_method \<Rightarrow> string \<Rightarrow> (string \<times> string) list \<Rightarrow> json option \<Rightarrow>
   client_state \<times> (api_error + json option)" where
  "api_data srv s m url params body =
     (case api_send srv s m url params body of
        (s1, Inl e) \<Rightarrow> (s1, Inl e)
      | (s1, Inr b) \<Rightarrow> (s1, js_member b ''data''))"

definition get_all_expenses :: "server \<Rightarrow> client_state \<Rightarrow> client_state \<times> (api_error + json option)"
  where "get_all_expenses srv s = api_data srv s GET ''/v1/expenses'' [] None"

text \<open>
  An id is a JavaScript number and the path interpolates it with \<open>String\<close>, so
  \<open>NaN\<close> (the form's \<open>Number(id)\<close> of a non-numeric route parameter) gives
  \<open>/v1/expenses/NaN\<close>.
\<close>

definition get_expense_by_id ::
  "server \<Rightarrow> client_state \<Rightarrow> js_num \<Rightarrow> client_state \<times> (api_error + json option)" where
  "get_expense_by_id srv s i = api_data srv s GET (''/v1/expenses/'' @ js_num_to_string i) [] None"

definition add_expense ::
  "server \<Rightarrow> client_state \<Rightarrow> json \<Rightarrow> client_state \<times> (api_error + json option)" where
  "add_expense srv s e = api_data srv s POST ''/v1/expenses'' [] (Some e)"

definition update_expense ::
  "server \<Rightarrow> client_state \<Rightarrow> js_num \<Rightarrow> json \<Rightarrow> client_state \<times> (api_error + json option)" where
  "update_expense srv s i e = api_data srv s PUT (''/v1/expenses/'' @ js_num_to_string i) [] (Some e)"

definition delete_expense :: "server \<Rightarrow> client_state \<Rightarrow> js_num \<Rightarrow> client_state \<times> (api_error + unit)"
  where
  "delete_expense srv s i =
     (case api_send srv s DELETE (''/v1/expenses/'' @ js_num_to_string i) [] None of
        (s1, Inl e) \<Rightarrow> (s1, Inl e)
      | (s1, Inr _) \<Rightarrow> (s1, Inr ()))"

text \<open>The date range of a query: the start and the end of the named days.\<close>

definition day_range_params :: "string \<Rightarrow> string \<Rightarrow> (string \<times> string) list" where
  "day_range_params sd ed = [(''startDate'', sd @ ''T00:00:00''), (''endDate'', ed @ ''T23:59:59'')]"

definition get_expenses_between_dates ::
  "server \<Rightarrow> client_state \<Rightarrow> string \<Rightarrow> string \<Rightarrow> client_state \<times> (api_error + json option)" where
  "get_expenses_between_dates srv s sd ed =
     api_data srv s GET ''/v1/expenses/between'' (day_range_params sd ed) None"

definition get_monthly_report ::
  "server \<Rightarrow> client_state \<Rightarrow> int \<Rightarrow> int \<Rightarrow> client_state \<times> (api_error + json option)" where
  "get_monthly_report srv s y m =
     api_data srv s GET ''/v1/expenses/reports/monthly''
       [(''year'', string_of_int y), (''month'', string_of_int m)] None"

definition get_yearly_report ::
  "server \<Rightarrow> client_state \<Rightarrow> int \<Rightarrow> client_state \<times> (api_error + json option)" where
  "get_yearly_report srv s y =
     api_data srv s GET ''/v1/expenses/reports/yearly'' [(''year'', string_of_int y)] None"

definition get_category_report ::
  "server \<Rightarrow> client_state \<Rightarrow> string \<Rightarrow> string \<Rightarrow> client_state \<times> (api_error + json option)" where
  "get_category_report srv s sd ed =
     api_data srv s GET ''/v1/expenses/reports/category'' (day_range_params sd ed) None"

section \<open>The session guard and the routes\<close>

text \<open>\<open>PrivateRoute\<close> (\<open>App.tsx\<close>, lines 28--31): a truthy stored token lets the page render.\<close>

datatype page = LoginPage | RegisterPage | DashboardPage | ExpenseListPage | ExpenseFormPage
  | ReportsPage

datatype route_outcome = Render page | Redirect string | NoMatch

definition is_authenticated :: "client_state \<Rightarrow> bool" where
  "is_authenticated s \<longleftrightarrow> (case stored_token s of None \<Rightarrow> False | Some t \<Rightarrow> js_truthy_str t)"

definition private_route :: "client_state \<Rightarrow> page \<Rightarrow> route_outcome" where
  "private_route s p = (if is_authenticated s then Render p else Redirect ''/login'')"

text \<open>
  The route table (lines 39--82). React Router matches paths case-insensitively and
  ignores trailing slashes; the static segment \<open>new\<close> ranks above the parameter
  \<open>:id\<close>, which matches one non-empty segment.
\<close>

definition strip_trailing_slashes :: "string \<Rightarrow> string" where
  "strip_trailing_slashes p =
     (let q = rev (dropWhile (\<lambda>c. c = CHR ''/'') (rev p)) in if q = [] then ''/'' else q)"

definition route :: "client_state \<Rightarrow> string \<Rightarrow> route_outcome" where
  "route s path =
     (let q = strip_trailing_slashes path; l = js_to_lower q
      in if l = ''/login'' then Render LoginPage
         else if l = ''/register'' then Render RegisterPage
         else if l = ''/'' then private_route s DashboardPage
         else if l = ''/expenses'' then private_route s ExpenseListPage
         else if l = ''/expenses/new'' then private_route s ExpenseFormPage
         else if take 10 l = ''/expenses/'' \<and> drop 10 q \<noteq> [] \<and> CHR ''/'' \<notin> set (drop 10 q)
         then private_route s ExpenseFormPage
         else if l = ''/reports'' then private_route s ReportsPage
         else NoMatch)"

text \<open>
  The \<open>:id\<close> parameter \<open>useParams\<close> gives the form on \<open>/expenses/:id\<close> (line 67): the
  segment as written in the path; the static route \<open>/expenses/new\<close> has none.
\<close>

definition route_id :: "string \<Rightarrow> string option" where
  "route_id path =
     (let q = strip_trailing_slashes path; l = js_to_lower q
      in if l = ''/expenses/new'' then None
         else if take 10 l = ''/expenses/'' \<and> drop 10 q \<noteq> [] \<and> CHR ''/'' \<notin> set (drop 10 q)
         then Some (drop 10 q) else None)"

section \<open>Sessions as a state machine\<close>

text \<open>
  A client event is one call with the server's answer to it. The storage may hold a
  token from an earlier visit when the page loads, but a fresh axios instance has no
  default header.
\<close>

datatype client_event =
    ELogin login_request http_result
  | ESignup signup_request http_result
  | ELogout
  | ECall http_method string "(string \<times> string) list" "json option" http_result

fun client_step :: "client_state \<Rightarrow> client_event \<Rightarrow> client_state" where
  "client_step s (ELogin rq r) = fst (login (\<lambda>_. r) s rq)"
| "client_step s (ESignup rq r) = fst (signup (\<lambda>_. r) s rq)"
| "client_step s ELogout = logout s"
| "client_step s (ECall m url ps b r) = fst (api_send (\<lambda>_. r) s m url ps b)"

text \<open>The header each event's request carries (a logout sends none).\<close>

fun event_header :: "client_state \<Rightarrow> client_event \<Rightarrow> string option list" where
  "event_header s ELogout = []"
| "event_header s _ = [auth_header s]"

fun sent_headers :: "client_state \<Rightarrow> client_event list \<Rightarrow> string option list" where
  "sent_headers s [] = []"
| "sent_headers s (ev # evs) = event_header s ev @ sent_headers (client_step s ev) evs"

fun is_login :: "client_event \<Rightarrow> bool" where
  "is_login (ELogin _ _) = True"
| "is_login _ = False"

definition client_init :: "client_state \<Rightarrow> bool" where
  "client_init s \<longleftrightarrow> default_auth s = None"

inductive client_reachable :: "client_state \<Rightarrow> bool" where
  init: "client_init s \<Longrightarrow> client_reachable s"
| step: "client_reachable s \<Longrightarrow> client_reachable (client_step s ev)"

text \<open>The default header, when set, is the bearer form of the stored token.\<close>

definition auth_consistent :: "client_state \<Rightarrow> bool" where
  "auth_consistent s \<longleftrightarrow>
     default_auth s = None \<or> default_auth s = map_option (\<lambda>t. ''Bearer '' @ t) (stored_token s)"

section \<open>Lemmas on calls\<close>

lemma logout_fields [simp]:
  "stored_token (logout s) = None" "default_auth (logout s) = None"
  "location (logout s) = ''/login''"
  by (simp_all add: logout_def)

lemma clear_session_fields [simp]:
  "stored_token (clear_session s) = None" "default_auth (clear_session s) = None"
  by (simp_all add: clear_session_def)

lemma auth_header_no_token: "stored_token s = None \<Longrightarrow> default_auth s = None \<Longrightarrow> auth_header s = None"
  by (simp add: auth_header_def)

text \<open>A call leaves the state alone or logs out; nothing else.\<close>

lemma api_send_state:
  "fst (api_send srv s m url ps b) = s \<or> fst (api_send srv s m url ps b) = logout s"
  by (auto simp: api_send_def Let_def split: http_result.split)

lemma api_send_401:
  "api_send (\<lambda>_. HttpResponse 401 b) s m url ps bd = (logout s, Inl (HttpError 401 b))"
  by (simp add: api_send_def is_success_def)

lemma signup_state: "fst (signup srv s rq) = fst (api_send srv s POST ''/auth/signup'' []
   (Some (JObj [(''username'', JStr (signup_username rq)), (''email'', JStr (signup_email rq)),
                (''password'', JStr (signup_password rq))])))"
  by (simp add: signup_def split: prod.split sum.split)

lemma login_cases:
  "(\<exists>v. fst (login srv s rq) = (fst (api_send srv s POST ''/auth/signin'' []
        (Some (JObj [(''username'', JStr (login_username rq)),
                     (''password'', JStr (login_password rq))]))))
        \<lparr>stored_token := Some (js_to_string v),
         default_auth := Some (''Bearer '' @ js_to_string v)\<rparr> \<and> \<not> isl (snd (login srv s rq))) \<or>
   (\<exists>s1. fst (login srv s rq) = clear_session s1 \<and> isl (snd (login srv s rq)))"
  by (auto simp: login_def split: prod.split sum.split)

lemma api_send_keeps_no_token:
  assumes "stored_token s = None" and "default_auth s = None"
  shows "stored_token (fst (api_send srv s m url ps b)) = None \<and>
         default_auth (fst (api_send srv s m url ps b)) = None"
  using api_send_state [of srv s m url ps b] assms by auto

lemma no_login_keeps_no_token:
  assumes "\<not> is_login ev" and "stored_token s = None" and "default_auth s = None"
  shows "stored_token (client_step s ev) = None \<and> default_auth (client_step s ev) = None"
proof (cases ev)
  case (ESignup rq r)
  then show ?thesis using assms by (simp add: signup_state api_send_keeps_no_token)
next
  case (ECall m url ps b r)
  then show ?thesis using assms by (simp add: api_send_keeps_no_token)
qed (use assms in auto)

lemma sent_headers_no_login:
  "\<forall>ev\<in>set evs. \<not> is_login ev \<Longrightarrow> stored_token s = None \<Longrightarrow> default_auth s = None \<Longrightarrow>
   set (sent_headers s evs) \<subseteq> {None}"
proof (induction evs arbitrary: s)
  case Nil
  then show ?case by simp
next
  case (Cons ev evs)
  then have "stored_token (client_step s ev) = None \<and> default_auth (client_step s ev) = None"
    by (intro no_login_keeps_no_token) auto
  with Cons have "set (sent_headers (client_step s ev) evs) \<subseteq> {None}" by auto
  moreover have "set (event_header s ev) \<subseteq> {None}"
    using Cons.prems by (cases ev) (simp_all add: auth_header_no_token)
  ultimately show ?case by simp
qed

lemma auth_consistent_logout: "auth_consistent (logout s)"
  by (simp add: auth_consistent_def)

lemma auth_consistent_clear: "auth_consistent (clear_session s)"
  by (simp add: auth_consistent_def)

lemma auth_consistent_api_send:
  "auth_consistent s \<Longrightarrow> auth_consistent (fst (api_send srv s m url ps b))"
  using api_send_state [of srv s m url ps b] auth_consistent_logout by metis

lemma auth_consistent_login:
  "auth_consistent (fst (login srv s rq))"
  using login_cases [of srv s rq] by (auto simp: auth_consistent_def)

lemma auth_consistent_step: "auth_consistent s \<Longrightarrow> auth_consistent (client_step s ev)"
  by (cases ev) (simp_all add: auth_consistent_login signup_state auth_consistent_api_send
      auth_consistent_logout)

section \<open>Properties of the client\<close>

text \<open>
  C14. A response with status 401 to any call logs the user out (token and default
  header removed, location \<open>/login\<close>), and every later request carries no
  \<open>Authorization\<close> header until a login is attempted.
\<close>

theorem unauthorized_response_logs_out:
  assumes "\<forall>ev\<in>set evs. \<not> is_login ev"
  shows "api_send (\<lambda>_. HttpResponse 401 b) s m url ps bd = (logout s, Inl (HttpError 401 b)) \<and>
         location (logout s) = ''/login'' \<and> \<not> is_authenticated (logout s) \<and>
         set (sent_headers (logout s) evs) \<subseteq> {None}"
  using assms by (simp add: api_send_401 is_authenticated_def sent_headers_no_login)

theorem unauthorized_response_logs_out_witness:
  "api_send (\<lambda>_. HttpResponse 401 JNull)
     \<lparr>stored_token = Some ''abc'', default_auth = Some ''Bearer abc'', location = ''/''\<rparr>
     GET ''/v1/expenses'' [] None =
     (logout \<lparr>stored_token = Some ''abc'', default_auth = Some ''Bearer abc'', location = ''/''\<rparr>,
      Inl (HttpError 401 JNull)) \<and>
   location (logout \<lparr>stored_token = Some ''abc'', default_auth = Some ''Bearer abc'', location = ''/''\<rparr>)
     = ''/login'' \<and>
   \<not> is_authenticated
       (logout \<lparr>stored_token = Some ''abc'', default_auth = Some ''Bearer abc'', location = ''/''\<rparr>) \<and>
   set (sent_headers
         (logout \<lparr>stored_token = Some ''abc'', default_auth = Some ''Bearer abc'', location = ''/''\<rparr>)
         [ECall GET ''/v1/expenses'' [] None (HttpResponse 200 JNull), ELogout]) \<subseteq> {None}"
  using unauthorized_response_logs_out
    [of "[ECall GET ''/v1/expenses'' [] None (HttpResponse 200 JNull), ELogout]" JNull
        "\<lparr>stored_token = Some ''abc'', default_auth = Some ''Bearer abc'', location = ''/''\<rparr>"
        GET "''/v1/expenses''" "[]" None]
  by simp

text \<open>
  C15. In every reachable client state the default header is unset or is the bearer form
  of the stored token; so with no stored token no request carries a credential.
\<close>

theorem client_reachable_auth_consistent:
  "client_reachable s \<Longrightarrow> auth_consistent s \<and> (stored_token s = None \<longrightarrow> auth_header s = None)"
proof (induction rule: client_reachable.induct)
  case (init s)
  then show ?case by (simp add: client_init_def auth_consistent_def auth_header_def)
next
  case (step s ev)
  then have "auth_consistent (client_step s ev)" by (simp add: auth_consistent_step)
  then show ?case by (auto simp: auth_consistent_def auth_header_def)
qed

theorem client_reachable_auth_consistent_witness:
  "client_reachable (client_step \<lparr>stored_token = None, default_auth = None, location = ''/login''\<rparr>
     (ELogin \<lparr>login_username = ''ann'', login_password = ''pw''\<rparr>
        (HttpResponse 200 (JObj [(''accessToken'', JStr ''abc'')])))) \<and>
   auth_consistent (client_step \<lparr>stored_token = None, default_auth = None, location = ''/login''\<rparr>
     (ELogin \<lparr>login_username = ''ann'', login_password = ''pw''\<rparr>
        (HttpResponse 200 (JObj [(''accessToken'', JStr ''abc'')]))))"
proof -
  have r: "client_reachable (client_step \<lparr>stored_token = None, default_auth = None, location = ''/login''\<rparr>
     (ELogin \<lparr>login_username = ''ann'', login_password = ''pw''\<rparr>
        (HttpResponse 200 (JObj [(''accessToken'', JStr ''abc'')]))))"
    by (rule client_reachable.step, rule client_reachable.init) (simp add: client_init_def)
  show ?thesis using r client_reachable_auth_consistent [OF r] by blast
qed

text \<open>
  C16. A login answered with a non-empty string \<open>accessToken\<close> stores it, makes the
  session authenticated, puts it in the header of the next request and returns it.
\<close>

theorem login_success_authenticates:
  assumes "map_of (rev kvs) ''accessToken'' = Some (JStr t)" and "t \<noteq> []"
  shows "stored_token (fst (login (\<lambda>_. HttpResponse 200 (JObj kvs)) s rq)) = Some t \<and>
         is_authenticated (fst (login (\<lambda>_. HttpResponse 200 (JObj kvs)) s rq)) \<and>
         auth_header (fst (login (\<lambda>_. HttpResponse 200 (JObj kvs)) s rq)) = Some (''Bearer '' @ t) \<and>
         (\<exists>r. snd (login (\<lambda>_. HttpResponse 200 (JObj kvs)) s rq) = Inr r \<and> auth_token r = JStr t)"
  using assms
  by (simp add: login_def api_send_def is_success_def login_body_def js_or_def Let_def
      is_authenticated_def auth_header_def js_truthy_str_def)

theorem login_success_authenticates_witness:
  "map_of (rev [(''accessToken'', JStr ''abc'')]) ''accessToken'' = Some (JStr ''abc'') \<and>
   ''abc'' \<noteq> [] \<and>
   stored_token (fst (login (\<lambda>_. HttpResponse 200 (JObj [(''accessToken'', JStr ''abc'')]))
     \<lparr>stored_token = None, default_auth = None, location = ''/login''\<rparr>
     \<lparr>login_username = ''ann'', login_password = ''pw''\<rparr>)) = Some ''abc''"
  using login_success_authenticates [of "[(''accessToken'', JStr ''abc'')]" "''abc''"
      "\<lparr>stored_token = None, default_auth = None, location = ''/login''\<rparr>"
      "\<lparr>login_username = ''ann'', login_password = ''pw''\<rparr>"]
  by simp

text \<open>
  C17. Every failed login (an HTTP error, a network failure, a \<open>null\<close> body or a body
  without a truthy token) leaves no token and no default header behind.
\<close>

theorem login_failure_clears:
  assumes "isl (snd (login srv s rq))"
  shows "stored_token (fst (login srv s rq)) = None \<and> default_auth (fst (login srv s rq)) = None \<and>
         \<not> is_authenticated (fst (login srv s rq))"
  using login_cases [of srv s rq] assms by (auto simp: is_authenticated_def)

theorem login_failure_clears_witness:
  "isl (snd (login (\<lambda>_. HttpResponse 200 (JObj [(''token'', JStr [])]))
     \<lparr>stored_token = Some ''old'', default_auth = None, location = ''/''\<rparr>
     \<lparr>login_username = ''ann'', login_password = ''pw''\<rparr>)) \<and>
   stored_token (fst (login (\<lambda>_. HttpResponse 200 (JObj [(''token'', JStr [])]))
     \<lparr>stored_token = Some ''old'', default_auth = None, location = ''/''\<rparr>
     \<lparr>login_username = ''ann'', login_password = ''pw''\<rparr>)) = None \<and>
   default_auth (fst (login (\<lambda>_. HttpResponse 200 (JObj [(''token'', JStr [])]))
     \<lparr>stored_token = Some ''old'', default_auth = None, location = ''/''\<rparr>
     \<lparr>login_username = ''ann'', login_password = ''pw''\<rparr>)) = None \<and>
   \<not> is_authenticated (fst (login (\<lambda>_. HttpResponse 200 (JObj [(''token'', JStr [])]))
     \<lparr>stored_token = Some ''old'', default_auth = None, location = ''/''\<rparr>
     \<lparr>login_username = ''ann'', login_password = ''pw''\<rparr>))"
proof -
  have f: "isl (snd (login (\<lambda>_. HttpResponse 200 (JObj [(''token'', JStr [])]))
     \<lparr>stored_token = Some ''old'', default_auth = None, location = ''/''\<rparr>
     \<lparr>login_username = ''ann'', login_password = ''pw''\<rparr>))"
    by (simp add: login_def api_send_def is_success_def login_body_def js_or_def Let_def)
  show ?thesis using f login_failure_clears [OF f] by blast
qed

text \<open>
  C18. No page other than login and registration is rendered without a truthy stored
  token.
\<close>

theorem protected_route_needs_token:
  assumes "route s path = Render pg" and "pg \<noteq> LoginPage" and "pg \<noteq> RegisterPage"
  shows "is_authenticated s"
  using assms by (auto simp: route_def private_route_def Let_def split: if_splits)

theorem protected_route_needs_token_witness:
  "route \<lparr>stored_token = Some ''abc'', default_auth = None, location = ''/''\<rparr> ''/expenses/7'' =
     Render ExpenseFormPage \<and>
   ExpenseFormPage \<noteq> LoginPage \<and> ExpenseFormPage \<noteq> RegisterPage \<and>
   is_authenticated \<lparr>stored_token = Some ''abc'', default_auth = None, location = ''/''\<rparr>"
proof -
  have r: "route \<lparr>stored_token = Some ''abc'', default_auth = None, location = ''/''\<rparr> ''/expenses/7'' =
     Render ExpenseFormPage"
    by (simp add: route_def private_route_def is_authenticated_def strip_trailing_slashes_def
        js_string_eval)
  show ?thesis using r protected_route_needs_token [OF r] by simp
qed

text \<open>
  C19. The response envelope is not checked: for every 2xx answer the call returns
  \<open>response.data.data\<close> as it is, \<open>undefined\<close> when the body is an object without a
  \<open>data\<close> member, and a \<open>TypeError\<close> (not an HTTP error) when the body is \<open>null\<close>.
\<close>

theorem envelope_unchecked:
  assumes "is_success st" "\<forall>rq. srv rq = HttpResponse st b"
  shows "get_all_expenses srv s = (s, js_member b ''data'') \<and>
         (b = JNull \<longrightarrow> get_all_expenses srv s = (s, Inl (TypeErrorNullMember ''data''))) \<and>
         (\<forall>kvs. b = JObj kvs \<and> ''data'' \<notin> fst ` set kvs \<longrightarrow> get_all_expenses srv s = (s, Inr None))"
  using assms by (auto simp: get_all_expenses_def api_data_def api_send_def map_of_eq_None_iff)

theorem envelope_unchecked_witness:
  "is_success 200 \<and> (\<forall>rq. (\<lambda>_. HttpResponse 200 (JObj [(''items'', JArr [])])) rq = HttpResponse 200 (JObj [(''items'', JArr [])])) \<and>
   get_all_expenses (\<lambda>_. HttpResponse 200 (JObj [(''items'', JArr [])])) \<lparr>stored_token = Some ''abc'', default_auth = Some ''Bearer abc'', location = ''/expenses''\<rparr> = (\<lparr>stored_token = Some ''abc'', default_auth = Some ''Bearer abc'', location = ''/expenses''\<rparr>, Inr None)"
proof -
  have h: "is_success 200" by (simp add: is_success_def)
  show ?thesis using h envelope_unchecked [OF h, of "\<lambda>_. HttpResponse 200 (JObj [(''items'', JArr [])])" _ "\<lparr>stored_token = Some ''abc'', default_auth = Some ''Bearer abc'', location = ''/expenses''\<rparr>"] by simp
qed

end
