(* ===== verification/Reports.thy ===== *)
theory Reports
  imports ExpenseList Client
begin

text \<open>
  The aggregates of \<open>pages/Dashboard.tsx\<close> and \<open>pages/Reports.tsx\<close>: the totals (a
  \<open>reduce\<close> over the amounts), the monthly average (the yearly total over 12), the
  average of a category row (a division that may be by zero), the five recent expenses
  and the three top categories (slices). The category report is computed by the
  server; \<open>category_summary\<close> states what the spec says it is (per category, in order of
  first appearance, the count and the sum) and the lemmas relate the pages' arithmetic
  to it. \<open>fetchReports\<close> (lines 48--69) awaits three calls in turn and sets one piece of
  state after each; a change of the selected year or month starts a new run while older
  ones may still be waiting. The runs are the list \<open>runs\<close> of the record
  \<open>reports_state\<close>, a response is an event naming its run, and the server's data is a
  parameter (\<open>report_server\<close>).
\<close>

section \<open>Aggregates\<close>

text \<open>\<open>calculateTotal\<close> (\<open>Reports.tsx\<close>, lines 75--76).\<close>

definition calculate_total :: "expense list \<Rightarrow> rat" where
  "calculate_total xs = foldl (\<lambda>acc e. acc + amount e) 0 xs"

text \<open>The monthly total of the dashboard (\<open>Dashboard.tsx\<close>, line 36).\<close>

definition monthly_total :: "expense list \<Rightarrow> rat" where
  "monthly_total xs = foldl (\<lambda>acc e. acc + amount e) 0 xs"

text \<open>\<open>calculateTotal(yearlyExpenses) / 12\<close> (\<open>Reports.tsx\<close>, line 210).\<close>

definition monthly_average :: "expense list \<Rightarrow> js_num" where
  "monthly_average yearly = js_div (calculate_total yearly) 12"

text \<open>\<open>category.totalAmount / category.count\<close> (\<open>Reports.tsx\<close>, line 189).\<close>

definition category_average :: "expense_category_report \<Rightarrow> js_num" where
  "category_average r = js_div (total_amount r) (of_int (report_count r))"

text \<open>\<open>allExpenses.slice(0, 5)\<close> and \<open>categoryReport.slice(0, 3)\<close> (\<open>Dashboard.tsx\<close>).\<close>

definition recent_expenses :: "expense list \<Rightarrow> expense list" where
  "recent_expenses xs = js_slice xs 0 5"

definition top_categories :: "expense_category_report list \<Rightarrow> expense_category_report list" where
  "top_categories rs = js_slice rs 0 3"

text \<open>The year and month choices (\<open>Reports.tsx\<close>, lines 28--46) and the month's label (line 123).\<close>

definition report_years :: "int \<Rightarrow> int list" where
  "report_years current = map (\<lambda>i. current - int i) [0..<5]"

definition months :: "(int \<times> string) list" where
  "months =
     [(1, ''January''), (2, ''February''), (3, ''March''), (4, ''April''), (5, ''May''),
      (6, ''June''), (7, ''July''), (8, ''August''), (9, ''September''), (10, ''October''),
      (11, ''November''), (12, ''December'')]"

definition month_label :: "int \<Rightarrow> string option" where
  "month_label m = map_option snd (find (\<lambda>x. fst x = m) months)"

section \<open>The category report the server promises\<close>

text \<open>Per category, in order of first appearance: the count and the total amount.\<close>

definition category_summary :: "expense list \<Rightarrow> expense_category_report list" where
  "category_summary xs =
     map (\<lambda>c. \<lparr>report_category = c,
               report_count = int (length (filter (\<lambda>e. category e = c) xs)),
               total_amount = calculate_total (filter (\<lambda>e. category e = c) xs)\<rparr>)
       (remdups (map category xs))"

section \<open>fetchReports as concurrent runs\<close>

datatype fetch_stage = AwaitMonthly | AwaitYearly | AwaitCategory | RunDone

record fetch_run =
  run_year :: int
  run_month :: int
  run_stage :: fetch_stage

text \<open>The page's state (\<open>Reports.tsx\<close>, lines 21--26) and the runs in flight.\<close>

record reports_state =
  monthly_expenses :: "expense list"
  yearly_expenses :: "expense list"
  category_report :: "expense_category_report list"
  selected_year :: int
  selected_month :: int
  runs :: "fetch_run list"

text \<open>What the server answers for given parameters.\<close>

record report_server =
  monthly_of :: "int \<Rightarrow> int \<Rightarrow> expense list"
  yearly_of :: "int \<Rightarrow> expense list"
  category_of :: "int \<Rightarrow> expense_category_report list"

datatype reports_event = SelectYear int | SelectMonth int | Arrive nat bool

text \<open>The mount effect runs \<open>fetchReports\<close> for the current year and month.\<close>

definition reports_init :: "int \<Rightarrow> int \<Rightarrow> reports_state" where
  "reports_init y m =
     \<lparr>monthly_expenses = [], yearly_expenses = [], category_report = [], selected_year = y,
      selected_month = m, runs = [\<lparr>run_year = y, run_month = m, run_stage = AwaitMonthly\<rparr>]\<rparr>"

text \<open>
  A selection that changes the value changes \<open>fetchReports\<close> (its dependencies, line
  69) and the effect (lines 71--73) starts a new run; setting the same value again
  does not re-render.
\<close>

definition start_run :: "reports_state \<Rightarrow> reports_state" where
  "start_run st =
     st\<lparr>runs := runs st @ [\<lparr>run_year = selected_year st, run_month = selected_month st,
                            run_stage = AwaitMonthly\<rparr>]\<rparr>"

text \<open>
  The response to run \<open>i\<close>'s pending call: on success the run's setter stores the
  server's data for the run's own parameters and the run awaits its next call; a failure
  ends the run in the \<open>catch\<close> (line 66) and sets nothing more.
\<close>

definition arrive :: "report_server \<Rightarrow> reports_state \<Rightarrow> nat \<Rightarrow> bool \<Rightarrow> reports_state" where
  "arrive srv st i ok =
     (if length (runs st) \<le> i then st
      else
        let r = runs st ! i; done = (\<lambda>t. t\<lparr>runs := (runs t)[i := r\<lparr>run_stage := RunDone\<rparr>]\<rparr>)
        in if \<not> ok then done st
           else case run_stage r of
             AwaitMonthly \<Rightarrow>
               st\<lparr>monthly_expenses := monthly_of srv (run_year r) (run_month r),
                  runs := (runs st)[i := r\<lparr>run_stage := AwaitYearly\<rparr>]\<rparr>
           | AwaitYearly \<Rightarrow>
               st\<lparr>yearly_expenses := yearly_of srv (run_year r),
                  runs := (runs st)[i := r\<lparr>run_stage := AwaitCategory\<rparr>]\<rparr>
           | AwaitCategory \<Rightarrow>
               done (st\<lparr>category_report := category_of srv (run_year r)\<rparr>)
           | RunDone \<Rightarrow> st)"

fun reports_step :: "report_server \<Rightarrow> reports_state \<Rightarrow> reports_event \<Rightarrow> reports_state" where
  "reports_step srv st (SelectYear y) =
     (if y = selected_year st then st else start_run (st\<lparr>selected_year := y\<rparr>))"
| "reports_step srv st (SelectMonth m) =
     (if m = selected_month st then st else start_run (st\<lparr>selected_month := m\<rparr>))"
| "reports_step srv st (Arrive i ok) = arrive srv st i ok"

fun reports_run :: "report_server \<Rightarrow> reports_state \<Rightarrow> reports_event list \<Rightarrow> reports_state" where
  "reports_run srv st [] = st"
| "reports_run srv st (ev # evs) = reports_run srv (reports_step srv st ev) evs"

section \<open>The dashboard's load\<close>

text \<open>The dashboard's state (\<open>Dashboard.tsx\<close>, lines 21--23).\<close>

record dashboard_state =
  dash_recent :: "expense list"
  dash_monthly_total :: rat
  dash_categories :: "expense_category_report list"

definition dashboard_init :: dashboard_state where
  "dashboard_init = \<lparr>dash_recent = [], dash_monthly_total = 0, dash_categories = []\<rparr>"

text \<open>
  \<open>fetchDashboardData\<close> (lines 25--54), run once on mount: the three calls in turn,
  each answer \<open>None\<close> when it rejects; a rejection jumps to the \<open>catch\<close> and the later
  setters do not run.
\<close>

definition dashboard_fetch ::
  "expense list option \<Rightarrow> expense list option \<Rightarrow> expense_category_report list option \<Rightarrow>
   dashboard_state \<Rightarrow> dashboard_state" where
  "dashboard_fetch monthly all cats st =
     (case monthly of
        None \<Rightarrow> st
      | Some ms \<Rightarrow>
          let st1 = st\<lparr>dash_monthly_total := monthly_total ms\<rparr>
          in case all of
               None \<Rightarrow> st1
             | Some xs \<Rightarrow>
                 let st2 = st1\<lparr>dash_recent := recent_expenses xs\<rparr>
                 in case cats of
                      None \<Rightarrow> st2
                    | Some cs \<Rightarrow> st2\<lparr>dash_categories := cs\<rparr>)"

text \<open>The top categories the dashboard lists (line 81).\<close>

definition dashboard_top :: "dashboard_state \<Rightarrow> expense_category_report list" where
  "dashboard_top st = top_categories (dash_categories st)"

section \<open>Sample data\<close>

text \<open>The spec's category example: two food expenses of 10 and 20, a rent of 5.\<close>

definition sample_report_expenses :: "expense list" where
  "sample_report_expenses =
     [sample_coffee\<lparr>amount := 10\<rparr>, sample_coffee\<lparr>amount := 20\<rparr>,
      sample_gas\<lparr>amount := 5, category := ''RENT''\<rparr>]"

text \<open>A server whose yearly data differ between 2024 and 2023.\<close>

definition sample_server :: report_server where
  "sample_server =
     \<lparr>monthly_of = (\<lambda>y m. []), yearly_of = (\<lambda>y. if y = 2024 then [sample_gas] else []),
      category_of = (\<lambda>y. [])\<rparr>"

text \<open>The newest run is the one of the current selection.\<close>

definition newest_run_selected :: "reports_state \<Rightarrow> bool" where
  "newest_run_selected st \<longleftrightarrow>
     runs st \<noteq> [] \<and> run_year (last (runs st)) = selected_year st \<and>
     run_month (last (runs st)) = selected_month st"

section \<open>Lemmas on the aggregates\<close>

lemma foldl_amount_shift: "foldl (\<lambda>acc e. acc + amount e) a xs = a + sum_list (map amount xs)"
  by (induction xs arbitrary: a) (simp_all add: add.assoc)

lemma calculate_total_sum: "calculate_total xs = sum_list (map amount xs)"
  by (simp add: calculate_total_def foldl_amount_shift)

lemma calculate_total_append: "calculate_total (xs @ ys) = calculate_total xs + calculate_total ys"
  by (simp add: calculate_total_sum)

lemma sum_filter_partition_set:
  fixes h :: "'a \<Rightarrow> 'b::comm_monoid_add"
  assumes "finite S" and "g ` set xs \<subseteq> S"
  shows "(\<Sum>c\<in>S. sum_list (map h (filter (\<lambda>e. g e = c) xs))) = sum_list (map h xs)"
  using assms(2)
proof (induction xs)
  case Nil
  then show ?case by simp
next
  case (Cons x xs)
  have "(\<Sum>c\<in>S. sum_list (map h (filter (\<lambda>e. g e = c) (x # xs)))) =
        (\<Sum>c\<in>S. (if g x = c then h x else 0) + sum_list (map h (filter (\<lambda>e. g e = c) xs)))"
    by (intro sum.cong) auto
  also have "\<dots> = (\<Sum>c\<in>S. if g x = c then h x else 0) +
                   (\<Sum>c\<in>S. sum_list (map h (filter (\<lambda>e. g e = c) xs)))"
    by (rule sum.distrib)
  also have "(\<Sum>c\<in>S. if g x = c then h x else 0) = h x"
    using Cons.prems assms(1) by (simp add: sum.delta)
  finally show ?case using Cons by simp
qed

lemma sum_list_filter_partition:
  fixes h :: "'a \<Rightarrow> 'b::comm_monoid_add"
  shows "(\<Sum>c\<leftarrow>remdups (map g xs). sum_list (map h (filter (\<lambda>e. g e = c) xs))) =
         sum_list (map h xs)"
  by (simp add: sum_list_distinct_conv_sum_set sum_filter_partition_set)

lemma category_summary_totals:
  "sum_list (map total_amount (category_summary xs)) = calculate_total xs"
proof -
  have "sum_list (map total_amount (category_summary xs)) =
        (\<Sum>c\<leftarrow>remdups (map category xs). sum_list (map amount (filter (\<lambda>e. category e = c) xs)))"
    by (simp add: category_summary_def comp_def calculate_total_sum)
  also have "\<dots> = calculate_total xs"
    by (simp add: sum_list_filter_partition calculate_total_sum)
  finally show ?thesis .
qed

lemma category_summary_counts:
  "sum_list (map report_count (category_summary xs)) = int (length xs)"
proof -
  have "sum_list (map report_count (category_summary xs)) =
        (\<Sum>c\<leftarrow>remdups (map category xs).
           sum_list (map (\<lambda>_. 1::int) (filter (\<lambda>e. category e = c) xs)))"
    by (simp add: category_summary_def comp_def sum_list_triv)
  also have "\<dots> = sum_list (map (\<lambda>_. 1::int) xs)"
    by (rule sum_list_filter_partition)
  also have "\<dots> = int (length xs)"
    by (simp add: sum_list_triv)
  finally show ?thesis .
qed

lemma category_summary_count_pos: "r \<in> set (category_summary xs) \<Longrightarrow> 0 < report_count r"
  by (auto simp: category_summary_def filter_empty_conv)

section \<open>Properties of the reports\<close>

text \<open>
  The spec's category aggregation: the totals of the rows add up to the total of
  the expenses, the counts to their number, and every row's count is positive, so the
  average column of the report page is a finite number, the row's total over its count.
\<close>

lemma category_summary_consistent:
  "sum_list (map total_amount (category_summary xs)) = calculate_total xs \<and>
   sum_list (map report_count (category_summary xs)) = int (length xs) \<and>
   (\<forall>r\<in>set (category_summary xs).
      0 < report_count r \<and> category_average r = JsNum (total_amount r / of_int (report_count r)))"
  by (auto simp: category_summary_totals category_summary_counts category_average_def js_div_def
      dest: category_summary_count_pos)

text \<open>
  The spec's scenario: 10 and 20 for food and 5 for rent give the rows (FOOD, 2,
  30) and (RENT, 1, 5), and the food average is 15.
\<close>

lemma category_food_scenario:
  "category_summary sample_report_expenses =
     [\<lparr>report_category = ''FOOD'', report_count = 2, total_amount = 30\<rparr>,
      \<lparr>report_category = ''RENT'', report_count = 1, total_amount = 5\<rparr>] \<and>
   category_average \<lparr>report_category = ''FOOD'', report_count = 2, total_amount = 30\<rparr> = JsNum 15"
  by (simp add: category_summary_def sample_report_expenses_def sample_coffee_def sample_gas_def
      calculate_total_def category_average_def js_div_def)

text \<open>
  Both pages' totals are the sum of the amounts, and the monthly average is the
  yearly total over 12 whatever the months that have data.
\<close>

lemma totals_are_sums:
  "calculate_total xs = sum_list (map amount xs) \<and> monthly_total xs = calculate_total xs \<and>
   monthly_average xs = JsNum (sum_list (map amount xs) / 12)"
  by (simp add: calculate_total_sum monthly_total_def calculate_total_def monthly_average_def
      js_div_def foldl_amount_shift)

text \<open>
  A report row with a count of 0 (which the server's aggregation never produces,
  \<open>category_summary_count_pos\<close>) is shown as \<open>NaN\<close> or an infinity, not as a number.
\<close>

lemma zero_count_average:
  "report_count r = 0 \<Longrightarrow> category_average r \<in> {JsNaN, JsPosInf, JsNegInf}"
  by (simp add: category_average_def js_div_def)

text \<open>
  The year menu offers the current year and the four before it, newest first, and a
  month has a label exactly when it is 1 to 12.
\<close>

lemma selection_options:
  "report_years y = [y, y - 1, y - 2, y - 3, y - 4] \<and> sorted_wrt (>) (report_years y) \<and>
   (month_label m \<noteq> None \<longleftrightarrow> 1 \<le> m \<and> m \<le> 12)"
proof -
  have "report_years y = [y, y - 1, y - 2, y - 3, y - 4]"
    by (simp add: report_years_def upt_rec)
  moreover have "month_label m \<noteq> None \<longleftrightarrow> 1 \<le> m \<and> m \<le> 12"
    by (simp add: month_label_def months_def) arith
  ultimately show ?thesis by simp
qed

text \<open>
  C21. Responses are not matched to the current selection: in every state, the yearly
  response of any run, also one whose year is no longer selected, sets the yearly
  expenses to that run's year and leaves the selection as it is. The witness is the
  race after switching from 2024 to 2023: the page shows 2024's expenses under 2023.
\<close>

theorem stale_response_race:
  assumes "i < length (runs st)" "run_stage (runs st ! i) = AwaitYearly"
  shows "yearly_expenses (reports_step srv st (Arrive i True)) = yearly_of srv (run_year (runs st ! i)) \<and>
         selected_year (reports_step srv st (Arrive i True)) = selected_year st \<and>
         selected_month (reports_step srv st (Arrive i True)) = selected_month st"
  using assms by (simp add: arrive_def Let_def)

theorem stale_response_race_witness:
  "let st = reports_run sample_server (reports_init 2024 1)
              [SelectYear 2023, Arrive 1 True, Arrive 1 True, Arrive 1 True, Arrive 0 True]
   in 0 < length (runs st) \<and> run_stage (runs st ! 0) = AwaitYearly \<and>
      selected_year (reports_step sample_server st (Arrive 0 True)) = 2023 \<and>
      yearly_expenses (reports_step sample_server st (Arrive 0 True)) = [sample_gas] \<and>
      yearly_of sample_server 2023 = []"
proof -
  let ?st = "reports_run sample_server (reports_init 2024 1)
              [SelectYear 2023, Arrive 1 True, Arrive 1 True, Arrive 1 True, Arrive 0 True]"
  have h: "0 < length (runs ?st)" "run_stage (runs ?st ! 0) = AwaitYearly" "run_year (runs ?st ! 0) = 2024"
    "selected_year ?st = 2023"
    by (simp_all add: reports_init_def start_run_def arrive_def Let_def)
  show ?thesis using stale_response_race [OF h(1,2), of sample_server] h
    by (simp add: sample_server_def Let_def)
qed

lemma last_update_stage:
  "xs \<noteq> [] \<Longrightarrow> run_year (last (xs[i := (xs ! i)\<lparr>run_stage := s\<rparr>])) = run_year (last xs) \<and>
                run_month (last (xs[i := (xs ! i)\<lparr>run_stage := s\<rparr>])) = run_month (last xs)"
  by (cases "i < length xs") (auto simp: last_conv_nth nth_list_update list_update_beyond)

lemma newest_run_selected_step:
  "newest_run_selected st \<Longrightarrow> newest_run_selected (reports_step srv st ev)"
  by (cases ev) (auto simp: newest_run_selected_def start_run_def arrive_def Let_def last_update_stage
      split: fetch_stage.split)

lemma newest_run_selected_run:
  "newest_run_selected st \<Longrightarrow> newest_run_selected (reports_run srv st evs)"
  by (induction evs arbitrary: st) (simp_all add: newest_run_selected_step)

lemma newest_run_answers_last:
  assumes "newest_run_selected st" "run_stage (last (runs st)) = AwaitMonthly"
  defines "n \<equiv> length (runs st) - 1"
  shows "let st' = reports_run srv st [Arrive n True, Arrive n True, Arrive n True]
         in monthly_expenses st' = monthly_of srv (selected_year st) (selected_month st) \<and>
            yearly_expenses st' = yearly_of srv (selected_year st) \<and>
            category_report st' = category_of srv (selected_year st) \<and>
            run_stage (runs st' ! n) = RunDone"
proof -
  have n: "n < length (runs st)" "runs st ! n = last (runs st)"
    using assms(1) by (simp_all add: n_def newest_run_selected_def last_conv_nth)
  then show ?thesis
    using assms(1,2) by (simp add: arrive_def Let_def newest_run_selected_def)
qed

text \<open>
  C8. The page converges to the selection when the newest run answers last: after any
  selections and responses from the mount, if the newest run has not been answered yet,
  its three successful responses show the server's data for the selected year and
  month, whatever older runs did before.
\<close>

theorem newest_selection_shown:
  assumes "run_stage (last (runs (reports_run srv (reports_init y m) evs))) = AwaitMonthly"
  shows "let st = reports_run srv (reports_init y m) evs;
             st' = reports_run srv st (replicate 3 (Arrive (length (runs st) - 1) True))
         in (monthly_expenses st', yearly_expenses st', category_report st') =
              (monthly_of srv (selected_year st) (selected_month st), yearly_of srv (selected_year st),
               category_of srv (selected_year st))"
proof -
  have "newest_run_selected (reports_run srv (reports_init y m) evs)"
    by (rule newest_run_selected_run) (simp add: newest_run_selected_def reports_init_def)
  from newest_run_answers_last [OF this assms] show ?thesis
    by (simp add: Let_def numeral_3_eq_3)
qed

theorem newest_selection_shown_witness:
  "run_stage (last (runs (reports_run sample_server (reports_init 2024 1) [SelectYear 2023, Arrive 0 True]))) =
     AwaitMonthly \<and>
   yearly_expenses (reports_run sample_server (reports_init 2024 1)
     [SelectYear 2023, Arrive 0 True, Arrive 1 True, Arrive 1 True, Arrive 1 True]) = []"
  using newest_selection_shown [of sample_server 2024 1 "[SelectYear 2023, Arrive 0 True]"]
  by (simp add: sample_server_def reports_init_def start_run_def arrive_def Let_def numeral_3_eq_3)

text \<open>
  A run that is not overtaken shows, after its three responses, the server's data
  for the selected year and month.
\<close>

lemma single_run_shows_selection:
  "reports_run srv (reports_init y m) [Arrive 0 True, Arrive 0 True, Arrive 0 True] =
   \<lparr>monthly_expenses = monthly_of srv y m, yearly_expenses = yearly_of srv y,
    category_report = category_of srv y, selected_year = y, selected_month = m,
    runs = [\<lparr>run_year = y, run_month = m, run_stage = RunDone\<rparr>]\<rparr>"
  by (simp add: reports_init_def arrive_def Let_def)

text \<open>
  C23. A failure in the middle of a run leaves a partial update: in every state, when a
  run's monthly call succeeds and its yearly call fails, the monthly table shows the
  run's month while the yearly and category data keep whatever they showed before.
\<close>

theorem failed_run_partial_update:
  assumes "i < length (runs st)" "run_stage (runs st ! i) = AwaitMonthly"
  shows "let st' = reports_run srv st [Arrive i True, Arrive i False]
         in monthly_expenses st' = monthly_of srv (run_year (runs st ! i)) (run_month (runs st ! i)) \<and>
            yearly_expenses st' = yearly_expenses st \<and> category_report st' = category_report st \<and>
            run_stage (runs st' ! i) = RunDone"
  using assms by (simp add: arrive_def Let_def)

theorem failed_run_partial_update_witness:
  "let st = reports_run sample_server (reports_init 2024 1)
              [Arrive 0 True, Arrive 0 True, Arrive 0 True, SelectMonth 2]
   in 1 < length (runs st) \<and> run_stage (runs st ! 1) = AwaitMonthly \<and>
      yearly_expenses (reports_run sample_server st [Arrive 1 True, Arrive 1 False]) = [sample_gas]"
proof -
  let ?st = "reports_run sample_server (reports_init 2024 1)
              [Arrive 0 True, Arrive 0 True, Arrive 0 True, SelectMonth 2]"
  have h: "1 < length (runs ?st)" "run_stage (runs ?st ! 1) = AwaitMonthly" "yearly_expenses ?st = [sample_gas]"
    by (simp_all add: reports_init_def start_run_def arrive_def Let_def sample_server_def)
  show ?thesis using failed_run_partial_update [OF h(1,2), of sample_server] h by (simp add: Let_def)
qed

text \<open>
  A dashboard load whose three calls succeed shows the sum of the month's amounts,
  the first five expenses of the list and the first three category rows; when the list
  call fails the total is still shown and the rest stays empty.
\<close>

lemma dashboard_load:
  "dashboard_fetch (Some ms) (Some xs) (Some cs) dashboard_init =
     \<lparr>dash_recent = take 5 xs, dash_monthly_total = sum_list (map amount ms),
      dash_categories = cs\<rparr> \<and>
   dashboard_top (dashboard_fetch (Some ms) (Some xs) (Some cs) dashboard_init) = take 3 cs \<and>
   dashboard_fetch (Some ms) None c dashboard_init =
     \<lparr>dash_recent = [], dash_monthly_total = sum_list (map amount ms), dash_categories = []\<rparr>"
  by (simp add: dashboard_fetch_def dashboard_init_def dashboard_top_def recent_expenses_def
      top_categories_def js_slice_from_zero monthly_total_def foldl_amount_shift)

end
