(* ===== verification/DateFormat.thy ===== *)
theory DateFormat
  imports Dates
begin

text \<open>
  The other direction of \<open>Dates\<close>: from a time value back to the calendar, and
  date-fns' \<open>format(date, "yyyy-MM-dd'T'HH:mm:ss")\<close>, which the expense form uses to
  write the date it submits (\<open>pages/ExpenseForm.tsx\<close>, lines 113--116). The field
  functions are ECMAScript's \<open>Day\<close>, \<open>TimeWithinDay\<close>, \<open>YearFromTime\<close> (the
  largest year whose first day is not after the day, found by a search up or down
  from 1970 whose termination is proved by a measure), \<open>MonthFromTime\<close> and
  \<open>DateFromTime\<close> (the month table), \<open>HourFromTime\<close>, \<open>MinFromTime\<close> and
  \<open>SecFromTime\<close>, in the fixed UTC zone of \<open>Dates\<close>. date-fns prints the era year
  (\<open>1 - y\<close> for years before 1) padded to four digits and the other fields padded to
  two (\<open>addLeadingZeros\<close>); it throws \<open>RangeError\<close> on Invalid Date. The lemmas prove
  the two round trips with \<open>new Date\<close>: format then parse loses only the
  milliseconds, and parse then format gives back every canonical string. The search
  is total (its domain predicates hold everywhere) and moves at most \<open>|d| div 365 + 1\<close>
  years, because every year has 365 or 366 days.
\<close>

section \<open>Calendar fields of a time value\<close>

definition days_in_year :: "int \<Rightarrow> int" where
  "days_in_year y = (if is_leap_year y then 366 else 365)"

text \<open>\<open>YearFromTime\<close>: search up from 1970 for a day after 1970, down otherwise.\<close>

function (domintros) year_up :: "int \<Rightarrow> int \<Rightarrow> int" where
  "year_up y d = (if day_from_year (y + 1) \<le> d then year_up (y + 1) d else y)"
  by pat_completeness auto

function (domintros) year_down :: "int \<Rightarrow> int \<Rightarrow> int" where
  "year_down y d = (if day_from_year y \<le> d then y else year_down (y - 1) d)"
  by pat_completeness auto

definition year_from_day :: "int \<Rightarrow> int" where
  "year_from_day d = (if d < 0 then year_down 1969 d else year_up 1970 d)"

text \<open>\<open>MonthFromTime\<close>: the first month (1--12) whose end lies after the day of the year.\<close>

definition month_in_year :: "int \<Rightarrow> nat \<Rightarrow> nat" where
  "month_in_year y w =
     (case find (\<lambda>m. w < days_before_month y (Suc m)) [1..<12] of Some m \<Rightarrow> m | None \<Rightarrow> 12)"

text \<open>\<open>Day\<close>, \<open>TimeWithinDay\<close> and the fields of a time value.\<close>

definition day_of_time :: "int \<Rightarrow> int" where
  "day_of_time t = t div ms_per_day"

definition time_in_day :: "int \<Rightarrow> int" where
  "time_in_day t = t mod ms_per_day"

definition year_from_time :: "int \<Rightarrow> int" where
  "year_from_time t = year_from_day (day_of_time t)"

definition day_within_year :: "int \<Rightarrow> nat" where
  "day_within_year t = nat (day_of_time t - day_from_year (year_from_time t))"

definition month_from_time :: "int \<Rightarrow> nat" where
  "month_from_time t = month_in_year (year_from_time t) (day_within_year t)"

definition date_from_time :: "int \<Rightarrow> nat" where
  "date_from_time t =
     day_within_year t - days_before_month (year_from_time t) (month_from_time t) + 1"

definition hour_from_time :: "int \<Rightarrow> nat" where
  "hour_from_time t = nat (time_in_day t div 3600000)"

definition min_from_time :: "int \<Rightarrow> nat" where
  "min_from_time t = nat (time_in_day t div 60000 mod 60)"

definition sec_from_time :: "int \<Rightarrow> nat" where
  "sec_from_time t = nat (time_in_day t div 1000 mod 60)"

section \<open>date-fns format\<close>

text \<open>\<open>addLeadingZeros(number, targetLength)\<close>: the sign, then the digits padded with zeros.\<close>

definition add_leading_zeros :: "int \<Rightarrow> nat \<Rightarrow> string" where
  "add_leading_zeros n k =
     (let s = string_of_nat (nat \<bar>n\<bar>)
      in (if n < 0 then ''-'' else []) @ replicate (k - length s) CHR ''0'' @ s)"

text \<open>The \<open>yyyy\<close> token: the era year, four digits at least.\<close>

definition format_year :: "int \<Rightarrow> string" where
  "format_year y = add_leading_zeros (if 0 < y then y else 1 - y) 4"

text \<open>\<open>format(date, "yyyy-MM-dd'T'HH:mm:ss")\<close> of date-fns on a valid date.\<close>

definition format_time :: "int \<Rightarrow> string" where
  "format_time t =
     format_year (year_from_time t) @ ''-'' @
     add_leading_zeros (int (month_from_time t)) 2 @ ''-'' @
     add_leading_zeros (int (date_from_time t)) 2 @ ''T'' @
     add_leading_zeros (int (hour_from_time t)) 2 @ '':'' @
     add_leading_zeros (int (min_from_time t)) 2 @ '':'' @
     add_leading_zeros (int (sec_from_time t)) 2"

text \<open>On Invalid Date \<open>format\<close> throws \<open>RangeError\<close> (\<open>None\<close>).\<close>

definition format_date_time :: "js_date \<Rightarrow> string option" where
  "format_date_time dt = map_option format_time dt"

section \<open>Year arithmetic and termination of the year search\<close>

lemma int_div_succ:
  fixes a n :: int
  assumes "1 < n"
  shows "(a + 1) div n = a div n + (if a mod n = n - 1 then 1 else 0)"
proof -
  have r: "0 \<le> a mod n" "a mod n < n" using assms by simp_all
  have n0: "n \<noteq> 0" using assms by simp
  have "(a + 1) div n = ((a mod n + 1) + a div n * n) div n"
    by (simp add: add.commute add.left_commute)
  also have "\<dots> = a div n + (a mod n + 1) div n"
    using n0 by (rule div_mult_self1)
  also have "(a mod n + 1) div n = (if a mod n = n - 1 then 1 else 0)"
  proof (cases "a mod n = n - 1")
    case True
    then show ?thesis using n0 by simp
  next
    case False
    then have "a mod n + 1 < n" using r by simp
    then show ?thesis using r False by (simp add: div_pos_pos_trivial)
  qed
  finally show ?thesis .
qed

lemma mod_eq_pred_iff:
  fixes a n :: int
  assumes "1 < n"
  shows "a mod n = n - 1 \<longleftrightarrow> n dvd (a + 1)"
proof -
  have "(n - 1) mod n = n - 1" by (rule mod_pos_pos_trivial) (use assms in auto)
  then have "a mod n = n - 1 \<longleftrightarrow> a mod n = (n - 1) mod n" by simp
  also have "\<dots> \<longleftrightarrow> n dvd (a - (n - 1))" by (rule mod_eq_dvd_iff)
  also have "a - (n - 1) = (a + 1) - n" by simp
  also have "n dvd (a + 1) - n \<longleftrightarrow> n dvd (a + 1)" by (rule dvd_diff_left_iff) simp
  finally show ?thesis .
qed

lemma dvd_shift: "(n::int) dvd k \<Longrightarrow> n dvd (y - k) \<longleftrightarrow> n dvd y"
  by (metis dvd_diff dvd_add diff_add_cancel)

lemma leap_residues:
  fixes y :: int
  shows "(y - 1969) mod 4 = 3 \<longleftrightarrow> 4 dvd y"
    "(y - 1901) mod 100 = 99 \<longleftrightarrow> 100 dvd y"
    "(y - 1601) mod 400 = 399 \<longleftrightarrow> 400 dvd y"
  using mod_eq_pred_iff [of 4 "y - 1969"] mod_eq_pred_iff [of 100 "y - 1901"]
    mod_eq_pred_iff [of 400 "y - 1601"]
  by (simp_all add: dvd_shift)

lemma day_from_year_succ: "day_from_year (y + 1) = day_from_year y + days_in_year y"
proof -
  have "day_from_year (y + 1) =
        365 * (y - 1970) + 365 + ((y - 1969) + 1) div 4 - ((y - 1901) + 1) div 100 +
        ((y - 1601) + 1) div 400"
  proof -
    have "y + 1 - 1970 = (y - 1970) + 1" "y + 1 - 1969 = (y - 1969) + 1"
      "y + 1 - 1901 = (y - 1901) + 1" "y + 1 - 1601 = (y - 1601) + 1" by simp_all
    then show ?thesis by (simp only: day_from_year_def distrib_left mult_1_right)
  qed
  also have "\<dots> = day_from_year y + 365 + (if 4 dvd y then 1 else 0) -
                   (if 100 dvd y then 1 else 0) + (if 400 dvd y then 1 else 0)"
  proof -
    have e: "(4::int) - 1 = 3" "(100::int) - 1 = 99" "(400::int) - 1 = 399"
      and g: "(1::int) < 4" "(1::int) < 100" "(1::int) < 400" by simp_all
    note d4 = int_div_succ [OF g(1), of "y - 1969", unfolded e leap_residues]
    note d100 = int_div_succ [OF g(2), of "y - 1901", unfolded e leap_residues]
    note d400 = int_div_succ [OF g(3), of "y - 1601", unfolded e leap_residues]
    show ?thesis by (simp only: d4 d100 d400) (simp add: day_from_year_def)
  qed
  also have "\<dots> = day_from_year y + days_in_year y"
  proof -
    have h: "100 dvd y \<Longrightarrow> 4 dvd y" "400 dvd y \<Longrightarrow> 100 dvd y"
      using dvd_trans [of "4::int" 100 y] dvd_trans [of "100::int" 400 y] by simp_all
    have l: "is_leap_year y \<longleftrightarrow> 4 dvd y \<and> (\<not> 100 dvd y \<or> 400 dvd y)"
      by (simp only: is_leap_year_def dvd_eq_mod_eq_0)
    show ?thesis
      unfolding days_in_year_def l using h by (cases "4 dvd y"; cases "100 dvd y"; cases "400 dvd y") simp_all
  qed
  finally show ?thesis .
qed

lemma days_in_year_pos: "0 < days_in_year y"
  by (simp add: days_in_year_def)

lemma day_from_year_less_succ: "day_from_year y < day_from_year (y + 1)"
  by (simp add: day_from_year_succ days_in_year_pos)

termination year_up
proof (relation "measure (\<lambda>(y, d). nat (d - day_from_year y))")
  fix y d :: int
  assume "day_from_year (y + 1) \<le> d"
  moreover have "day_from_year y < day_from_year (y + 1)" by (rule day_from_year_less_succ)
  ultimately show "((y + 1, d), (y, d)) \<in> measure (\<lambda>(y, d). nat (d - day_from_year y))"
    by simp
qed simp

termination year_down
proof (relation "measure (\<lambda>(y, d). nat (day_from_year y - d))")
  fix y d :: int
  assume "\<not> day_from_year y \<le> d"
  moreover have "day_from_year (y - 1) < day_from_year y"
    using day_from_year_less_succ [of "y - 1"] by simp
  ultimately show "((y - 1, d), (y, d)) \<in> measure (\<lambda>(y, d). nat (day_from_year y - d))"
    by simp
qed simp

lemma year_up_spec:
  "day_from_year y \<le> d \<Longrightarrow>
   day_from_year (year_up y d) \<le> d \<and> d < day_from_year (year_up y d + 1)"
proof (induction y d rule: year_up.induct)
  case (1 y d)
  then show ?case by (subst year_up.simps) (simp add: not_le)
qed

lemma year_down_spec:
  "d < day_from_year (y + 1) \<Longrightarrow>
   day_from_year (year_down y d) \<le> d \<and> d < day_from_year (year_down y d + 1)"
proof (induction y d rule: year_down.induct)
  case (1 y d)
  then show ?case by (subst year_down.simps) (simp add: not_le)
qed

lemma day_from_year_1970: "day_from_year 1970 = 0"
  by (simp add: day_from_year_def)

lemma year_from_day_spec:
  "day_from_year (year_from_day d) \<le> d \<and> d < day_from_year (year_from_day d + 1)"
proof (cases "d < 0")
  case True
  then show ?thesis using year_down_spec [of d 1969] by (simp add: year_from_day_def day_from_year_1970)
next
  case False
  then show ?thesis using year_up_spec [of 1970 d] by (simp add: year_from_day_def day_from_year_1970)
qed

lemma day_from_year_mono: "y \<le> z \<Longrightarrow> day_from_year y \<le> day_from_year z"
proof (induction z rule: int_ge_induct)
  case (step i)
  then show ?case using day_from_year_less_succ [of i] by simp
qed simp

lemma day_from_year_spread:
  "y \<le> z \<Longrightarrow> 365 * (z - y) \<le> day_from_year z - day_from_year y \<and>
                day_from_year z - day_from_year y \<le> 366 * (z - y)"
proof (induction z rule: int_ge_induct)
  case (step i)
  obtain k where k: "day_from_year (i + 1) = day_from_year i + k" "365 \<le> k" "k \<le> 366"
    using day_from_year_succ [of i] by (simp add: days_in_year_def)
  have "365 * (i + 1 - y) = 365 * (i - y) + 365" "366 * (i + 1 - y) = 366 * (i - y) + 366"
    by (simp_all add: algebra_simps)
  then show ?case using step.IH k by linarith
qed simp

lemma year_up_total: "year_up_dom (y, d)"
proof (induction "nat (d - day_from_year y)" arbitrary: y rule: less_induct)
  case less
  show ?case
  proof (rule year_up.domintros)
    assume "day_from_year (y + 1) \<le> d"
    moreover have "day_from_year y < day_from_year (y + 1)" by (rule day_from_year_less_succ)
    ultimately show "year_up_dom (y + 1, d)" by (intro less) simp
  qed
qed

lemma year_down_total: "year_down_dom (y, d)"
proof (induction "nat (day_from_year y - d)" arbitrary: y rule: less_induct)
  case less
  show ?case
  proof (rule year_down.domintros)
    assume "\<not> day_from_year y \<le> d"
    moreover have "day_from_year (y - 1) < day_from_year y"
      using day_from_year_less_succ [of "y - 1"] by simp
    ultimately show "year_down_dom (y - 1, d)" by (intro less) simp
  qed
qed

lemma year_from_day_distance: "\<bar>year_from_day d - 1970\<bar> \<le> \<bar>d\<bar> div 365 + 1"
proof -
  define Y where "Y = year_from_day d"
  have Y: "day_from_year Y \<le> d" "d < day_from_year (Y + 1)"
    using year_from_day_spec [of d] by (simp_all add: Y_def)
  show ?thesis
  proof (cases "1970 \<le> Y")
    case True
    have "365 * (Y - 1970) \<le> d"
      using day_from_year_spread [OF True] Y(1) by (simp add: day_from_year_1970)
    then have "(365 * (Y - 1970)) div 365 \<le> d div 365" by (rule zdiv_mono1) simp
    then have "Y - 1970 \<le> d div 365" by simp
    moreover have "0 \<le> d"
      using \<open>365 * (Y - 1970) \<le> d\<close> True by (simp add: order_trans [of 0 "365 * (Y - 1970)"])
    ultimately show ?thesis using True by (simp add: Y_def [symmetric])
  next
    case False
    then have "Y + 1 \<le> 1970" by simp
    have "365 * (1969 - Y) < - d"
      using day_from_year_spread [OF \<open>Y + 1 \<le> 1970\<close>] Y(2) by (simp add: day_from_year_1970)
    then have "(365 * (1969 - Y)) div 365 \<le> (- d) div 365" by (intro zdiv_mono1) simp_all
    then have "1969 - Y \<le> (- d) div 365" by simp
    moreover have "d < 0"
      using \<open>365 * (1969 - Y) < - d\<close> False by (simp add: le_less_trans [of 0 "365 * (1969 - Y)"])
    ultimately show ?thesis using False by (simp add: Y_def [symmetric])
  qed
qed
lemma year_from_day_unique:
  assumes "day_from_year y \<le> d" and "d < day_from_year (y + 1)"
  shows "year_from_day d = y"
proof (rule ccontr)
  let ?r = "year_from_day d"
  assume ne: "?r \<noteq> y"
  show False
  proof (cases "?r < y")
    case True
    then have "day_from_year (?r + 1) \<le> day_from_year y" by (simp add: day_from_year_mono)
    then show False using assms year_from_day_spec [of d] by simp
  next
    case False
    with ne have "day_from_year (y + 1) \<le> day_from_year ?r" by (simp add: day_from_year_mono)
    then show False using assms year_from_day_spec [of d] by simp
  qed
qed

lemma days_before_month_table:
  "days_before_month y (Suc 0) = 0" "days_before_month y (Suc (Suc 0)) = 31"
  "days_before_month y 2 = 31"
  "days_before_month y 3 = 59 + (if is_leap_year y then 1 else 0)"
  "days_before_month y 4 = 90 + (if is_leap_year y then 1 else 0)"
  "days_before_month y 5 = 120 + (if is_leap_year y then 1 else 0)"
  "days_before_month y 6 = 151 + (if is_leap_year y then 1 else 0)"
  "days_before_month y 7 = 181 + (if is_leap_year y then 1 else 0)"
  "days_before_month y 8 = 212 + (if is_leap_year y then 1 else 0)"
  "days_before_month y 9 = 243 + (if is_leap_year y then 1 else 0)"
  "days_before_month y 10 = 273 + (if is_leap_year y then 1 else 0)"
  "days_before_month y 11 = 304 + (if is_leap_year y then 1 else 0)"
  "days_before_month y 12 = 334 + (if is_leap_year y then 1 else 0)"
  by (simp_all add: days_before_month_def days_in_month_def upt_rec)

lemma upt_1_12: "[1..<12] = [1, 2, 3, 4, 5, 6, 7, 8, 9, 10, 11 :: nat]"
  by (simp add: upt_rec)

lemma month_in_year_spec:
  assumes "int w < days_in_year y"
  shows "1 \<le> month_in_year y w \<and> month_in_year y w \<le> 12 \<and>
         days_before_month y (month_in_year y w) \<le> w \<and>
         w < days_before_month y (month_in_year y w) + days_in_month y (month_in_year y w)"
  using assms unfolding month_in_year_def upt_1_12
  by (cases "is_leap_year y")
    (simp_all add: days_before_month_table days_in_month_def days_in_year_def split: if_split)

lemma digits_acc_append:
  "digits_acc a (xs @ ys) = (case digits_acc a xs of None \<Rightarrow> None | Some b \<Rightarrow> digits_acc b ys)"
  by (induction xs arbitrary: a) (auto split: option.split)

lemma digit_value_char: "k < 10 \<Longrightarrow> digit_value (char_of (48 + k)) = Some k"
  by (simp add: digit_value_def)

lemma digits_acc_string_of_nat:
  "digits_acc a (string_of_nat n) = Some (a * 10 ^ length (string_of_nat n) + n)"
proof (induction n arbitrary: a rule: string_of_nat.induct)
  case (1 n)
  show ?case
  proof (cases "n < 10")
    case True
    then show ?thesis by (simp add: digit_value_char)
  next
    case False
    then show ?thesis
      using 1 [OF False] by (simp add: digits_acc_append digit_value_char algebra_simps)
  qed
qed

lemma digits_acc_zeros: "digits_acc a (replicate j CHR ''0'' @ s) = digits_acc (a * 10 ^ j) s"
  by (induction j arbitrary: a) (simp_all add: digit_value_def algebra_simps)

lemma digits_value_leading_zeros: "digits_value (add_leading_zeros (int n) k) = Some n"
  by (simp add: digits_value_def add_leading_zeros_def Let_def digits_acc_zeros
      digits_acc_string_of_nat)

lemma length_string_of_nat: "n < 10 ^ k \<Longrightarrow> 0 < k \<Longrightarrow> length (string_of_nat n) \<le> k"
proof (induction n arbitrary: k rule: string_of_nat.induct)
  case (1 n)
  show ?case
  proof (cases "n < 10")
    case False
    then obtain j where k: "k = Suc j" using 1 by (cases k) auto
    have "n div 10 < 10 ^ j" using 1(2) k by (simp add: less_mult_imp_div_less mult.commute)
    moreover have "0 < j" using False 1(2) k by (cases j) auto
    ultimately show ?thesis using 1(1) [OF False] False k by simp
  qed (use 1 in simp)
qed

lemma length_add_leading_zeros:
  "n < 10 ^ k \<Longrightarrow> 0 < k \<Longrightarrow> length (add_leading_zeros (int n) k) = k"
  using length_string_of_nat [of n k] by (simp add: add_leading_zeros_def Let_def)

lemma iso_fields_layout:
  assumes "length A = 4" "length B = 2" "length C = 2" "length D = 2" "length E = 2"
    "length F = 2"
    and "digits_value A = Some y" "digits_value B = Some mo" "digits_value C = Some d"
    "digits_value D = Some h" "digits_value E = Some mi" "digits_value F = Some sec"
  shows "iso_fields (A @ ''-'' @ B @ ''-'' @ C @ ''T'' @ D @ '':'' @ E @ '':'' @ F) =
         Some (y, mo, d, h, mi, sec, 0)"
  using assms by (simp add: iso_fields_def char_at_def field_at_def nth_append)

lemma time_of_day_split:
  fixes x :: int
  assumes "0 \<le> x"
  shows "((x div 3600000 * 60 + x div 60000 mod 60) * 60 + x div 1000 mod 60) * 1000 = x - x mod 1000"
proof -
  define q where "q = x div 1000"
  have m: "x div 60000 = q div 60" unfolding q_def
    using zdiv_zmult2_eq [of 1000 x 60] by simp
  have "x div 3600000 = x div (1000 * 3600)" by simp
  also have "\<dots> = q div 3600" unfolding q_def by (rule zdiv_zmult2_eq) simp
  also have "\<dots> = q div (60 * 60)" by simp
  also have "\<dots> = q div 60 div 60" by (rule zdiv_zmult2_eq) simp
  finally have h: "x div 3600000 = q div 60 div 60" .
  have "(q div 60 div 60 * 60 + q div 60 mod 60) = q div 60" by simp
  moreover have "q div 60 * 60 + q mod 60 = q" by simp
  moreover have "q * 1000 = x - x mod 1000" unfolding q_def by (simp add: minus_mod_eq_mult_div)
  ultimately show ?thesis unfolding m h by (simp add: q_def)
qed

lemma day_within_year_bounds:
  "int (day_within_year t) < days_in_year (year_from_time t) \<and>
   day_of_time t = day_from_year (year_from_time t) + int (day_within_year t)"
  using year_from_day_spec [of "day_of_time t"]
  by (simp add: day_within_year_def year_from_time_def day_from_year_succ)

lemma date_fields_bounds:
  "1 \<le> month_from_time t \<and> month_from_time t \<le> 12 \<and>
   1 \<le> date_from_time t \<and> date_from_time t \<le> days_in_month (year_from_time t) (month_from_time t) \<and>
   make_day (year_from_time t) (month_from_time t) (date_from_time t) = day_of_time t"
  using month_in_year_spec [OF conjunct1 [OF day_within_year_bounds [of t]]]
    conjunct2 [OF day_within_year_bounds [of t]]
  by (auto simp: month_from_time_def date_from_time_def make_day_def)

lemma time_fields_bounds:
  "hour_from_time t < 24 \<and> min_from_time t < 60 \<and> sec_from_time t < 60 \<and>
   make_time (hour_from_time t) (min_from_time t) (sec_from_time t) 0 =
   time_in_day t - time_in_day t mod 1000"
proof -
  define x where "x = time_in_day t"
  have r: "0 \<le> x" "x < 86400000" by (simp_all add: x_def time_in_day_def ms_per_day_def)
  define hh where "hh = x div 3600000"
  define mm where "mm = x div 60000 mod 60"
  define ss where "ss = x div 1000 mod 60"
  have nn: "0 \<le> hh" "0 \<le> mm" "0 \<le> ss" "mm < 60" "ss < 60"
    using r by (simp_all add: hh_def mm_def ss_def pos_imp_zdiv_nonneg_iff)
  have "hh < 24" using r by (simp add: hh_def div_less_iff_less_mult)
  moreover have "make_time (nat hh) (nat mm) (nat ss) 0 = ((hh * 60 + mm) * 60 + ss) * 1000"
    using nn by (simp add: make_time_def)
  moreover have "((hh * 60 + mm) * 60 + ss) * 1000 = x - x mod 1000"
    unfolding hh_def mm_def ss_def by (rule time_of_day_split) (rule r(1))
  moreover have "nat hh < 24" "nat mm < 60" "nat ss < 60"
    using \<open>hh < 24\<close> nn by arith+
  ultimately show ?thesis
    by (simp add: hour_from_time_def min_from_time_def sec_from_time_def
        x_def [symmetric] hh_def [symmetric] mm_def [symmetric] ss_def [symmetric])
qed

lemma time_in_day_mod_1000: "time_in_day t mod 1000 = t mod 1000"
proof -
  have "(1000::int) dvd 86400000" by simp
  then show ?thesis by (simp add: time_in_day_def ms_per_day_def mod_mod_cancel)
qed

lemma digits_acc_snoc:
  "digits_acc a (xs @ [c]) = Some v \<longleftrightarrow>
   (\<exists>u e. digits_acc a xs = Some u \<and> digit_value c = Some e \<and> v = 10 * u + e)"
  by (auto simp: digits_acc_append split: option.splits)

lemma digit_value_lt: "digit_value c = Some e \<Longrightarrow> e < 10"
  by (auto simp: digit_value_def Let_def split: if_splits)

lemma digit_value_inj: "digit_value c = Some e \<Longrightarrow> digit_value c' = Some e \<Longrightarrow> c = c'"
  by (auto simp: digit_value_def Let_def split: if_splits)
    (metis char_of_nat of_char_mod_256 char_of_char le_add_diff_inverse2)

lemma digits_acc_unique:
  "length xs = length ys \<Longrightarrow> digits_acc a xs = Some v \<Longrightarrow> digits_acc a ys = Some v \<Longrightarrow> xs = ys"
proof (induction xs arbitrary: ys v rule: rev_induct)
  case Nil
  then show ?case by simp
next
  case (snoc c xs)
  obtain ys' c' where ys: "ys = ys' @ [c']"
    using snoc.prems(1) by (cases ys rule: rev_exhaust) auto
  obtain u e where 1: "digits_acc a xs = Some u" "digit_value c = Some e" "v = 10 * u + e"
    using snoc.prems(2) by (auto simp: digits_acc_snoc)
  obtain u' e' where 2: "digits_acc a ys' = Some u'" "digit_value c' = Some e'" "v = 10 * u' + e'"
    using snoc.prems(3) ys by (auto simp: digits_acc_snoc)
  have "e < 10" "e' < 10" using 1(2) 2(2) by (simp_all add: digit_value_lt)
  then have "e = e'" "u = u'" using 1(3) 2(3) by arith+
  then show ?case
    using snoc.IH [of ys' u] snoc.prems(1) ys 1 2 digit_value_inj by auto
qed

lemma digits_acc_bound: "digits_acc 0 xs = Some v \<Longrightarrow> v < 10 ^ length xs"
proof (induction xs arbitrary: v rule: rev_induct)
  case (snoc c xs)
  then obtain u e where "digits_acc 0 xs = Some u" "digit_value c = Some e" "v = 10 * u + e"
    by (auto simp: digits_acc_snoc)
  moreover have "e < 10" using calculation(2) by (rule digit_value_lt)
  ultimately show ?case using snoc.IH by fastforce
qed simp

lemma leading_zeros_canonical:
  assumes "length A = k" and "digits_value A = Some n"
  shows "add_leading_zeros (int n) k = A"
proof -
  have ne: "A \<noteq> []" and acc: "digits_acc 0 A = Some n"
    using assms(2) by (auto simp: digits_value_def split: if_splits)
  have "n < 10 ^ k" using digits_acc_bound [OF acc] assms(1) by simp
  moreover have "0 < k" using ne assms(1) by (metis length_greater_0_conv)
  ultimately have "length (add_leading_zeros (int n) k) = length A"
    using assms(1) by (simp add: length_add_leading_zeros)
  moreover have "digits_acc 0 (add_leading_zeros (int n) k) = Some n"
    using digits_value_leading_zeros [of n k] by (simp add: digits_value_def split: if_splits)
  ultimately show ?thesis using acc by (rule digits_acc_unique)
qed

lemma days_before_month_Suc:
  "1 \<le> m \<Longrightarrow> days_before_month y (Suc m) = days_before_month y m + days_in_month y m"
  by (simp add: days_before_month_def)

lemma days_before_month_mono:
  assumes "1 \<le> m" and "m \<le> m'"
  shows "days_before_month y m \<le> days_before_month y m'"
  using assms(2)
proof (induction m' rule: dec_induct)
  case (step k)
  then show ?case using assms(1) by (simp add: days_before_month_Suc)
qed simp

lemma days_before_month_end:
  "int (days_before_month y 12 + days_in_month y 12) = days_in_year y"
  by (simp add: days_before_month_table days_in_month_def days_in_year_def)

lemma month_in_year_unique:
  assumes "1 \<le> m" "m \<le> 12" "days_before_month y m \<le> w"
    "w < days_before_month y m + days_in_month y m"
  shows "month_in_year y w = m"
proof -
  have "days_before_month y m + days_in_month y m \<le> days_before_month y 12 + days_in_month y 12"
  proof (cases "m = 12")
    case False
    then have "days_before_month y (Suc m) \<le> days_before_month y 12"
      using assms(1,2) by (intro days_before_month_mono) auto
    then show ?thesis using assms(1) by (simp add: days_before_month_Suc)
  qed simp
  then have "int w < days_in_year y" using assms(4) days_before_month_end [of y] by linarith
  note sp = month_in_year_spec [OF this]
  let ?k = "month_in_year y w"
  show ?thesis
  proof (rule ccontr)
    assume "?k \<noteq> m"
    then consider "?k < m" | "m < ?k" by linarith
    then show False
    proof cases
      case 1
      then have "days_before_month y (Suc ?k) \<le> days_before_month y m"
        using sp by (intro days_before_month_mono) auto
      then show False using sp assms(3) by (simp add: days_before_month_Suc)
    next
      case 2
      then have "days_before_month y (Suc m) \<le> days_before_month y ?k"
        using assms(1) by (intro days_before_month_mono) auto
      then show False using sp assms(1,4) by (simp add: days_before_month_Suc)
    qed
  qed
qed

lemma div_mod_affine:
  fixes a b r :: int
  assumes "0 \<le> r" and "r < b"
  shows "(a * b + r) div b = a" "(a * b + r) mod b = r"
proof -
  have "b \<noteq> 0" using assms by simp
  then show "(a * b + r) div b = a" using assms
    by (simp add: div_pos_pos_trivial add.commute [of "a * b"])
  show "(a * b + r) mod b = r" using assms
    by (simp add: mod_pos_pos_trivial add.commute [of "a * b"])
qed

lemma time_value_fields:
  assumes "1 \<le> mo" "mo \<le> 12" "1 \<le> d" "d \<le> days_in_month y mo" "h < 24" "mi < 60"
    "sec < 60" "ms < 1000"
  shows "year_from_time (time_value y mo d h mi sec ms) = y \<and>
         month_from_time (time_value y mo d h mi sec ms) = mo \<and>
         date_from_time (time_value y mo d h mi sec ms) = d \<and>
         hour_from_time (time_value y mo d h mi sec ms) = h \<and>
         min_from_time (time_value y mo d h mi sec ms) = mi \<and>
         sec_from_time (time_value y mo d h mi sec ms) = sec"
proof -
  define t where "t = time_value y mo d h mi sec ms"
  define mt where "mt = make_time h mi sec ms"
  define w where "w = days_before_month y mo + d - 1"
  have mt_eq: "mt = ((int h * 60 + int mi) * 60 + int sec) * 1000 + int ms"
    by (simp add: mt_def make_time_def)
  have mt0: "0 \<le> mt" unfolding mt_eq by simp
  have "int h \<le> 23" "int mi \<le> 59" "int sec \<le> 59" "int ms \<le> 999" using assms(5-8) by simp_all
  then have "mt < ms_per_day" unfolding mt_eq ms_per_day_def by (simp add: algebra_simps)
  note mt_bounds = mt0 this
  have day: "day_of_time t = make_day y mo d" and tid: "time_in_day t = mt"
    using div_mod_affine [OF mt_bounds] by (simp_all add: t_def time_value_def mt_def [symmetric]
        day_of_time_def time_in_day_def)
  have "days_before_month y mo + days_in_month y mo \<le> days_before_month y 12 + days_in_month y 12"
  proof (cases "mo = 12")
    case False
    then have "days_before_month y (Suc mo) \<le> days_before_month y 12"
      using assms(1,2) by (intro days_before_month_mono) auto
    then show ?thesis using assms(1) by (simp add: days_before_month_Suc)
  qed simp
  then have w_lt: "int w < days_in_year y"
    using days_before_month_end [of y] assms(3,4) unfolding w_def by linarith
  have md: "make_day y mo d = day_from_year y + int w"
    using assms(3) by (simp add: make_day_def w_def)
  have year: "year_from_time t = y"
    unfolding year_from_time_def day md
    by (rule year_from_day_unique) (use w_lt in \<open>simp_all add: day_from_year_succ\<close>)
  have dwy: "day_within_year t = w" by (simp add: day_within_year_def year day md)
  have month: "month_from_time t = mo"
    unfolding month_from_time_def year dwy
    by (rule month_in_year_unique) (use assms in \<open>simp_all add: w_def\<close>)
  have date: "date_from_time t = d"
    using assms(3) by (simp add: date_from_time_def year dwy month w_def)
  have hour: "mt div 3600000 = int h"
    using div_mod_affine(1) [of "(int mi * 60 + int sec) * 1000 + int ms" 3600000 "int h"] assms(6-8)
    unfolding mt_eq by (simp add: algebra_simps)
  have minute: "mt div 60000 = int h * 60 + int mi"
    using div_mod_affine(1) [of "int sec * 1000 + int ms" 60000 "int h * 60 + int mi"] assms(7,8)
    unfolding mt_eq by (simp add: algebra_simps)
  have second: "mt div 1000 = (int h * 60 + int mi) * 60 + int sec"
    using div_mod_affine(1) [of "int ms" 1000 "(int h * 60 + int mi) * 60 + int sec"] assms(8)
    unfolding mt_eq by (simp add: algebra_simps)
  have "min_from_time t = mi"
    using div_mod_affine(2) [of "int mi" 60 "int h"] assms(6)
    by (simp add: min_from_time_def tid minute)
  moreover have "sec_from_time t = sec"
    using div_mod_affine(2) [of "int sec" 60 "int h * 60 + int mi"] assms(7)
    by (simp add: sec_from_time_def tid second)
  ultimately show ?thesis
    using year month date by (simp add: t_def [symmetric] hour_from_time_def tid hour)
qed

lemma iso_fields_19:
  assumes "length s = 19" and "iso_fields s = Some (y, mo, d, h, mi, sec, ms)"
  shows "s ! 4 = CHR ''-'' \<and> s ! 7 = CHR ''-'' \<and> s ! 10 = CHR ''T'' \<and> s ! 13 = CHR '':'' \<and>
         s ! 16 = CHR '':'' \<and> ms = 0 \<and>
         digits_value (take 4 s) = Some y \<and> digits_value (take 2 (drop 5 s)) = Some mo \<and>
         digits_value (take 2 (drop 8 s)) = Some d \<and> digits_value (take 2 (drop 11 s)) = Some h \<and>
         digits_value (take 2 (drop 14 s)) = Some mi \<and> digits_value (take 2 (drop 17 s)) = Some sec"
  using assms by (auto simp: iso_fields_def char_at_def field_at_def Let_def
      split: if_splits option.splits)

lemma drop_sep:
  assumes "i < length s" and "s ! i = c"
  shows "drop i s = c # take k (drop (Suc i) s) @ drop (Suc i + k) s"
proof -
  have "drop i s = s ! i # drop (Suc i) s" using assms(1) by (rule Cons_nth_drop_Suc [symmetric])
  also have "drop (Suc i) s = take k (drop (Suc i) s) @ drop k (drop (Suc i) s)"
    by (rule append_take_drop_id [symmetric])
  finally show ?thesis using assms(2) by (simp add: add.commute)
qed

lemma iso_split_19:
  assumes "length s = 19" and "s ! 4 = CHR ''-''" "s ! 7 = CHR ''-''" "s ! 10 = CHR ''T''"
    "s ! 13 = CHR '':''" "s ! 16 = CHR '':''"
  shows "s = take 4 s @ ''-'' @ take 2 (drop 5 s) @ ''-'' @ take 2 (drop 8 s) @ ''T'' @
             take 2 (drop 11 s) @ '':'' @ take 2 (drop 14 s) @ '':'' @ take 2 (drop 17 s)"
proof -
  have d4: "drop 4 s = CHR ''-'' # take 2 (drop 5 s) @ drop 7 s"
    using drop_sep [of 4 s _ 2] assms by simp
  have d7: "drop 7 s = CHR ''-'' # take 2 (drop 8 s) @ drop 10 s"
    using drop_sep [of 7 s _ 2] assms by simp
  have d10: "drop 10 s = CHR ''T'' # take 2 (drop 11 s) @ drop 13 s"
    using drop_sep [of 10 s _ 2] assms by simp
  have d13: "drop 13 s = CHR '':'' # take 2 (drop 14 s) @ drop 16 s"
    using drop_sep [of 13 s _ 2] assms by simp
  have d16: "drop 16 s = CHR '':'' # take 2 (drop 17 s)"
    using drop_sep [of 16 s _ 2] assms by simp
  have "s = take 4 s @ drop 4 s" by simp
  also note d4
  also note d7
  also note d10
  also note d13
  also note d16
  finally show ?thesis by simp
qed

section \<open>YearFromTime and the round trips with new Date\<close>

text \<open>
  The year search computes ECMAScript's \<open>YearFromTime\<close>; formatting then parsing loses
  only the milliseconds (years 1 to 9999, the years of the four-digit field); parsing
  then formatting gives back every canonical string with a year from 1 and an hour
  below 24.
\<close>

lemma year_from_day_iff:
  "year_from_day d = y \<longleftrightarrow> day_from_year y \<le> d \<and> d < day_from_year (y + 1)"
  using year_from_day_spec [of d] year_from_day_unique [of y d] by auto

lemma format_then_parse:
  assumes "1 \<le> year_from_time t" and "year_from_time t \<le> 9999"
  shows "js_new_date (format_time t) = Some (t - t mod 1000)"
proof -
  define Y where "Y = nat (year_from_time t)"
  have Y: "year_from_time t = int Y" "Y < 10000" using assms by (simp_all add: Y_def)
  have fy: "format_year (year_from_time t) = add_leading_zeros (int Y) 4"
    using assms by (simp add: format_year_def Y)
  note db = date_fields_bounds [of t] and tb = time_fields_bounds [of t]
  have dm: "days_in_month y m \<le> 31" for y m by (simp add: days_in_month_def)
  have iso: "iso_fields (format_time t) =
    Some (Y, month_from_time t, date_from_time t, hour_from_time t, min_from_time t,
          sec_from_time t, 0)"
    unfolding format_time_def fy
  proof (rule iso_fields_layout)
    show "length (add_leading_zeros (int Y) 4) = 4" using Y by (simp add: length_add_leading_zeros)
    show "length (add_leading_zeros (int (month_from_time t)) 2) = 2"
      using db by (simp add: length_add_leading_zeros)
    show "length (add_leading_zeros (int (date_from_time t)) 2) = 2"
      using db dm [of "year_from_time t" "month_from_time t"]
      by (simp add: length_add_leading_zeros)
    show "length (add_leading_zeros (int (hour_from_time t)) 2) = 2"
      using tb by (simp add: length_add_leading_zeros)
    show "length (add_leading_zeros (int (min_from_time t)) 2) = 2"
      using tb by (simp add: length_add_leading_zeros)
    show "length (add_leading_zeros (int (sec_from_time t)) 2) = 2"
      using tb by (simp add: length_add_leading_zeros)
  qed (simp_all add: digits_value_leading_zeros)
  have valid: "iso_fields_valid (Y, month_from_time t, date_from_time t, hour_from_time t,
                 min_from_time t, sec_from_time t, 0)"
    using db tb by (simp add: iso_fields_valid_def Y)
  have "time_value (int Y) (month_from_time t) (date_from_time t) (hour_from_time t)
          (min_from_time t) (sec_from_time t) 0 =
        day_of_time t * ms_per_day + (time_in_day t - t mod 1000)"
    using db tb by (simp add: time_value_def Y(1) [symmetric] time_in_day_mod_1000)
  also have "\<dots> = t - t mod 1000"
    by (simp add: day_of_time_def time_in_day_def)
  finally show ?thesis using iso valid by (simp add: js_new_date_def)
qed

lemma parse_then_format:
  assumes "length s = 19" and "iso_fields s = Some (y, mo, d, h, mi, sec, ms)"
    and "iso_fields_valid (y, mo, d, h, mi, sec, ms)" and "1 \<le> y" and "h < 24"
  shows "format_date_time (js_new_date s) = Some s"
proof -
  note f = iso_fields_19 [OF assms(1,2)]
  have v: "1 \<le> mo" "mo \<le> 12" "1 \<le> d" "d \<le> days_in_month (int y) mo" "mi < 60" "sec < 60"
    using assms(3) by (simp_all add: iso_fields_valid_def)
  define t where "t = time_value (int y) mo d h mi sec 0"
  have new: "js_new_date s = Some t"
    using assms(2,3) f by (simp add: js_new_date_def t_def)
  note tf = time_value_fields [OF v(1-4) assms(5) v(5,6), of 0, folded t_def]
  have fy: "format_year (int y) = add_leading_zeros (int y) 4"
    using assms(4) by (simp add: format_year_def)
  have "format_time t = s"
    unfolding format_time_def
    using tf fy f leading_zeros_canonical [of "take 4 s" 4 y]
      leading_zeros_canonical [of "take 2 (drop 5 s)" 2 mo]
      leading_zeros_canonical [of "take 2 (drop 8 s)" 2 d]
      leading_zeros_canonical [of "take 2 (drop 11 s)" 2 h]
      leading_zeros_canonical [of "take 2 (drop 14 s)" 2 mi]
      leading_zeros_canonical [of "take 2 (drop 17 s)" 2 sec]
      iso_split_19 [OF assms(1)] assms(1)
    by simp
  then show ?thesis by (simp add: format_date_time_def new)
qed

section \<open>Properties of the date decomposition\<close>

text \<open>
  \<open>YearFromTime\<close>'s search terminates on every input: both loops' domain
  predicates hold everywhere (the measure is the number of days between the candidate
  year and the day). It returns the year that contains the day, and it moves at most
  \<open>|d| div 365 + 1\<close> years away from 1970, which bounds the number of iterations.
\<close>

lemma year_search_terminates:
  "year_up_dom (y, d) \<and> year_down_dom (y, d) \<and>
   day_from_year (year_from_day d) \<le> d \<and> d < day_from_year (year_from_day d + 1) \<and>
   \<bar>year_from_day d - 1970\<bar> \<le> \<bar>d\<bar> div 365 + 1"
  using year_up_total year_down_total year_from_day_spec [of d] year_from_day_distance [of d]
  by simp

end
