(* ===== verification/JsNumber.thy ===== *)
theory JsNumber
  imports Prelude
begin

text \<open>
  \<open>String.prototype.trim\<close> and \<open>Number(string)\<close>, the conversions the expense form
  applies to what the user typed. \<open>js_number\<close> follows ECMAScript's
  \<open>StringToNumber\<close>: white space around the literal is ignored, the empty string is
  \<open>0\<close>, a literal is a signed decimal with optional fraction and exponent, a signed
  \<open>Infinity\<close>, or an unsigned binary, octal or hexadecimal integer; anything else is
  \<open>NaN\<close>. The value is exact (the model's numbers are rationals), so a literal too
  large for a double is a finite number here. White space is the ASCII part of
  ECMAScript's \<open>WhiteSpace\<close> and \<open>LineTerminator\<close>: tab, line feed, vertical tab, form
  feed, carriage return and space.
\<close>

section \<open>Characters\<close>

definition js_is_space :: "char \<Rightarrow> bool" where
  "js_is_space c \<longleftrightarrow> of_char c \<in> {9, 10, 11, 12, 13, 32 :: nat}"

definition js_is_digit :: "char \<Rightarrow> bool" where
  "js_is_digit c \<longleftrightarrow> (let n = (of_char c :: nat) in 48 \<le> n \<and> n \<le> 57)"

text \<open>The value of a digit in base 2, 8, 10 or 16 (letters in either case).\<close>

definition radix_digit :: "nat \<Rightarrow> char \<Rightarrow> nat option" where
  "radix_digit b c =
     (let n = (of_char c :: nat);
          v = (if 48 \<le> n \<and> n \<le> 57 then Some (n - 48)
               else if 97 \<le> n \<and> n \<le> 102 then Some (n - 87)
               else if 65 \<le> n \<and> n \<le> 70 then Some (n - 55) else None)
      in case v of Some d \<Rightarrow> if d < b then Some d else None | None \<Rightarrow> None)"

text \<open>The value of a digit string in base \<open>b\<close>, most significant digit first.\<close>

definition radix_value :: "nat \<Rightarrow> nat list \<Rightarrow> nat" where
  "radix_value b ds = foldl (\<lambda>acc d. b * acc + d) 0 ds"

definition radix_digits :: "nat \<Rightarrow> string \<Rightarrow> nat option" where
  "radix_digits b s =
     (if s = [] then None
      else if list_all (\<lambda>c. radix_digit b c \<noteq> None) s
      then Some (radix_value b (map (\<lambda>c. the (radix_digit b c)) s))
      else None)"

section \<open>String.prototype.trim\<close>

definition js_trim :: "string \<Rightarrow> string" where
  "js_trim s = rev (dropWhile js_is_space (rev (dropWhile js_is_space s)))"

section \<open>Number(string)\<close>

definition pow10 :: "int \<Rightarrow> rat" where
  "pow10 e = (if 0 \<le> e then 10 ^ nat e else 1 / 10 ^ nat (- e))"

text \<open>\<open>ExponentPart\<close> after the \<open>e\<close>: an optional sign and at least one digit.\<close>

definition parse_exponent :: "string \<Rightarrow> int option" where
  "parse_exponent s =
     (case s of
        c # r \<Rightarrow>
          if c = CHR ''+'' then map_option int (radix_digits 10 r)
          else if c = CHR ''-'' then map_option (\<lambda>n. - int n) (radix_digits 10 r)
          else map_option int (radix_digits 10 s)
      | [] \<Rightarrow> None)"

text \<open>
  \<open>StrUnsignedDecimalLiteral\<close> other than \<open>Infinity\<close>: digits, an optional point
  with optional digits, at least one digit in all, then an optional exponent.
\<close>

definition parse_unsigned_decimal :: "string \<Rightarrow> rat option" where
  "parse_unsigned_decimal s =
     (let ip = takeWhile js_is_digit s; r1 = dropWhile js_is_digit s;
          (fp, r2) = (case r1 of
                        c # r \<Rightarrow>
                          if c = CHR ''.'' then (takeWhile js_is_digit r, dropWhile js_is_digit r)
                          else ([], r1)
                      | [] \<Rightarrow> ([], []));
          ex = (case r2 of
                  [] \<Rightarrow> Some 0
                | c # r \<Rightarrow> if c = CHR ''e'' \<or> c = CHR ''E'' then parse_exponent r else None)
      in if ip = [] \<and> fp = [] then None
         else case (radix_digits 10 (ip @ fp), ex) of
                (Some m, Some e) \<Rightarrow> Some (of_nat m / 10 ^ length fp * pow10 e)
              | _ \<Rightarrow> None)"

definition radix_of_prefix :: "char \<Rightarrow> nat option" where
  "radix_of_prefix c =
     (if c = CHR ''x'' \<or> c = CHR ''X'' then Some 16
      else if c = CHR ''o'' \<or> c = CHR ''O'' then Some 8
      else if c = CHR ''b'' \<or> c = CHR ''B'' then Some 2 else None)"

text \<open>A signed decimal literal or a signed \<open>Infinity\<close>.\<close>

definition js_signed_decimal :: "string \<Rightarrow> js_num" where
  "js_signed_decimal t =
     (let (neg, u) = (case t of
                        c # r \<Rightarrow>
                          if c = CHR ''-'' then (True, r)
                          else if c = CHR ''+'' then (False, r) else (False, t)
                      | [] \<Rightarrow> (False, []))
      in if u = ''Infinity'' then (if neg then JsNegInf else JsPosInf)
         else case parse_unsigned_decimal u of
                Some q \<Rightarrow> JsNum (if neg then - q else q)
              | None \<Rightarrow> JsNaN)"

definition js_number :: "string \<Rightarrow> js_num" where
  "js_number s =
     (let t = js_trim s
      in case t of
           [] \<Rightarrow> JsNum 0
         | c # r \<Rightarrow>
             (case r of
                p # ds \<Rightarrow>
                  (if c = CHR ''0'' \<and> radix_of_prefix p \<noteq> None
                   then (case radix_digits (the (radix_of_prefix p)) ds of
                           Some n \<Rightarrow> JsNum (of_nat n)
                         | None \<Rightarrow> JsNaN)
                   else js_signed_decimal t)
              | [] \<Rightarrow> js_signed_decimal t))"

text \<open>\<open>isNaN(x)\<close> and \<open>x <= 0\<close> on a number (a comparison with \<open>NaN\<close> is false).\<close>

definition js_is_nan :: "js_num \<Rightarrow> bool" where
  "js_is_nan x \<longleftrightarrow> x = JsNaN"

fun js_le_zero :: "js_num \<Rightarrow> bool" where
  "js_le_zero (JsNum r) = (r \<le> 0)"
| "js_le_zero JsNaN = False"
| "js_le_zero JsPosInf = False"
| "js_le_zero JsNegInf = True"

text \<open>The unfolding rules that evaluate \<open>Number\<close> and \<open>trim\<close> on a concrete string.\<close>

lemmas js_number_eval =
  js_number_def js_trim_def js_is_space_def js_signed_decimal_def parse_unsigned_decimal_def
  parse_exponent_def radix_digits_def radix_digit_def radix_value_def radix_of_prefix_def
  js_is_digit_def pow10_def Let_def

section \<open>Lemmas\<close>

lemma digit_char_props:
  assumes "k < 10"
  shows "js_is_digit (char_of (48 + k))" "radix_digit 10 (char_of (48 + k)) = Some k"
    "\<not> js_is_space (char_of (48 + k))"
  using assms by (simp_all add: js_is_digit_def radix_digit_def js_is_space_def)

lemma string_of_nat_digits: "list_all js_is_digit (string_of_nat n)"
proof (induction n rule: string_of_nat.induct)
  case (1 n)
  then show ?case by (cases "n < 10") (simp_all add: digit_char_props)
qed

lemma radix_value_snoc: "radix_value b (xs @ [d]) = b * radix_value b xs + d"
  by (simp add: radix_value_def)

lemma radix_digits_string_of_nat: "radix_digits 10 (string_of_nat n) = Some n"
proof (induction n rule: string_of_nat.induct)
  case (1 n)
  show ?case
  proof (cases "n < 10")
    case True
    then show ?thesis by (simp add: radix_digits_def digit_char_props radix_value_def)
  next
    case False
    then have "radix_digits 10 (string_of_nat (n div 10)) = Some (n div 10)" using 1 by simp
    then have "list_all (\<lambda>c. radix_digit 10 c \<noteq> None) (string_of_nat (n div 10))" and
      "radix_value 10 (map (\<lambda>c. the (radix_digit 10 c)) (string_of_nat (n div 10))) = n div 10"
      by (simp_all add: radix_digits_def split: if_splits)
    with False show ?thesis
      by (simp add: radix_digits_def digit_char_props radix_value_snoc)
  qed
qed

lemma js_is_digit_not_space: "js_is_digit c \<Longrightarrow> \<not> js_is_space c"
  by (auto simp: js_is_digit_def js_is_space_def)

lemma js_trim_id:
  assumes "\<not> js_is_space (hd xs)" and "\<not> js_is_space (last xs)"
  shows "js_trim xs = xs"
proof -
  have "dropWhile js_is_space xs = xs"
    using assms(1) by (cases xs) auto
  moreover have "dropWhile js_is_space (rev xs) = rev xs"
    using assms(2) by (cases "rev xs") (auto dest: arg_cong[of _ _ last] simp: last_rev)
  ultimately show ?thesis by (simp add: js_trim_def)
qed

lemma js_trim_digits: "list_all js_is_digit xs \<Longrightarrow> js_trim xs = xs"
  by (cases "xs = []")
    (simp add: js_trim_def, auto intro!: js_trim_id js_is_digit_not_space simp: list_all_iff)

lemma dropWhile_all: "list_all P xs \<Longrightarrow> dropWhile P xs = []"
  by (induction xs) auto

lemma takeWhile_all: "list_all P xs \<Longrightarrow> takeWhile P xs = xs"
  by (induction xs) auto

lemma radix_of_prefix_digit: "js_is_digit c \<Longrightarrow> radix_of_prefix c = None"
  by (auto simp: js_is_digit_def radix_of_prefix_def)

lemma parse_unsigned_decimal_digits:
  assumes "list_all js_is_digit xs" and "radix_digits 10 xs = Some m"
  shows "parse_unsigned_decimal xs = Some (of_nat m)"
proof -
  have "xs \<noteq> []" using assms(2) by (auto simp: radix_digits_def)
  with assms show ?thesis
    by (simp add: parse_unsigned_decimal_def takeWhile_all dropWhile_all pow10_def)
qed

lemma js_signed_decimal_digits:
  assumes "list_all js_is_digit xs" and "radix_digits 10 xs = Some m"
  shows "js_signed_decimal xs = JsNum (of_nat m)" "js_signed_decimal (CHR ''-'' # xs) = JsNum (- of_nat m)"
proof -
  have ne: "xs \<noteq> []" using assms(2) by (auto simp: radix_digits_def)
  have inf: "xs \<noteq> ''Infinity''" using assms(1) by (auto simp: js_is_digit_def)
  have hd: "hd xs \<noteq> CHR ''-'' \<and> hd xs \<noteq> CHR ''+''"
    using assms(1) ne by (cases xs) (auto simp: js_is_digit_def)
  show "js_signed_decimal xs = JsNum (of_nat m)"
    using ne inf hd parse_unsigned_decimal_digits [OF assms]
    by (cases xs) (auto simp: js_signed_decimal_def)
  show "js_signed_decimal (CHR ''-'' # xs) = JsNum (- of_nat m)"
    using inf parse_unsigned_decimal_digits [OF assms] by (simp add: js_signed_decimal_def)
qed

lemma js_number_string_of_nat: "js_number (string_of_nat n) = JsNum (of_nat n)"
proof -
  obtain c r where cr: "string_of_nat n = c # r" by (cases "string_of_nat n") auto
  have d: "list_all js_is_digit (c # r)" using string_of_nat_digits [of n] cr by simp
  have "js_signed_decimal (c # r) = JsNum (of_nat n)"
    using js_signed_decimal_digits(1) [OF d] radix_digits_string_of_nat [of n] cr by simp
  moreover have "r \<noteq> [] \<Longrightarrow> radix_of_prefix (hd r) = None"
    using d by (cases r) (auto intro: radix_of_prefix_digit)
  ultimately show ?thesis
    using js_trim_digits [OF d] cr by (cases r) (auto simp: js_number_def)
qed

lemma js_number_string_of_int: "js_number (string_of_int i) = JsNum (of_int i)"
proof (cases "i < 0")
  case True
  obtain c r where cr: "string_of_nat (nat (- i)) = c # r" by (cases "string_of_nat (nat (- i))") auto
  have d: "list_all js_is_digit (c # r)" using string_of_nat_digits [of "nat (- i)"] cr by simp
  have "js_signed_decimal (CHR ''-'' # c # r) = JsNum (of_int i)"
    using js_signed_decimal_digits(2) [OF d] radix_digits_string_of_nat [of "nat (- i)"] cr True
    by simp
  moreover have "js_trim (CHR ''-'' # c # r) = CHR ''-'' # c # r"
  proof (rule js_trim_id)
    show "\<not> js_is_space (hd (CHR ''-'' # c # r))" by (simp add: js_is_space_def)
    have "last (c # r) \<in> set (c # r)" by (rule last_in_set) simp
    then show "\<not> js_is_space (last (CHR ''-'' # c # r))"
      using d by (simp add: list_all_iff js_is_digit_not_space)
  qed
  ultimately show ?thesis
    using True cr by (simp add: string_of_int_def js_number_def)
next
  case False
  then show ?thesis by (simp add: string_of_int_def js_number_string_of_nat)
qed

lemma dropWhile_hd_stop: "xs = [] \<or> \<not> P (hd xs) \<Longrightarrow> dropWhile P xs = xs"
  by (cases xs) auto

lemma hd_dropWhile_stop: "dropWhile P xs = [] \<or> \<not> P (hd (dropWhile P xs))"
  by (induction xs) auto

lemma js_trim_idem: "js_trim (js_trim s) = js_trim s"
proof -
  define A where "A = dropWhile js_is_space s"
  define B where "B = dropWhile js_is_space (rev A)"
  have B_stop: "dropWhile js_is_space B = B"
    unfolding B_def by (rule dropWhile_hd_stop) (rule hd_dropWhile_stop)
  have "dropWhile js_is_space (rev B) = rev B"
  proof (rule dropWhile_hd_stop)
    show "rev B = [] \<or> \<not> js_is_space (hd (rev B))"
    proof (cases "B = []")
      case False
      have "rev A = takeWhile js_is_space (rev A) @ B" by (simp add: B_def)
      then have "last B = last (rev A)" using False by (metis last_append)
      moreover have "A \<noteq> []" using False by (auto simp: B_def)
      ultimately have "hd (rev B) = hd A" by (simp add: hd_rev last_rev)
      moreover have "\<not> js_is_space (hd A)"
        using hd_dropWhile_stop [of js_is_space s] \<open>A \<noteq> []\<close> unfolding A_def by blast
      ultimately show ?thesis by simp
    qed simp
  qed
  then show ?thesis by (simp add: js_trim_def A_def [symmetric] B_def [symmetric] B_stop)
qed

lemma js_number_string_int: "js_number_string (of_int i) = string_of_int i"
  by (simp add: js_number_string_def string_of_int_def Let_def)

lemma js_le_zero_cases: "\<not> js_is_nan n \<Longrightarrow> \<not> js_le_zero n \<Longrightarrow> (\<exists>r. n = JsNum r \<and> 0 < r) \<or> n = JsPosInf"
  by (cases n) (auto simp: js_is_nan_def)

end
