(* ===== verification/JsFixed.thy ===== *)
theory JsFixed
  imports JsNumber
begin

text \<open>
  \<open>Number.prototype.toFixed\<close> after ECMAScript (21.1.3.3), with which every page
  prints amounts (\<open>toFixed(2)\<close>). A non-finite number prints as \<open>Number::toString\<close>
  does; a negative one gets a \<open>-\<close> and the rest is done on its magnitude; from
  \<open>10^21\<close> on the magnitude prints as \<open>toString\<close>; below, \<open>n\<close> is the integer with
  \<open>n / 10^f\<close> closest to the magnitude, the larger one on a tie, and its digits, padded
  with zeros to at least \<open>f + 1\<close> digits, get a point before the last \<open>f\<close>. More than
  100 fraction digits is a \<open>RangeError\<close> (\<open>None\<close>). The magnitude is an exact rational,
  so ties are decided on the exact value (a double such as \<open>1.005\<close> is slightly below
  its decimal text and rounds down in JavaScript). The lemmas show that \<open>Number\<close> reads
  the text back as \<open>n / 10^f\<close>, within half a unit of the last place of the number,
  and that it reads the text of \<open>toString\<close> (\<open>js_number_string\<close>) back exactly for every
  number with at most 20 decimals, the amounts of the form's edit round trip.
\<close>

definition fixed_digits :: "nat \<Rightarrow> nat \<Rightarrow> string" where
  "fixed_digits f n =
     (let m0 = string_of_nat n;
          m = (if length m0 \<le> f then replicate (f + 1 - length m0) CHR ''0'' @ m0 else m0);
          k = length m
      in if f = 0 then m else take (k - f) m @ ''.'' @ drop (k - f) m)"

definition fixed_round :: "nat \<Rightarrow> rat \<Rightarrow> nat" where
  "fixed_round f a = nat \<lfloor>a * 10 ^ f + 1 / 2\<rfloor>"

definition js_to_fixed :: "nat \<Rightarrow> js_num \<Rightarrow> string option" where
  "js_to_fixed f x =
     (if 100 < f then None
      else case x of
             JsNum r \<Rightarrow>
               (let s = (if r < 0 then ''-'' else []); a = \<bar>r\<bar>
                in Some (if 10 ^ 21 \<le> a then s @ js_number_string a
                         else s @ fixed_digits f (fixed_round f a)))
           | _ \<Rightarrow> Some (js_num_to_string x))"

section \<open>Lemmas\<close>

lemma radix_value_zeros: "radix_value b (replicate k 0 @ ds) = radix_value b ds"
proof -
  have "foldl (\<lambda>acc d. b * acc + d) 0 (replicate k 0) = 0" by (induction k) simp_all
  then show ?thesis by (simp add: radix_value_def)
qed

lemma foldl_radix_shift:
  "foldl (\<lambda>acc d. (b::nat) * acc + d) a ds = a * b ^ length ds + foldl (\<lambda>acc d. b * acc + d) 0 ds"
proof (induction ds arbitrary: a)
  case (Cons x xs)
  have "foldl (\<lambda>acc d. b * acc + d) a (x # xs) = (b * a + x) * b ^ length xs + foldl (\<lambda>acc d. b * acc + d) 0 xs"
    using Cons.IH [of "b * a + x"] by simp
  moreover have "foldl (\<lambda>acc d. b * acc + d) 0 (x # xs) = x * b ^ length xs + foldl (\<lambda>acc d. b * acc + d) 0 xs"
    using Cons.IH [of x] by simp
  ultimately show ?case by (simp add: add_mult_distrib)
qed simp

lemma radix_value_cons: "radix_value b (d # ds) = d * b ^ length ds + radix_value b ds"
  using foldl_radix_shift [of b d ds] by (simp add: radix_value_def)

lemma zero_digit: "js_is_digit CHR ''0''" "radix_digit 10 CHR ''0'' = Some 0"
  by (simp_all add: js_is_digit_def radix_digit_def)

lemma radix_digits_zeros:
  assumes "s \<noteq> []"
  shows "radix_digits 10 (replicate k CHR ''0'' @ s) = radix_digits 10 s"
  using assms radix_value_zeros [of 10 k] by (auto simp: radix_digits_def zero_digit list_all_iff set_replicate_conv_if)

lemma fixed_digits_split:
  assumes "0 < f"
  shows "\<exists>ip fp. fixed_digits f n = ip @ CHR ''.'' # fp \<and> ip \<noteq> [] \<and> length fp = f \<and>
           list_all js_is_digit (ip @ fp) \<and> radix_digits 10 (ip @ fp) = Some n"
proof -
  define m0 where "m0 = string_of_nat n"
  define m where "m = (if length m0 \<le> f then replicate (f + 1 - length m0) CHR ''0'' @ m0 else m0)"
  have len: "f + 1 \<le> length m" by (simp add: m_def)
  have dig: "list_all js_is_digit m"
    using string_of_nat_digits [of n] by (simp add: m_def m0_def zero_digit list_all_iff)
  have val: "radix_digits 10 m = Some n"
    by (simp add: m_def m0_def radix_digits_zeros radix_digits_string_of_nat)
  define ip where "ip = take (length m - f) m"
  define fp where "fp = drop (length m - f) m"
  have "fixed_digits f n = ip @ CHR ''.'' # fp"
    using assms by (simp add: fixed_digits_def Let_def ip_def fp_def m_def m0_def)
  moreover have "ip @ fp = m" by (simp add: ip_def fp_def)
  moreover have "ip \<noteq> []" "length fp = f" using len by (auto simp: ip_def fp_def)
  ultimately show ?thesis using dig val by metis
qed

lemma fixed_round_bounds:
  assumes "0 \<le> a"
  shows "a * 10 ^ f - 1 / 2 < of_nat (fixed_round f a) \<and> of_nat (fixed_round f a) \<le> a * 10 ^ f + 1 / 2"
proof -
  have "0 \<le> \<lfloor>a * 10 ^ f + 1 / 2\<rfloor>" using assms by simp
  then have "of_nat (fixed_round f a) = (of_int \<lfloor>a * 10 ^ f + 1 / 2\<rfloor> :: rat)"
    by (simp add: fixed_round_def)
  then show ?thesis by linarith
qed


lemma dot_not_digit: "\<not> js_is_digit CHR ''.''" "radix_of_prefix CHR ''.'' = None"
  by (simp_all add: js_is_digit_def radix_of_prefix_def)

lemma js_number_decimal_text:
  assumes "js_trim t = t" "t \<noteq> []" "\<forall>p\<in>set (tl t). radix_of_prefix p = None"
  shows "js_number t = js_signed_decimal t"
  using assms by (cases t rule: list.exhaust; case_tac "tl t") (auto simp: js_number_def Let_def)

lemma parse_fixed_text:
  assumes "ip \<noteq> []" "fp \<noteq> []" "list_all js_is_digit (ip @ fp)" "radix_digits 10 (ip @ fp) = Some n"
  shows "parse_unsigned_decimal (ip @ CHR ''.'' # fp) = Some (of_nat n / 10 ^ length fp)"
proof -
  have d: "\<forall>x\<in>set ip. js_is_digit x" "list_all js_is_digit fp" using assms(3) by (simp_all add: list_all_iff)
  have "takeWhile js_is_digit (ip @ CHR ''.'' # fp) = ip" "dropWhile js_is_digit (ip @ CHR ''.'' # fp) = CHR ''.'' # fp"
    using d(1) by (simp_all add: takeWhile_append2 dropWhile_append2 dot_not_digit)
  then show ?thesis
    using d(2) assms(1,4) by (simp add: parse_unsigned_decimal_def takeWhile_all dropWhile_all pow10_def)
qed

lemma js_number_point_text:
  assumes "ip \<noteq> []" "fp \<noteq> []" "list_all js_is_digit (ip @ fp)" "radix_digits 10 (ip @ fp) = Some n"
  shows "js_number (ip @ CHR ''.'' # fp) = JsNum (of_nat n / 10 ^ length fp) \<and>
         js_number (CHR ''-'' # ip @ CHR ''.'' # fp) = JsNum (- (of_nat n / 10 ^ length fp))"
proof -
  have p: "parse_unsigned_decimal (ip @ CHR ''.'' # fp) = Some (of_nat n / 10 ^ length fp)"
    using parse_fixed_text [OF assms] .
  have hd: "js_is_digit (hd ip)" "js_is_digit (last fp)"
    using assms(1-3) by (simp_all add: list_all_iff)
  have pre: "\<forall>c\<in>set (ip @ CHR ''.'' # fp). radix_of_prefix c = None"
    using assms(3) by (auto simp: list_all_iff radix_of_prefix_digit dot_not_digit)
  have nd: "hd ip \<noteq> CHR ''-''" "hd ip \<noteq> CHR ''+''" "hd ip \<noteq> CHR ''I''"
    using hd(1) by (auto simp: js_is_digit_def)
  have t1: "js_trim (ip @ CHR ''.'' # fp) = ip @ CHR ''.'' # fp"
    using hd assms(1,2) by (intro js_trim_id) (simp_all add: js_is_digit_not_space)
  have t2: "js_trim (CHR ''-'' # ip @ CHR ''.'' # fp) = CHR ''-'' # ip @ CHR ''.'' # fp"
  proof -
    have "\<not> js_is_space CHR ''-''" by (simp add: js_is_space_def)
    then show ?thesis using hd assms(2) by (intro js_trim_id) (simp_all add: js_is_digit_not_space)
  qed
  have "js_signed_decimal (ip @ CHR ''.'' # fp) = JsNum (of_nat n / 10 ^ length fp)"
    using nd p assms(1) by (cases ip) (auto simp: js_signed_decimal_def)
  moreover have "js_signed_decimal (CHR ''-'' # ip @ CHR ''.'' # fp) = JsNum (- (of_nat n / 10 ^ length fp))"
    using nd p assms(1) by (cases ip) (auto simp: js_signed_decimal_def)
  moreover have "js_number (ip @ CHR ''.'' # fp) = js_signed_decimal (ip @ CHR ''.'' # fp)"
    using pre assms(1) by (intro js_number_decimal_text [OF t1]) (auto simp: list.set_sel(2))
  moreover have "js_number (CHR ''-'' # ip @ CHR ''.'' # fp) = js_signed_decimal (CHR ''-'' # ip @ CHR ''.'' # fp)"
    using pre by (intro js_number_decimal_text [OF t2]) auto
  ultimately show ?thesis by simp
qed

lemma js_number_fixed_digits:
  assumes "0 < f"
  shows "js_number (fixed_digits f n) = JsNum (of_nat n / 10 ^ f) \<and>
         js_number (CHR ''-'' # fixed_digits f n) = JsNum (- (of_nat n / 10 ^ f))"
proof -
  obtain ip fp where s: "fixed_digits f n = ip @ CHR ''.'' # fp" "ip \<noteq> []" "length fp = f"
    "list_all js_is_digit (ip @ fp)" "radix_digits 10 (ip @ fp) = Some n"
    using fixed_digits_split [OF assms] by blast
  have fp: "fp \<noteq> []" using s(3) assms by auto
  show ?thesis using js_number_point_text [OF s(2) fp s(4,5)] s(1,3) by simp
qed


lemma js_to_fixed_readback:
  assumes "0 < f" "f \<le> 100" "\<bar>r\<bar> < 10 ^ 21"
  shows "\<exists>t. js_to_fixed f (JsNum r) = Some t \<and>
             js_number t = JsNum (sgn r * of_nat (fixed_round f \<bar>r\<bar>) / 10 ^ f)"
proof -
  note d = js_number_fixed_digits [OF assms(1), of "fixed_round f \<bar>r\<bar>"]
  have "\<not> 10 ^ 21 \<le> \<bar>r\<bar>" using assms(3) by simp
  moreover have "fixed_round f 0 = 0" by (simp add: fixed_round_def)
  ultimately show ?thesis
    using assms(2) d by (cases "0 < r"; cases "r < 0") (auto simp: js_to_fixed_def Let_def)
qed

lemma fixed_round_close_abs:
  "\<bar>of_nat (fixed_round f \<bar>r\<bar>) / 10 ^ f - \<bar>r\<bar>\<bar> \<le> 1 / (2 * 10 ^ f)"
proof -
  define x where "x = (of_nat (fixed_round f \<bar>r\<bar>) :: rat)"
  define q where "q = (10 ^ f :: rat)"
  have b: "\<bar>r\<bar> * q - 1 / 2 < x" "x \<le> \<bar>r\<bar> * q + 1 / 2"
    using fixed_round_bounds [of "\<bar>r\<bar>" f] by (simp_all add: x_def q_def)
  have p: "0 < q" by (simp add: q_def)
  have e: "\<bar>x - \<bar>r\<bar> * q\<bar> \<le> 1 / 2"
    unfolding abs_le_iff using b by linarith
  have "x / q - \<bar>r\<bar> = (x - \<bar>r\<bar> * q) / q" using p by (simp add: diff_divide_distrib)
  then have "\<bar>x / q - \<bar>r\<bar>\<bar> = \<bar>x - \<bar>r\<bar> * q\<bar> / q" using p by (simp only: abs_divide abs_of_pos)
  also have "\<dots> \<le> (1 / 2) / q" using p by (intro divide_right_mono [OF e] less_imp_le)
  finally show ?thesis by (simp add: x_def q_def)
qed

lemma fixed_round_close:
  "\<bar>sgn r * of_nat (fixed_round f \<bar>r\<bar>) / 10 ^ f - r\<bar> \<le> 1 / (2 * 10 ^ f)"
proof (cases "r < 0")
  case True
  then have "sgn r * of_nat (fixed_round f \<bar>r\<bar>) / 10 ^ f - r =
             - (of_nat (fixed_round f \<bar>r\<bar>) / 10 ^ f - \<bar>r\<bar>)" by simp
  then show ?thesis using fixed_round_close_abs [of f r] by (simp only: abs_minus_cancel)
next
  case False
  then have "sgn r * of_nat (fixed_round f \<bar>r\<bar>) / 10 ^ f - r =
             of_nat (fixed_round f \<bar>r\<bar>) / 10 ^ f - \<bar>r\<bar>"
    by (cases "r = 0") (simp_all add: fixed_round_def)
  then show ?thesis using fixed_round_close_abs [of f r] by simp
qed

lemma fixed_round_exact:
  assumes "r * 10 ^ f = of_int c"
  shows "sgn r * of_nat (fixed_round f \<bar>r\<bar>) / 10 ^ f = r"
proof -
  have "\<bar>r * 10 ^ f\<bar> = \<bar>of_int c\<bar>" using assms by simp
  then have "\<bar>r\<bar> * 10 ^ f = of_int \<bar>c\<bar>" by (simp add: abs_mult of_int_abs)
  moreover have "\<lfloor>(of_int \<bar>c\<bar> :: rat) + 1 / 2\<rfloor> = \<bar>c\<bar>" by (rule floor_unique) simp_all
  ultimately have "fixed_round f \<bar>r\<bar> = nat \<bar>c\<bar>" by (simp add: fixed_round_def)
  then have "of_nat (fixed_round f \<bar>r\<bar>) = \<bar>r\<bar> * 10 ^ f"
    using \<open>\<bar>r\<bar> * 10 ^ f = of_int \<bar>c\<bar>\<close> by simp
  then show ?thesis by (cases "0 < r"; cases "r < 0") auto
qed

subsection \<open>Number of toString\<close>

text \<open>
  \<open>Number\<close> reads the text \<open>toString\<close> prints of a number with at most 20 decimals back
  as that number: the integer part, the point and the fraction's digits, which
  \<open>frac_digits\<close> writes without trailing zeros.
\<close>

lemma frac_digits_value:
  assumes "0 \<le> f" "f < 1" "k \<le> j" "f * 10 ^ k = of_int z"
  shows "list_all js_is_digit (frac_digits j f) \<and> (f \<noteq> 0 \<longrightarrow> frac_digits j f \<noteq> []) \<and>
         of_nat (radix_value 10 (map (\<lambda>c. the (radix_digit 10 c)) (frac_digits j f))) =
           f * 10 ^ length (frac_digits j f)"
  using assms
proof (induction j arbitrary: f k z)
  case 0
  then have "f = of_int z" by simp
  with 0 have "0 \<le> z" "z < 1" by simp_all
  with \<open>f = of_int z\<close> have "f = 0" by simp
  then show ?case by (simp add: radix_value_def)
next
  case (Suc j)
  show ?case
  proof (cases "f = 0")
    case True
    then show ?thesis by (simp add: radix_value_def)
  next
    case False
    define d where "d = \<lfloor>10 * f\<rfloor>"
    define f' where "f' = 10 * f - of_int d"
    have d: "0 \<le> d" "d < 10" using Suc.prems(1,2) by (simp_all add: d_def floor_less_iff)
    have f': "0 \<le> f'" "f' < 1" by (simp_all add: f'_def d_def) linarith
    have k: "0 < k"
    proof (rule ccontr)
      assume "\<not> 0 < k"
      then have "f = of_int z" using Suc.prems(4) by simp
      then have "0 \<le> z" "z < 1" using Suc.prems(1,2) by simp_all
      then show False using \<open>f = of_int z\<close> False by simp
    qed
    have "f' * 10 ^ (k - 1) = of_int (z - d * 10 ^ (k - 1))"
    proof -
      have "(10::rat) ^ k = 10 * 10 ^ (k - 1)" using k by (cases k) simp_all
      then show ?thesis using Suc.prems(4) by (simp add: f'_def algebra_simps)
    qed
    moreover have "k - 1 \<le> j" using Suc.prems(3) k by simp
    ultimately have ih: "list_all js_is_digit (frac_digits j f') \<and>
        of_nat (radix_value 10 (map (\<lambda>c. the (radix_digit 10 c)) (frac_digits j f'))) =
          f' * 10 ^ length (frac_digits j f')"
      using Suc.IH [OF f'(1) f'(2), of "k - 1" "z - d * 10 ^ (k - 1)"] by simp
    have nd: "nat d < 10" using d by simp
    have e: "frac_digits (Suc j) f = char_of (48 + nat d) # frac_digits j f'"
      using False by (simp add: d_def f'_def Let_def)
    have "of_nat (nat d) * 10 ^ length (frac_digits j f') + f' * 10 ^ length (frac_digits j f') =
          f * (10 * 10 ^ length (frac_digits j f'))"
      using d(1) by (simp add: f'_def algebra_simps)
    then show ?thesis
      unfolding e using ih digit_char_props [OF nd] by (simp add: radix_value_cons)
  qed
qed

lemma digit_radix_digit: "js_is_digit c \<Longrightarrow> radix_digit 10 c = Some (of_char c - 48)"
  by (simp add: js_is_digit_def radix_digit_def Let_def) arith

lemma radix_digits_append:
  assumes "radix_digits 10 xs = Some m" "ys \<noteq> []" "list_all js_is_digit ys"
  shows "radix_digits 10 (xs @ ys) =
           Some (m * 10 ^ length ys + radix_value 10 (map (\<lambda>c. the (radix_digit 10 c)) ys))"
proof -
  have "list_all (\<lambda>c. radix_digit 10 c \<noteq> None) ys" using assms(3) by (simp add: list_all_iff digit_radix_digit)
  moreover have "radix_value 10 (map (\<lambda>c. the (radix_digit 10 c)) xs) = m"
    using assms(1) by (simp add: radix_digits_def split: if_splits)
  ultimately show ?thesis
    using assms(1) foldl_radix_shift [of 10 m] by (auto simp: radix_digits_def radix_value_def split: if_splits)
qed

lemma js_number_string_decimal:
  assumes "r * 10 ^ k = of_int z" "k \<le> 20"
  shows "js_number (js_number_string r) = JsNum r"
proof (cases "r = of_int \<lfloor>r\<rfloor>")
  case True
  then show ?thesis using js_number_string_int [of "\<lfloor>r\<rfloor>"] js_number_string_of_int [of "\<lfloor>r\<rfloor>"] by simp
next
  case False
  define i where "i = \<lfloor>\<bar>r\<bar>\<rfloor>"
  define f where "f = \<bar>r\<bar> - of_int i"
  have f: "0 \<le> f" "f < 1" by (simp_all add: f_def i_def) linarith
  have fz: "f \<noteq> 0"
  proof
    assume "f = 0"
    then have "\<bar>r\<bar> = of_int i" by (simp add: f_def)
    then have "r = of_int i \<or> r = of_int (- i)" by (cases "0 \<le> r") simp_all
    then show False using False by auto
  qed
  have "f * 10 ^ k = of_int (\<bar>z\<bar> - i * 10 ^ k)"
  proof -
    have "\<bar>r\<bar> * 10 ^ k = of_int \<bar>z\<bar>"
      using arg_cong [OF assms(1), of abs] by (simp add: abs_mult)
    then show ?thesis by (simp add: f_def algebra_simps)
  qed
  then have fd: "list_all js_is_digit (frac_digits 20 f) \<and> frac_digits 20 f \<noteq> [] \<and>
      of_nat (radix_value 10 (map (\<lambda>c. the (radix_digit 10 c)) (frac_digits 20 f))) =
        f * 10 ^ length (frac_digits 20 f)"
    using frac_digits_value [OF f assms(2)] fz by blast
  define ds where "ds = frac_digits 20 f"
  define ip where "ip = string_of_nat (nat i)"
  have ip: "ip \<noteq> []" "list_all js_is_digit ip" "radix_digits 10 ip = Some (nat i)"
    using radix_digits_string_of_nat [of "nat i"] string_of_nat_digits [of "nat i"]
    by (auto simp: ip_def radix_digits_def)
  have rd: "radix_digits 10 (ip @ ds) = Some (nat i * 10 ^ length ds + radix_value 10 (map (\<lambda>c. the (radix_digit 10 c)) ds))"
    using radix_digits_append [OF ip(3)] fd by (simp add: ds_def)
  have i0: "0 \<le> i" by (simp add: i_def)
  have val: "(of_nat (nat i * 10 ^ length ds + radix_value 10 (map (\<lambda>c. the (radix_digit 10 c)) ds)) :: rat) /
             10 ^ length ds = \<bar>r\<bar>"
    using fd i0 by (simp add: ds_def f_def field_simps)
  have shown: "js_number_string r = (if r < 0 then ''-'' else []) @ ip @ CHR ''.'' # ds"
    using fz by (simp add: js_number_string_def Let_def ip_def ds_def i_def f_def)
  show ?thesis
    using js_number_point_text [OF ip(1) _ _ rd] fd ip(2) val shown
    by (cases "r < 0") (simp_all add: ds_def)
qed

end
