(* ===== verification/Form.thy ===== *)
theory Form
  imports Client DateFormat JsFixed
begin

text \<open>
  The expense form (\<open>pages/ExpenseForm.tsx\<close>). Its state is the record
  \<open>form_state\<close>: the form data of lines 21--38, the error texts of lines 39--44 and the
  route parameter \<open>id\<close> (absent on \<open>/expenses/new\<close>). The form data hold what the
  code stores at run time: the amount is a string (the text field, or
  \<open>expense.amount.toString()\<close>), the description, category and payment method are the
  values last stored (a string from a text field, or whatever member the server's
  expense had, \<open>None\<close> for \<open>undefined\<close>), and the date is a \<open>Date\<close>. \<open>validate_form\<close>
  is \<open>validateForm\<close> (an exception of \<open>trim\<close> is \<open>None\<close>); \<open>expense_data\<close> is the object
  literal of \<open>handleSubmit\<close> with \<open>JSON.stringify\<close>'s treatment of non-finite numbers
  and \<open>undefined\<close> members, and fails with the \<open>RangeError\<close> of \<open>format\<close> on an
  Invalid Date; \<open>handle_submit\<close> composes them with the client's \<open>add_expense\<close> or
  \<open>update_expense\<close>; \<open>load_expense\<close> and \<open>fetch_expense\<close> are \<open>fetchExpense\<close>;
  \<open>handle_change\<close> and \<open>handle_date_change\<close> are the field handlers. Navigation with
  \<open>navigate\<close> sets the client's location. \<open>form_run\<close> runs a sequence of the three
  kinds of change of the data, and \<open>form_typed\<close> is the declared type of \<open>FormData\<close>'s
  enumeration members, which the controls' events keep and a loaded expense may break.
\<close>

section \<open>State\<close>

record form_data =
  fd_amount :: string
  fd_description :: "json option"
  fd_category :: "json option"
  fd_payment_method :: "json option"
  fd_date :: js_date

record form_errors =
  err_amount :: string
  err_description :: string
  err_category :: string
  err_payment_method :: string

record form_state =
  fs_data :: form_data
  fs_errors :: form_errors
  fs_id :: "string option"

definition no_errors :: form_errors where
  "no_errors = \<lparr>err_amount = [], err_description = [], err_category = [], err_payment_method = []\<rparr>"

text \<open>The initial state (lines 32--44); \<open>now\<close> is the time value of \<open>new Date()\<close>.\<close>

definition init_form :: "int \<Rightarrow> string option \<Rightarrow> form_state" where
  "init_form now i =
     \<lparr>fs_data = \<lparr>fd_amount = [], fd_description = Some (JStr []),
                 fd_category = Some (JStr (category_value FOOD)),
                 fd_payment_method = Some (JStr (payment_method_value CASH)),
                 fd_date = Some now\<rparr>,
      fs_errors = no_errors, fs_id = i\<rparr>"

text \<open>Exceptions that escape the handlers: the code has no \<open>catch\<close> around them.\<close>

datatype form_exception = TypeErrorThrown string | RangeErrorThrown string

section \<open>validateForm\<close>

text \<open>\<open>v.trim()\<close>: a string is trimmed; on anything else \<open>trim\<close> is not a function.\<close>

definition js_trim_value :: "json option \<Rightarrow> string option" where
  "js_trim_value v = (case v of Some (JStr s) \<Rightarrow> Some (js_trim s) | _ \<Rightarrow> None)"

text \<open>
  Lines 68--99. The amount is rejected when empty, not a number or not positive; the
  description when blank; category and payment method when falsy.
\<close>

definition validate_form :: "form_data \<Rightarrow> (form_errors \<times> bool) option" where
  "validate_form fd =
     (let n = js_number (fd_amount fd);
          amount_bad = (\<not> js_truthy_str (fd_amount fd) \<or> js_is_nan n \<or> js_le_zero n)
      in case js_trim_value (fd_description fd) of
           None \<Rightarrow> None
         | Some d \<Rightarrow>
             (let desc_bad = \<not> js_truthy_str d;
                  cat_bad = \<not> js_truthy (fd_category fd);
                  pm_bad = \<not> js_truthy (fd_payment_method fd)
              in Some (\<lparr>err_amount = if amount_bad then ''Please enter a valid amount'' else [],
                         err_description = if desc_bad then ''Description is required'' else [],
                         err_category = if cat_bad then ''Category is required'' else [],
                         err_payment_method =
                           if pm_bad then ''Payment method is required'' else []\<rparr>,
                       \<not> amount_bad \<and> \<not> desc_bad \<and> \<not> cat_bad \<and> \<not> pm_bad)))"

section \<open>handleSubmit\<close>

text \<open>\<open>JSON.stringify\<close> writes \<open>NaN\<close> and the infinities as \<open>null\<close>.\<close>

fun json_of_number :: "js_num \<Rightarrow> json" where
  "json_of_number (JsNum r) = JNum r"
| "json_of_number _ = JNull"

text \<open>A member whose value is \<open>undefined\<close> is left out of the JSON text.\<close>

definition json_member :: "string \<Rightarrow> json option \<Rightarrow> (string \<times> json) list" where
  "json_member k v = (case v of None \<Rightarrow> [] | Some x \<Rightarrow> [(k, x)])"

text \<open>
  \<open>expenseData\<close> (lines 108--117) as the JSON body sent: the members in the literal's
  order; \<open>trim\<close> and \<open>format\<close> are evaluated in that order and may throw.
\<close>

definition expense_data :: "form_data \<Rightarrow> int \<Rightarrow> form_exception + json" where
  "expense_data fd now =
     (case js_trim_value (fd_description fd) of
        None \<Rightarrow> Inl (TypeErrorThrown ''trim'')
      | Some d \<Rightarrow>
          (case format_date_time (fd_date fd) of
             None \<Rightarrow> Inl (RangeErrorThrown ''Invalid time value'')
           | Some ds \<Rightarrow>
               Inr (JObj ([(''amount'', json_of_number (js_number (fd_amount fd))),
                           (''description'', JStr d)] @
                          json_member ''category'' (fd_category fd) @
                          json_member ''paymentMethod'' (fd_payment_method fd) @
                          [(''date'', JStr ds), (''isRecurring'', JBool False),
                           (''createDate'', JStr (format_time now)),
                           (''updateDate'', JStr (format_time now))]))))"

datatype submit_outcome =
    SubmitInvalid
  | SubmitThrew form_exception
  | SubmitSaved
  | SubmitFailed bool

text \<open>\<open>error.response?.status !== 401\<close>: only an HTTP error carries a response.\<close>

fun is_unauthorized :: "api_error \<Rightarrow> bool" where
  "is_unauthorized (HttpError st b) = (st = 401)"
| "is_unauthorized _ = False"

text \<open>
  The save call (lines 119--125): \<open>updateExpense(Number(id), ...)\<close> when the route has
  a non-empty \<open>id\<close>, \<open>addExpense\<close> otherwise.
\<close>

definition save_expense ::
  "server \<Rightarrow> client_state \<Rightarrow> string option \<Rightarrow> json \<Rightarrow> client_state \<times> (api_error + json option)"
  where
  "save_expense srv cs i body =
     (case i of
        Some s \<Rightarrow> if js_truthy_str s then update_expense srv cs (js_number s) body
                  else add_expense srv cs body
      | None \<Rightarrow> add_expense srv cs body)"

text \<open>
  \<open>handleSubmit\<close> (lines 101--132): validation sets the errors and stops an invalid
  submit; the body is built outside the \<open>try\<close>; a saved expense navigates to the list;
  a failure alerts unless it was a 401, which the client has already handled.
\<close>

definition handle_submit ::
  "server \<Rightarrow> int \<Rightarrow> client_state \<Rightarrow> form_state \<Rightarrow> client_state \<times> form_state \<times> submit_outcome"
  where
  "handle_submit srv now cs fs =
     (case validate_form (fs_data fs) of
        None \<Rightarrow> (cs, fs, SubmitThrew (TypeErrorThrown ''trim''))
      | Some (errs, ok) \<Rightarrow>
          (let fs1 = fs\<lparr>fs_errors := errs\<rparr>
           in if \<not> ok then (cs, fs1, SubmitInvalid)
              else case expense_data (fs_data fs) now of
                     Inl ex \<Rightarrow> (cs, fs1, SubmitThrew ex)
                   | Inr body \<Rightarrow>
                       (case save_expense srv cs (fs_id fs) body of
                          (cs1, Inr _) \<Rightarrow> (cs1\<lparr>location := ''/expenses''\<rparr>, fs1, SubmitSaved)
                        | (cs1, Inl e) \<Rightarrow> (cs1, fs1, SubmitFailed (\<not> is_unauthorized e)))))"

section \<open>Field handlers\<close>

datatype form_field = FieldAmount | FieldDescription | FieldCategory | FieldPaymentMethod

text \<open>\<open>handleChange\<close> (lines 134--142): the named field takes the input's string.\<close>

fun handle_change :: "form_data \<Rightarrow> form_field \<Rightarrow> string \<Rightarrow> form_data" where
  "handle_change fd FieldAmount v = fd\<lparr>fd_amount := v\<rparr>"
| "handle_change fd FieldDescription v = fd\<lparr>fd_description := Some (JStr v)\<rparr>"
| "handle_change fd FieldCategory v = fd\<lparr>fd_category := Some (JStr v)\<rparr>"
| "handle_change fd FieldPaymentMethod v = fd\<lparr>fd_payment_method := Some (JStr v)\<rparr>"

text \<open>
  The date picker's handler (lines 219--224): \<open>newDate || new Date()\<close>; a cleared
  picker gives \<open>null\<close> (\<open>None\<close>), a partly typed date an Invalid Date, which is truthy.
\<close>

definition handle_date_change :: "form_data \<Rightarrow> js_date option \<Rightarrow> int \<Rightarrow> form_data" where
  "handle_date_change fd nd now =
     fd\<lparr>fd_date := (case nd of None \<Rightarrow> Some now | Some d \<Rightarrow> d)\<rparr>"

section \<open>fetchExpense\<close>

text \<open>
  \<open>new Date(v)\<close> of a JSON value: \<open>undefined\<close> is Invalid Date, \<open>null\<close> and booleans
  convert to 0 and 1, a number is truncated and clipped to \<open>8.64e15\<close> ms, a string is
  parsed, an array or object is parsed from its string form.
\<close>

definition time_clip :: "rat \<Rightarrow> js_date" where
  "time_clip r =
     (if 8640000000000000 < \<bar>r\<bar> then None
      else Some (if 0 \<le> r then \<lfloor>r\<rfloor> else \<lceil>r\<rceil>))"

fun js_new_date_value :: "json option \<Rightarrow> js_date" where
  "js_new_date_value None = None"
| "js_new_date_value (Some JNull) = Some 0"
| "js_new_date_value (Some (JBool b)) = Some (if b then 1 else 0)"
| "js_new_date_value (Some (JNum r)) = time_clip r"
| "js_new_date_value (Some (JStr s)) = js_new_date s"
| "js_new_date_value (Some v) = js_new_date (js_to_string v)"

text \<open>
  The form data built from \<open>response.data.data\<close> (lines 48--55); \<open>None\<close> when reading
  \<open>expense.amount\<close> or calling its \<open>toString\<close> throws.
\<close>

definition load_expense :: "json option \<Rightarrow> form_data option" where
  "load_expense eo =
     (case eo of
        None \<Rightarrow> None
      | Some e \<Rightarrow>
          (case js_member e ''amount'' of
             Inl _ \<Rightarrow> None
           | Inr None \<Rightarrow> None
           | Inr (Some JNull) \<Rightarrow> None
           | Inr (Some a) \<Rightarrow>
               Some \<lparr>fd_amount = js_to_string a,
                     fd_description = js_member_value e ''description'',
                     fd_category = js_member_value e ''category'',
                     fd_payment_method = js_member_value e ''paymentMethod'',
                     fd_date = js_new_date_value (js_member_value e ''date'')\<rparr>))"

text \<open>\<open>fetchExpense\<close> (lines 46--60): on any failure the page navigates to the list.\<close>

definition fetch_expense ::
  "server \<Rightarrow> client_state \<Rightarrow> form_state \<Rightarrow> string \<Rightarrow> client_state \<times> form_state" where
  "fetch_expense srv cs fs i =
     (case get_expense_by_id srv cs (js_number i) of
        (cs1, Inl _) \<Rightarrow> (cs1\<lparr>location := ''/expenses''\<rparr>, fs)
      | (cs1, Inr eo) \<Rightarrow>
          (case load_expense eo of
             None \<Rightarrow> (cs1\<lparr>location := ''/expenses''\<rparr>, fs)
           | Some fd \<Rightarrow> (cs1, fs\<lparr>fs_data := fd\<rparr>)))"

text \<open>The mount effect (lines 62--66): the expense is fetched when \<open>id\<close> is truthy.\<close>

definition form_mount :: "server \<Rightarrow> client_state \<Rightarrow> form_state \<Rightarrow> client_state \<times> form_state" where
  "form_mount srv cs fs =
     (case fs_id fs of
        Some i \<Rightarrow> if js_truthy_str i then fetch_expense srv cs fs i else (cs, fs)
      | None \<Rightarrow> (cs, fs))"

section \<open>Form sessions\<close>

text \<open>
  What changes the form's data: a control's change event (\<open>handleChange\<close>), the date
  picker, and the expense \<open>fetchExpense\<close> loads (a failed load leaves the data).
\<close>

datatype form_event = Typed form_field string | DatePicked "js_date option" int
  | Fetched "json option"

fun form_event_step :: "form_data \<Rightarrow> form_event \<Rightarrow> form_data" where
  "form_event_step fd (Typed f v) = handle_change fd f v"
| "form_event_step fd (DatePicked d now) = handle_date_change fd d now"
| "form_event_step fd (Fetched eo) = (case load_expense eo of Some fd' \<Rightarrow> fd' | None \<Rightarrow> fd)"

definition form_run :: "form_data \<Rightarrow> form_event list \<Rightarrow> form_data" where
  "form_run fd evs = foldl form_event_step fd evs"

text \<open>
  The events the page's controls can send (lines 186--213): the two selects offer
  \<open>Object.values\<close> of their enumerations (lines 18--19); the text fields and the
  picker send anything.
\<close>

fun ui_event :: "form_event \<Rightarrow> bool" where
  "ui_event (Typed FieldCategory v) = (v \<in> set expense_category_values)"
| "ui_event (Typed FieldPaymentMethod v) = (v \<in> set payment_method_values)"
| "ui_event (Typed _ _) = True"
| "ui_event (DatePicked _ _) = True"
| "ui_event (Fetched _) = False"

text \<open>The declared types of \<open>FormData\<close>'s two enumeration members (lines 21--27).\<close>

definition form_typed :: "form_data \<Rightarrow> bool" where
  "form_typed fd \<longleftrightarrow>
     (case fd_category fd of Some (JStr c) \<Rightarrow> c \<in> set expense_category_values | _ \<Rightarrow> False) \<and>
     (case fd_payment_method fd of Some (JStr p) \<Rightarrow> p \<in> set payment_method_values | _ \<Rightarrow> False)"

section \<open>Lemmas on validation and the body\<close>

lemma validate_form_cases:
  "validate_form fd = Some (errs, ok) \<longleftrightarrow>
   (\<exists>d. fd_description fd = Some (JStr d) \<and>
     ok = (js_truthy_str (fd_amount fd) \<and> \<not> js_is_nan (js_number (fd_amount fd)) \<and>
           \<not> js_le_zero (js_number (fd_amount fd)) \<and> js_truthy_str (js_trim d) \<and>
           js_truthy (fd_category fd) \<and> js_truthy (fd_payment_method fd)) \<and>
     errs = \<lparr>err_amount = if js_truthy_str (fd_amount fd) \<and> \<not> js_is_nan (js_number (fd_amount fd)) \<and>
                             \<not> js_le_zero (js_number (fd_amount fd)) then [] else ''Please enter a valid amount'',
             err_description = if js_truthy_str (js_trim d) then [] else ''Description is required'',
             err_category = if js_truthy (fd_category fd) then [] else ''Category is required'',
             err_payment_method =
               if js_truthy (fd_payment_method fd) then [] else ''Payment method is required''\<rparr>)"
  by (auto simp: validate_form_def js_trim_value_def Let_def split: option.splits json.splits)

lemma validate_form_ok_no_errors:
  "validate_form fd = Some (errs, ok) \<Longrightarrow> ok \<longleftrightarrow> errs = no_errors"
  by (auto simp: validate_form_cases no_errors_def js_truthy_str_def)


lemma json_member_Some [simp]: "json_member k (Some x) = [(k, x)]"
  by (simp add: json_member_def)

lemma js_truthy_Some: "js_truthy v \<Longrightarrow> \<exists>x. v = Some x"
  by (cases v) simp_all

lemma form_typed_ui_step:
  "form_typed fd \<Longrightarrow> ui_event ev \<Longrightarrow> form_typed (form_event_step fd ev)"
  by (cases ev rule: ui_event.cases) (simp_all add: form_typed_def handle_date_change_def)

lemma form_typed_ui_run:
  "form_typed fd \<Longrightarrow> list_all ui_event evs \<Longrightarrow> form_typed (form_run fd evs)"
  by (induction evs arbitrary: fd) (simp_all add: form_run_def form_typed_ui_step)

section \<open>Properties of the form\<close>

text \<open>
  C25. Whatever the user typed, a body the form sends (validation passed, body built)
  has a non-blank trimmed description, truthy category and payment method, and an
  amount that is a positive number, or \<open>null\<close> when the amount field read
  \<open>Infinity\<close>, which \<open>Number\<close> accepts and \<open>JSON.stringify\<close> writes as \<open>null\<close>.
\<close>

theorem submitted_payload_valid:
  assumes "validate_form fd = Some (errs, True)" and "expense_data fd now = Inr body"
  shows "errs = no_errors \<and>
         (\<exists>kvs d. body = JObj kvs \<and> map_of kvs ''description'' = Some (JStr d) \<and> d \<noteq> [] \<and>
            js_trim d = d \<and> js_truthy (map_of kvs ''category'') \<and>
            js_truthy (map_of kvs ''paymentMethod'') \<and>
            (case js_number (fd_amount fd) of
               JsNum r \<Rightarrow> 0 < r \<and> map_of kvs ''amount'' = Some (JNum r)
             | JsPosInf \<Rightarrow> map_of kvs ''amount'' = Some JNull
             | _ \<Rightarrow> False))"
proof -
  obtain d where d: "fd_description fd = Some (JStr d)" and ok:
    "js_truthy_str (fd_amount fd)" "\<not> js_is_nan (js_number (fd_amount fd))"
    "\<not> js_le_zero (js_number (fd_amount fd))" "js_truthy_str (js_trim d)"
    "js_truthy (fd_category fd)" "js_truthy (fd_payment_method fd)"
    using assms(1) by (auto simp: validate_form_cases)
  obtain ds where ds: "format_date_time (fd_date fd) = Some ds"
    using assms(2) d by (auto simp: expense_data_def js_trim_value_def split: option.splits)
  have body: "body = JObj ([(''amount'', json_of_number (js_number (fd_amount fd))),
                            (''description'', JStr (js_trim d))] @
                           json_member ''category'' (fd_category fd) @
                           json_member ''paymentMethod'' (fd_payment_method fd) @
                           [(''date'', JStr ds), (''isRecurring'', JBool False),
                            (''createDate'', JStr (format_time now)),
                            (''updateDate'', JStr (format_time now))])"
    using assms(2) d ds by (simp add: expense_data_def js_trim_value_def)
  obtain cv pv where cv: "fd_category fd = Some cv" and pv: "fd_payment_method fd = Some pv"
    using js_truthy_Some [OF ok(5)] js_truthy_Some [OF ok(6)] by blast
  show ?thesis
    using validate_form_ok_no_errors [OF assms(1)] body ok cv pv js_le_zero_cases [OF ok(2,3)]
    by (auto simp: js_truthy_str_def js_trim_idem)
qed

theorem submitted_payload_valid_witness:
  "\<exists>body. expense_data \<lparr>fd_amount = ''12.5'', fd_description = Some (JStr '' Lunch ''),
        fd_category = Some (JStr ''FOOD''), fd_payment_method = Some (JStr ''CASH''),
        fd_date = Some 1705314600000\<rparr> 1705314600000 = Inr body \<and>
     (\<exists>kvs. body = JObj kvs \<and> map_of kvs ''description'' = Some (JStr ''Lunch'') \<and>
        map_of kvs ''amount'' = Some (JNum (25 / 2)))"
proof -
  let ?fd = "\<lparr>fd_amount = ''12.5'', fd_description = Some (JStr '' Lunch ''),
        fd_category = Some (JStr ''FOOD''), fd_payment_method = Some (JStr ''CASH''),
        fd_date = Some 1705314600000\<rparr>"
  have v: "validate_form ?fd = Some (no_errors, True)"
    by (simp add: validate_form_def js_trim_value_def js_number_eval js_is_nan_def no_errors_def
        js_truthy_str_def)
  obtain body where b: "expense_data ?fd 1705314600000 = Inr body"
    by (simp add: expense_data_def js_trim_value_def format_date_time_def)
  have "js_number ''12.5'' = JsNum (25 / 2)" by (simp add: js_number_eval)
  moreover have "js_trim '' Lunch '' = ''Lunch''" by (simp add: js_trim_def js_is_space_def)
  moreover note submitted_payload_valid [OF v b]
  ultimately show ?thesis using b
    by (auto simp: expense_data_def js_trim_value_def format_date_time_def)
qed


text \<open>
  A submit that fails validation sends no request, whatever the server: the
  client state is unchanged, the error texts are set and at least one is not empty.
\<close>

lemma invalid_submit_sends_nothing:
  assumes "validate_form (fs_data fs) = Some (errs, False)"
  shows "handle_submit srv now cs fs = (cs, fs\<lparr>fs_errors := errs\<rparr>, SubmitInvalid) \<and>
         errs \<noteq> no_errors"
  using assms validate_form_ok_no_errors [OF assms] by (simp add: handle_submit_def)

text \<open>
  C26. Editing an expense and submitting without changes resubmits what the server
  sent: for a positive amount with at most 20 decimals (an amount in cents included),
  a trimmed description, non-empty category and payment method and a canonical date
  string, the loaded form validates and the body carries the same amount, description,
  category, payment method and date string. The body also resets \<open>isRecurring\<close> to
  \<open>false\<close> and sets \<open>createDate\<close> to the current time.
\<close>

theorem edit_resubmits_loaded_expense:
  assumes "length s = 19" and "iso_fields s = Some (y, mo, d, h, mi, sec, ms)"
    and "iso_fields_valid (y, mo, d, h, mi, sec, ms)" and "1 \<le> y" and "h < 24"
    and "0 < a" and "a * 10 ^ k = of_int z" and "k \<le> 20"
    and "desc \<noteq> []" and "js_trim desc = desc" and "c \<noteq> []" and "p \<noteq> []"
    and "map_of (rev kvs) ''amount'' = Some (JNum a)"
    and "map_of (rev kvs) ''description'' = Some (JStr desc)"
    and "map_of (rev kvs) ''category'' = Some (JStr c)"
    and "map_of (rev kvs) ''paymentMethod'' = Some (JStr p)"
    and "map_of (rev kvs) ''date'' = Some (JStr s)"
  shows "\<exists>fd. load_expense (Some (JObj kvs)) = Some fd \<and> validate_form fd = Some (no_errors, True) \<and>
           expense_data fd now =
             Inr (JObj [(''amount'', JNum a), (''description'', JStr desc),
                        (''category'', JStr c), (''paymentMethod'', JStr p), (''date'', JStr s),
                        (''isRecurring'', JBool False), (''createDate'', JStr (format_time now)),
                        (''updateDate'', JStr (format_time now))])"
proof -
  let ?fd = "\<lparr>fd_amount = js_number_string a, fd_description = Some (JStr desc),
              fd_category = Some (JStr c), fd_payment_method = Some (JStr p),
              fd_date = js_new_date s\<rparr>"
  have load: "load_expense (Some (JObj kvs)) = Some ?fd"
    using assms(13-17) by (simp add: load_expense_def js_member_value_def)
  have num: "js_number (js_number_string a) = JsNum a" using assms(7,8) by (rule js_number_string_decimal)
  have "js_number_string a \<noteq> []" by (simp add: js_number_string_def Let_def)
  then have "validate_form ?fd = Some (no_errors, True)"
    using assms(6,9-12) num
    by (simp add: validate_form_def js_trim_value_def js_truthy_str_def js_is_nan_def no_errors_def
        Let_def)
  moreover have "format_date_time (js_new_date s) = Some s"
    using assms(1-5) by (rule parse_then_format)
  ultimately show ?thesis
    using load num assms(10) by (simp add: expense_data_def js_trim_value_def)
qed

theorem edit_resubmits_loaded_expense_witness:
  "\<exists>fd. load_expense (Some (JObj [(''id'', JNum 7), (''amount'', JNum (25 / 2)), (''description'', JStr ''Rent''),
        (''category'', JStr ''OTHER''), (''paymentMethod'', JStr ''IBAN''),
        (''date'', JStr ''2024-01-15T10:30:00''), (''isRecurring'', JBool True)])) = Some fd \<and>
      validate_form fd = Some (no_errors, True) \<and>
      expense_data fd 0 =
        Inr (JObj [(''amount'', JNum (25 / 2)), (''description'', JStr ''Rent''),
                   (''category'', JStr ''OTHER''), (''paymentMethod'', JStr ''IBAN''),
                   (''date'', JStr ''2024-01-15T10:30:00''), (''isRecurring'', JBool False),
                   (''createDate'', JStr (format_time 0)), (''updateDate'', JStr (format_time 0))])"
proof -
  have "iso_fields ''2024-01-15T10:30:00'' = Some (2024, 1, 15, 10, 30, 0, 0)"
    by (simp add: iso_fields_def char_at_def field_at_def digits_value_def digit_value_def)
  moreover have "iso_fields_valid (2024, 1, 15, 10, 30, 0, 0)"
    by (simp add: iso_fields_valid_def days_in_month_def)
  moreover have "js_trim ''Rent'' = ''Rent''" by (simp add: js_trim_def js_is_space_def)
  ultimately show ?thesis
    using edit_resubmits_loaded_expense [of "''2024-01-15T10:30:00''" 2024 1 15 10 30 0 0 "25 / 2" 1 125
        "''Rent''" "''OTHER''" "''IBAN''"
        "[(''id'', JNum 7), (''amount'', JNum (25 / 2)), (''description'', JStr ''Rent''),
          (''category'', JStr ''OTHER''), (''paymentMethod'', JStr ''IBAN''),
          (''date'', JStr ''2024-01-15T10:30:00''), (''isRecurring'', JBool True)]" 0]
    by simp
qed

text \<open>
  C27. When the date picker holds an Invalid Date, a valid submit throws
  \<open>RangeError\<close> from \<open>format\<close> before the \<open>try\<close>: no request, no navigation and no
  alert; only the error texts are updated.
\<close>

theorem invalid_date_escapes:
  assumes "validate_form (fs_data fs) = Some (errs, True)" and "fd_date (fs_data fs) = None"
  shows "handle_submit srv now cs fs =
           (cs, fs\<lparr>fs_errors := errs\<rparr>, SubmitThrew (RangeErrorThrown ''Invalid time value''))"
proof -
  obtain d where "fd_description (fs_data fs) = Some (JStr d)"
    using assms(1) by (auto simp: validate_form_cases)
  then show ?thesis
    using assms by (simp add: handle_submit_def expense_data_def js_trim_value_def format_date_time_def)
qed


theorem invalid_date_escapes_witness:
  "handle_submit (\<lambda>_. HttpResponse 200 JNull) 0
     \<lparr>stored_token = Some ''abc'', default_auth = Some ''Bearer abc'', location = ''/expenses/new''\<rparr>
     ((init_form 0 None)\<lparr>fs_data := handle_date_change
        (handle_change (handle_change (fs_data (init_form 0 None)) FieldAmount ''5'') FieldDescription ''Taxi'')
        (Some None) 0\<rparr>) =
   (\<lparr>stored_token = Some ''abc'', default_auth = Some ''Bearer abc'', location = ''/expenses/new''\<rparr>,
    (init_form 0 None)\<lparr>fs_data := handle_date_change
        (handle_change (handle_change (fs_data (init_form 0 None)) FieldAmount ''5'') FieldDescription ''Taxi'')
        (Some None) 0, fs_errors := no_errors\<rparr>,
    SubmitThrew (RangeErrorThrown ''Invalid time value''))"
proof -
  let ?fs = "(init_form 0 None)\<lparr>fs_data := handle_date_change
        (handle_change (handle_change (fs_data (init_form 0 None)) FieldAmount ''5'') FieldDescription ''Taxi'')
        (Some None) 0\<rparr>"
  have "js_number ''5'' = JsNum 5" by (simp add: js_number_eval)
  moreover have "js_trim ''Taxi'' = ''Taxi''" by (simp add: js_trim_def js_is_space_def)
  ultimately have v: "validate_form (fs_data ?fs) = Some (no_errors, True)"
    by (simp add: validate_form_def init_form_def handle_date_change_def js_trim_value_def
        js_truthy_str_def js_is_nan_def no_errors_def Let_def)
  have "fd_date (fs_data ?fs) = None" by (simp add: handle_date_change_def)
  then show ?thesis using invalid_date_escapes [OF v] by simp
qed

text \<open>
  C28. The outcome of a valid submit follows the server's status: a 2xx answer with a
  body navigates to the list; a 401 logs the session out without an alert; any other
  error status alerts and leaves the client state as it was.
\<close>

theorem submit_outcomes:
  assumes "validate_form (fs_data fs) = Some (errs, True)" and "fd_date (fs_data fs) = Some t"
  shows "let r = handle_submit (\<lambda>_. HttpResponse st b) now cs fs in
    (is_success st \<and> b \<noteq> JNull \<longrightarrow> snd (snd r) = SubmitSaved \<and> location (fst r) = ''/expenses'') \<and>
    (st = 401 \<longrightarrow> snd (snd r) = SubmitFailed False \<and> stored_token (fst r) = None \<and>
                    location (fst r) = ''/login'') \<and>
    (\<not> is_success st \<and> st \<noteq> 401 \<longrightarrow> snd (snd r) = SubmitFailed True \<and> fst r = cs)"
proof -
  obtain d where "fd_description (fs_data fs) = Some (JStr d)"
    using assms(1) by (auto simp: validate_form_cases)
  then obtain body where b: "expense_data (fs_data fs) now = Inr body"
    using assms(2) by (simp add: expense_data_def js_trim_value_def format_date_time_def)
  have "b \<noteq> JNull \<Longrightarrow> \<exists>v. js_member b ''data'' = Inr v" by (cases b) auto
  then show ?thesis
    using assms(1) b
    by (auto simp: handle_submit_def save_expense_def update_expense_def add_expense_def
        api_data_def api_send_def is_success_def logout_def Let_def split: option.splits)
qed


theorem submit_outcomes_witness:
  "let r = handle_submit (\<lambda>_. HttpResponse 401 JNull) 0
             \<lparr>stored_token = Some ''abc'', default_auth = Some ''Bearer abc'', location = ''/expenses/new''\<rparr>
             ((init_form 0 None)\<lparr>fs_data := handle_change (handle_change (fs_data (init_form 0 None))
                FieldAmount ''5'') FieldDescription ''Taxi''\<rparr>)
   in snd (snd r) = SubmitFailed False \<and> stored_token (fst r) = None \<and> location (fst r) = ''/login''"
proof -
  let ?fs = "(init_form 0 None)\<lparr>fs_data := handle_change (handle_change (fs_data (init_form 0 None))
                FieldAmount ''5'') FieldDescription ''Taxi''\<rparr>"
  have "js_number ''5'' = JsNum 5" by (simp add: js_number_eval)
  moreover have "js_trim ''Taxi'' = ''Taxi''" by (simp add: js_trim_def js_is_space_def)
  ultimately have v: "validate_form (fs_data ?fs) = Some (no_errors, True)"
    by (simp add: validate_form_def init_form_def js_trim_value_def js_truthy_str_def js_is_nan_def
        no_errors_def Let_def)
  have t: "fd_date (fs_data ?fs) = Some 0" by (simp add: init_form_def)
  show ?thesis
    using submit_outcomes [OF v t, of 401 JNull 0
        "\<lparr>stored_token = Some ''abc'', default_auth = Some ''Bearer abc'', location = ''/expenses/new''\<rparr>"]
    by (simp add: Let_def is_success_def)
qed

text \<open>
  The fresh form is invalid (amount and description missing); typing a positive
  amount and a description makes it valid; a negative amount or a blank description
  is reported on its own field.
\<close>

lemma typing_makes_form_valid:
  "validate_form (fs_data (init_form now None)) =
     Some (\<lparr>err_amount = ''Please enter a valid amount'', err_description = ''Description is required'',
             err_category = [], err_payment_method = []\<rparr>, False) \<and>
   validate_form (handle_change (handle_change (fs_data (init_form now None)) FieldAmount ''12.50'')
     FieldDescription ''Lunch'') = Some (no_errors, True) \<and>
   validate_form (handle_change (handle_change (fs_data (init_form now None)) FieldAmount ''-3'')
     FieldDescription ''Lunch'') =
     Some (no_errors\<lparr>err_amount := ''Please enter a valid amount''\<rparr>, False) \<and>
   validate_form (handle_change (handle_change (fs_data (init_form now None)) FieldAmount ''12.50'')
     FieldDescription ''   '') =
     Some (no_errors\<lparr>err_description := ''Description is required''\<rparr>, False)"
proof -
  have "js_number ''12.50'' = JsNum (25 / 2)" "js_number ''-3'' = JsNum (- 3)"
    by (simp_all add: js_number_eval)
  moreover have "js_trim ''Lunch'' = ''Lunch''" "js_trim ''   '' = []" "js_trim [] = []"
    by (simp_all add: js_trim_def js_is_space_def)
  moreover have "js_number [] = JsNum 0" by (simp add: js_number_def js_trim_def)
  ultimately show ?thesis
    by (simp add: validate_form_def init_form_def js_trim_value_def js_truthy_str_def
        js_is_nan_def no_errors_def Let_def)
qed



text \<open>
  C4. The declared types of \<open>FormData\<close> hold in the fresh form and after any sequence
  of events the page's controls can send: the category is a value of \<open>types.ts\<close>'
  \<open>ExpenseCategory\<close> and the payment method one of \<open>PaymentMethod\<close>. The casts
  \<open>as ExpenseCategory\<close> are unchecked for server data: an expense whose category is a
  value of the other enumeration (\<open>types/index.ts\<close>, here \<open>GROCERIES\<close>) loads into a form
  of which the category is not an \<open>ExpenseCategory\<close>.
\<close>

theorem form_data_keeps_declared_types:
  "form_typed (fs_data (init_form now i)) \<and>
   (form_typed fd \<and> list_all ui_event evs \<longrightarrow> form_typed (form_run fd evs)) \<and>
   \<not> form_typed (form_run fd [Fetched (Some (JObj [(''amount'', JNum 12),
        (''category'', JStr (expense_category_index_value GROCERIES)),
        (''paymentMethod'', JStr (payment_method_value CASH))]))])"
proof -
  have "form_typed (fs_data (init_form now i))"
    by (simp add: form_typed_def init_form_def expense_category_values_def payment_method_values_def)
  moreover have "\<not> form_typed (form_run fd [Fetched (Some (JObj [(''amount'', JNum 12),
        (''category'', JStr (expense_category_index_value GROCERIES)),
        (''paymentMethod'', JStr (payment_method_value CASH))]))])"
    by (simp add: form_run_def load_expense_def form_typed_def expense_category_values_def
        js_member_value_def)
  ultimately show ?thesis using form_typed_ui_run by blast
qed

theorem form_data_keeps_declared_types_witness:
  "form_typed (fs_data (init_form 0 None)) \<and>
   form_typed (form_run (fs_data (init_form 0 None)) [Typed FieldCategory ''HEALTH'', DatePicked None 5])"
proof -
  have "ui_event (Typed FieldCategory ''HEALTH'')" by (simp add: expense_category_values_def)
  then show ?thesis
    using form_data_keeps_declared_types [of 0 None "fs_data (init_form 0 None)"
        "[Typed FieldCategory ''HEALTH'', DatePicked None 5]"] by simp
qed

end
