(* ===== verification/ListPage.thy ===== *)
theory ListPage
  imports ExpenseList Form
begin

text \<open>
  The list page's network side (\<open>pages/ExpenseList.tsx\<close>) composed with the client:
  \<open>fetchExpenses\<close> (lines 104--111) with the mount effect that runs it (lines 59--61),
  \<open>handleDelete\<close> (lines 113--122), and the table's date column (line 197). The view-model of \<open>ExpenseList\<close> holds expenses as
  typed records; \<open>decode_expense\<close> is the typed view of a JSON element, an object whose
  members have the types \<open>types.ts\<close> declares. A response whose data are not such an
  array is still stored by \<open>setExpenses\<close> at run time; the model reports it as the
  outcome \<open>FetchIllTyped\<close> and does not follow the page further. A fetch that fails is
  only logged; a confirmed delete that succeeds triggers a fetch, whose result reaches
  the view-model as the event \<open>ExpensesFetched\<close>.
\<close>

section \<open>Decoding the response\<close>

definition json_int :: "json option \<Rightarrow> int option" where
  "json_int v = (case v of Some (JNum r) \<Rightarrow> if r = of_int \<lfloor>r\<rfloor> then Some \<lfloor>r\<rfloor> else None | _ \<Rightarrow> None)"

definition json_rat :: "json option \<Rightarrow> rat option" where
  "json_rat v = (case v of Some (JNum r) \<Rightarrow> Some r | _ \<Rightarrow> None)"

definition json_str :: "json option \<Rightarrow> string option" where
  "json_str v = (case v of Some (JStr s) \<Rightarrow> Some s | _ \<Rightarrow> None)"

definition json_bool :: "json option \<Rightarrow> bool option" where
  "json_bool v = (case v of Some (JBool b) \<Rightarrow> Some b | _ \<Rightarrow> None)"

text \<open>An element as the \<open>Expense\<close> interface (\<open>types.ts\<close>, lines 17--27) types it.\<close>

definition decode_expense :: "json \<Rightarrow> expense option" where
  "decode_expense j =
     (case j of
        JObj kvs \<Rightarrow>
          (let g = map_of (rev kvs)
           in case (json_int (g ''id''), json_str (g ''description''), json_rat (g ''amount''),
                    json_str (g ''date''), json_str (g ''category''), json_str (g ''paymentMethod''),
                    json_bool (g ''isRecurring''), json_str (g ''createDate''),
                    json_str (g ''updateDate'')) of
                (Some i, Some d, Some a, Some dt, Some c, Some p, Some r, Some cd, Some ud) \<Rightarrow>
                  Some \<lparr>expense_id = i, description = d, amount = a, date = dt, category = c,
                        payment_method = p, is_recurring = r, create_date = cd, update_date = ud\<rparr>
              | _ \<Rightarrow> None)
      | _ \<Rightarrow> None)"

definition decode_expenses :: "json option \<Rightarrow> expense list option" where
  "decode_expenses d = (case d of Some (JArr xs) \<Rightarrow> those (map decode_expense xs) | _ \<Rightarrow> None)"

section \<open>fetchExpenses and handleDelete\<close>

datatype fetch_outcome = FetchOk "expense list" | FetchFailed | FetchIllTyped "json option"

text \<open>\<open>fetchExpenses\<close> (lines 104--111): the catch only logs.\<close>

definition fetch_expenses :: "server \<Rightarrow> client_state \<Rightarrow> client_state \<times> fetch_outcome" where
  "fetch_expenses srv cs =
     (case get_all_expenses srv cs of
        (cs1, Inl _) \<Rightarrow> (cs1, FetchFailed)
      | (cs1, Inr d) \<Rightarrow>
          (case decode_expenses d of
             Some xs \<Rightarrow> (cs1, FetchOk xs)
           | None \<Rightarrow> (cs1, FetchIllTyped d)))"

text \<open>The fetched list reaches the view-model through \<open>setExpenses\<close> (line 107).\<close>

fun list_after_fetch :: "list_state \<Rightarrow> fetch_outcome \<Rightarrow> list_state option" where
  "list_after_fetch ls (FetchOk xs) = Some (list_step ls (ExpensesFetched xs))"
| "list_after_fetch ls FetchFailed = Some ls"
| "list_after_fetch ls (FetchIllTyped d) = None"

text \<open>The mount effect (lines 59--61): one fetch from the initial state.\<close>

definition list_mount :: "server \<Rightarrow> client_state \<Rightarrow> client_state \<times> list_state option" where
  "list_mount srv cs = (case fetch_expenses srv cs of (cs1, fo) \<Rightarrow> (cs1, list_after_fetch init_list_state fo))"

datatype delete_outcome = DeleteCancelled | DeleteFailed | DeleteRefetched fetch_outcome

text \<open>
  \<open>handleDelete\<close> (lines 113--122): nothing without the user's confirmation; a failed
  delete is only logged; a successful one is followed by \<open>fetchExpenses()\<close>.
\<close>

definition handle_delete ::
  "server \<Rightarrow> bool \<Rightarrow> client_state \<Rightarrow> int \<Rightarrow> client_state \<times> delete_outcome" where
  "handle_delete srv confirmed cs i =
     (if \<not> confirmed then (cs, DeleteCancelled)
      else case delete_expense srv cs (JsNum (of_int i)) of
             (cs1, Inl _) \<Rightarrow> (cs1, DeleteFailed)
           | (cs1, Inr _) \<Rightarrow>
               (case fetch_expenses srv cs1 of (cs2, fo) \<Rightarrow> (cs2, DeleteRefetched fo)))"

section \<open>Navigation buttons\<close>

datatype list_nav = NavNew | NavEdit int

text \<open>
  The add button (line 159) and a row's edit button (line 207), which interpolates the
  numeric id into the path with \<open>String\<close>.
\<close>

fun list_navigate :: "client_state \<Rightarrow> list_nav \<Rightarrow> client_state" where
  "list_navigate cs NavNew = cs\<lparr>location := ''/expenses/new''\<rparr>"
| "list_navigate cs (NavEdit i) = cs\<lparr>location := ''/expenses/'' @ js_number_string (of_int i)\<rparr>"

section \<open>The date column\<close>

definition month_abbrev :: "nat \<Rightarrow> string" where
  "month_abbrev m =
     [''Jan'', ''Feb'', ''Mar'', ''Apr'', ''May'', ''Jun'', ''Jul'', ''Aug'', ''Sep'', ''Oct'', ''Nov'',
      ''Dec''] ! (m - 1)"

text \<open>
  \<open>format(new Date(expense.date), 'MMM dd, yyyy')\<close> (line 197); \<open>format\<close> throws
  \<open>RangeError\<close> on Invalid Date, which aborts the rendering of the table.
\<close>

definition row_date_label :: "string \<Rightarrow> string option" where
  "row_date_label s =
     map_option (\<lambda>t. month_abbrev (month_from_time t) @ '' '' @
                     add_leading_zeros (int (date_from_time t)) 2 @ '', '' @
                     format_year (year_from_time t))
       (js_new_date s)"

definition render_dates :: "list_state \<Rightarrow> string list option" where
  "render_dates ls = those (map (\<lambda>e. row_date_label (date e)) (visible_rows ls))"

section \<open>The server of the spec's expense resource\<close>

text \<open>
  The JSON of an expense as the interface names its members, and a server holding the
  list \<open>xs\<close>: it answers a delete with 204 and a read with \<open>{data: xs}\<close>.
\<close>

definition expense_members :: "expense \<Rightarrow> (string \<times> json) list" where
  "expense_members e =
     [(''id'', JNum (of_int (expense_id e))), (''description'', JStr (description e)),
      (''amount'', JNum (amount e)), (''date'', JStr (date e)), (''category'', JStr (category e)),
      (''paymentMethod'', JStr (payment_method e)), (''isRecurring'', JBool (is_recurring e)),
      (''createDate'', JStr (create_date e)), (''updateDate'', JStr (update_date e))]"

definition expense_json :: "expense \<Rightarrow> json" where
  "expense_json e = JObj (expense_members e)"

definition store_server :: "expense list \<Rightarrow> server" where
  "store_server xs =
     (\<lambda>rq. if rq_method rq = DELETE then HttpResponse 204 (JStr [])
           else HttpResponse 200 (JObj [(''data'', JArr (map expense_json xs))]))"

section \<open>Lemmas\<close>

lemma decode_expense_json: "decode_expense (expense_json e) = Some e"
  by (simp add: decode_expense_def expense_json_def expense_members_def json_int_def json_rat_def
      json_str_def json_bool_def)

lemma decode_expenses_json: "decode_expenses (Some (JArr (map expense_json xs))) = Some xs"
  by (induction xs) (simp_all add: decode_expenses_def decode_expense_json)

lemma json_field_inverse:
  "json_int v = Some i \<Longrightarrow> v = Some (JNum (of_int i))"
  "json_rat v = Some r \<Longrightarrow> v = Some (JNum r)"
  "json_str v = Some s \<Longrightarrow> v = Some (JStr s)"
  "json_bool v = Some b \<Longrightarrow> v = Some (JBool b)"
  by (auto simp: json_int_def json_rat_def json_str_def json_bool_def
      split: option.splits json.splits if_splits)

lemma decode_expense_SomeD:
  assumes "decode_expense (JObj kvs) = Some e"
  shows "json_int (map_of (rev kvs) ''id'') = Some (expense_id e) \<and>
         json_str (map_of (rev kvs) ''description'') = Some (description e) \<and>
         json_rat (map_of (rev kvs) ''amount'') = Some (amount e) \<and>
         json_str (map_of (rev kvs) ''date'') = Some (date e) \<and>
         json_str (map_of (rev kvs) ''category'') = Some (category e) \<and>
         json_str (map_of (rev kvs) ''paymentMethod'') = Some (payment_method e) \<and>
         json_bool (map_of (rev kvs) ''isRecurring'') = Some (is_recurring e) \<and>
         json_str (map_of (rev kvs) ''createDate'') = Some (create_date e) \<and>
         json_str (map_of (rev kvs) ''updateDate'') = Some (update_date e)"
  using assms by (auto simp: decode_expense_def Let_def split: option.splits)

lemma string_of_int_last_digit:
  "string_of_int i \<noteq> [] \<and> js_is_digit (last (string_of_int i)) \<and> CHR ''/'' \<notin> set (string_of_int i)"
proof -
  have d: "list_all js_is_digit (string_of_nat n)" for n by (rule string_of_nat_digits)
  have nd: "js_is_digit c \<Longrightarrow> c \<noteq> CHR ''/''" for c by (auto simp: js_is_digit_def)
  have l: "js_is_digit (last (string_of_nat n))" for n
    using d [of n] by (simp add: list_all_iff)
  show ?thesis
    using d l nd by (auto simp: string_of_int_def list_all_iff)
qed

lemma js_to_lower_expenses_path:
  "js_to_lower (''/expenses/'' @ s) = ''/expenses/'' @ js_to_lower s"
  by (simp add: js_string_eval)

lemma list_mount_store:
  "\<exists>ls. list_mount (store_server xs) cs = (cs, Some ls) \<and> list_reachable ls \<and> expenses ls = xs \<and>
        filtered_expenses ls = js_sort (expense_cmp Desc KDate) xs \<and>
        visible_rows ls = take 10 (js_sort (expense_cmp Desc KDate) xs)"
proof -
  let ?ls = "list_step init_list_state (ExpensesFetched xs)"
  have m: "list_mount (store_server xs) cs = (cs, Some ?ls)"
    by (simp add: list_mount_def fetch_expenses_def get_all_expenses_def api_data_def api_send_def
        store_server_def is_success_def decode_expenses_json)
  have r: "list_reachable ?ls" by (rule list_reachable.step [OF list_reachable.init]) simp
  have i: "filtered_expenses init_list_state = filter_expenses init_list_state (expenses init_list_state)"
    by (simp add: init_list_state_def filter_expenses_def apply_filters_def)
  have f: "filtered_expenses ?ls = filter_expenses ?ls xs"
    using list_step_shows_filtered [OF i, of "ExpensesFetched xs"] by (simp add: list_step_fields)
  have c: "search_term ?ls = []" "start_date ?ls = None" "end_date ?ls = None" "order ?ls = Desc"
    "order_by ?ls = KDate" "rows_per_page ?ls = 10" "page ?ls = 0" "expenses ?ls = xs"
    by (simp_all add: list_step_rows_per_page list_step_fields init_list_state_def)
  have "filtered_expenses ?ls = js_sort (expense_cmp Desc KDate) xs"
    using f c by (simp add: filter_expenses_def apply_filters_cleared)
  then show ?thesis
    using m r c by (simp add: visible_rows_def page_slice_take_drop)
qed

section \<open>Properties of the list page\<close>

text \<open>
  C30. The end-date filter compares with the start of the picked day (the date picker
  gives midnight): every expense later on the picked day is filtered out, while the
  between-dates request for the same day asks up to 23:59:59.
\<close>

theorem end_date_drops_last_day:
  assumes "end_date s = Some (Some (time_value y m d 0 0 0 0))"
    and "js_new_date (date e) = Some (time_value y m d h mi sec ms)"
    and "0 < h \<or> 0 < mi \<or> 0 < sec \<or> 0 < ms"
  shows "e \<notin> set (apply_filters s xs)"
proof -
  have "time_value y m d 0 0 0 0 < time_value y m d h mi sec ms"
    using assms(3) by (auto simp: time_value_def make_time_def)
  then show ?thesis using assms(1,2) by (auto simp: apply_filters_def Let_def)
qed

theorem end_date_drops_last_day_witness:
  "end_date (init_list_state\<lparr>end_date := Some (js_new_date ''2024-01-15'')\<rparr>) = Some (Some (time_value 2024 1 15 0 0 0 0)) \<and>
   js_new_date (date sample_coffee) = Some (time_value 2024 1 15 10 30 0 0) \<and>
   sample_coffee \<notin> set (apply_filters (init_list_state\<lparr>end_date := Some (js_new_date ''2024-01-15'')\<rparr>) [sample_coffee])"
proof -
  have h: "end_date (init_list_state\<lparr>end_date := Some (js_new_date ''2024-01-15'')\<rparr>) = Some (Some (time_value 2024 1 15 0 0 0 0))"
    "js_new_date (date sample_coffee) = Some (time_value 2024 1 15 10 30 0 0)"
    by (simp_all add: sample_coffee_def js_date_eval)
  show ?thesis using end_date_drops_last_day [OF h] h by simp
qed

text \<open>
  C31. Deleting sends nothing unless the user confirms; with a confirmed delete, a 2xx
  answer is followed by a fetch of the list, a 401 logs out and any other failure
  leaves the client state and the list as they were (only logged).
\<close>

theorem delete_outcomes:
  "handle_delete srv False cs i = (cs, DeleteCancelled) \<and>
   handle_delete (\<lambda>_. HttpResponse st b) True cs i =
     (if is_success st then (cs, DeleteRefetched (snd (fetch_expenses (\<lambda>_. HttpResponse st b) cs)))
      else (if st = 401 then logout cs else cs, DeleteFailed))"
  by (simp add: handle_delete_def delete_expense_def api_send_def fetch_expenses_def
      get_all_expenses_def api_data_def Let_def split: prod.split sum.split option.split)

text \<open>
  Decoding is the inverse of the interface's encoding: an encoded expense decodes
  to itself, and an object that decodes to an expense agrees with that expense's
  encoding on every member of the interface (other members are ignored).
\<close>

lemma decode_expense_roundtrip:
  "decode_expense (expense_json e) = Some e \<and>
   (decode_expense (JObj kvs) = Some e' \<longrightarrow>
      (\<forall>k\<in>set (map fst (expense_members e')). map_of (rev kvs) k = map_of (expense_members e') k))"
proof -
  have "decode_expense (JObj kvs) = Some e' \<Longrightarrow>
      (\<forall>k\<in>set (map fst (expense_members e')). map_of (rev kvs) k = map_of (expense_members e') k)"
    by (auto simp: expense_members_def dest!: decode_expense_SomeD json_field_inverse)
  then show ?thesis by (simp add: decode_expense_json)
qed

text \<open>
  C32. After a confirmed delete against a server holding \<open>xs\<close>, the page fetches
  \<open>xs\<close> and the view-model shows the filter of the current parameters over it.
\<close>

theorem delete_then_refetch:
  assumes "filtered_expenses ls = filter_expenses ls (expenses ls)"
  shows "handle_delete (store_server xs) True cs i = (cs, DeleteRefetched (FetchOk xs)) \<and>
         (\<exists>ls'. list_after_fetch ls (FetchOk xs) = Some ls' \<and> expenses ls' = xs \<and>
                filtered_expenses ls' = filter_expenses ls' xs)"
proof -
  have "handle_delete (store_server xs) True cs i = (cs, DeleteRefetched (FetchOk xs))"
    by (simp add: handle_delete_def delete_expense_def api_send_def fetch_expenses_def
        get_all_expenses_def api_data_def store_server_def is_success_def decode_expenses_json Let_def)
  moreover obtain fx where "list_step ls (ExpensesFetched xs) = (apply_event ls (ExpensesFetched xs))\<lparr>filtered_expenses := fx\<rparr>"
    using list_step_eq by blast
  moreover note list_step_shows_filtered [OF assms, of "ExpensesFetched xs"]
  ultimately show ?thesis by auto
qed

theorem delete_then_refetch_witness:
  "handle_delete (store_server [sample_coffee]) True
     \<lparr>stored_token = Some ''abc'', default_auth = Some ''Bearer abc'', location = ''/expenses''\<rparr> 1 =
     (\<lparr>stored_token = Some ''abc'', default_auth = Some ''Bearer abc'', location = ''/expenses''\<rparr>,
      DeleteRefetched (FetchOk [sample_coffee])) \<and>
   (\<exists>ls'. list_after_fetch init_list_state (FetchOk [sample_coffee]) = Some ls' \<and>
     expenses ls' = [sample_coffee] \<and> filtered_expenses ls' = filter_expenses ls' [sample_coffee])"
proof -
  have "filtered_expenses init_list_state = filter_expenses init_list_state (expenses init_list_state)"
    by (simp add: init_list_state_def filter_expenses_def apply_filters_def Let_def js_truthy_str_def)
  then show ?thesis by (rule delete_then_refetch)
qed

lemma those_eq_None_iff: "those xs = None \<longleftrightarrow> None \<in> set xs"
  by (induction xs) (auto split: option.splits)

text \<open>
  C33. The date column formats every visible row without a check: the table renders
  exactly when every visible expense's date string is read by \<open>new Date\<close>; one that
  gives Invalid Date makes \<open>format\<close> throw and the whole table fails.
\<close>

theorem bad_date_breaks_render:
  "render_dates s = None \<longleftrightarrow> (\<exists>e\<in>set (visible_rows s). js_new_date (date e) = None)"
  by (auto simp: render_dates_def row_date_label_def those_eq_None_iff image_iff)

theorem bad_date_breaks_render_witness:
  "render_dates (list_step init_list_state (ExpensesFetched [sample_coffee\<lparr>date := ''15/01/2024''\<rparr>])) = None \<and>
   sample_coffee\<lparr>date := ''15/01/2024''\<rparr> \<in> set (visible_rows (list_step init_list_state (ExpensesFetched [sample_coffee\<lparr>date := ''15/01/2024''\<rparr>])))"
proof -
  have v: "visible_rows (list_step init_list_state (ExpensesFetched [sample_coffee\<lparr>date := ''15/01/2024''\<rparr>])) =
            [sample_coffee\<lparr>date := ''15/01/2024''\<rparr>]"
    by (simp add: list_eval)
  have bad: "js_new_date ''15/01/2024'' = None"
    by (simp add: js_new_date_def iso_fields_def char_at_def)
  show ?thesis
    using bad_date_breaks_render [of "list_step init_list_state (ExpensesFetched [sample_coffee\<lparr>date := ''15/01/2024''\<rparr>])"] v bad
    by simp
qed

text \<open>
  C34. The edit button of any expense leads an authenticated user to the form, whose
  route parameter is the expense's id, and the form's \<open>fetchExpense\<close> requests exactly
  that expense: \<open>Number(String(id))\<close> gives the id back.
\<close>

theorem edit_link_opens_form:
  assumes "is_authenticated cs"
  shows "route (list_navigate cs (NavEdit i)) (location (list_navigate cs (NavEdit i))) =
           Render ExpenseFormPage \<and>
         route_id (location (list_navigate cs (NavEdit i))) = Some (string_of_int i) \<and>
         (\<forall>srv srv' fs. (\<forall>rq. rq_url rq = ''/v1/expenses/'' @ string_of_int i \<longrightarrow> srv rq = srv' rq) \<longrightarrow>
            fetch_expense srv cs fs (string_of_int i) = fetch_expense srv' cs fs (string_of_int i))"
proof -
  let ?p = "''/expenses/'' @ string_of_int i"
  note sd = string_of_int_last_digit [of i]
  have strip: "strip_trailing_slashes ?p = ?p"
  proof -
    have "last ?p \<noteq> CHR ''/''" using sd by (auto simp: js_is_digit_def)
    then have "dropWhile (\<lambda>c. c = CHR ''/'') (rev ?p) = rev ?p"
      using sd by (cases "rev ?p") (auto simp: last_rev [symmetric] dest: arg_cong[of _ _ hd])
    then show ?thesis by (simp add: strip_trailing_slashes_def)
  qed
  have low: "take 10 (js_to_lower ?p) = ''/expenses/''"
    unfolding js_to_lower_expenses_path by simp
  have notnew: "js_to_lower ?p \<noteq> ''/expenses/new''"
  proof
    assume "js_to_lower ?p = ''/expenses/new''"
    then have "js_to_lower (string_of_int i) = ''new''" unfolding js_to_lower_expenses_path by simp
    then have "length (string_of_int i) = 3 \<and> js_lower_char (hd (string_of_int i)) = CHR ''n''"
      by (cases "string_of_int i") (auto simp: js_to_lower_def)
    moreover have "hd (string_of_int i) = CHR ''-'' \<or> js_is_digit (hd (string_of_int i))"
      using string_of_nat_digits [of "nat (- i)"] string_of_nat_digits [of "nat i"]
      by (cases "string_of_nat (nat (- i))"; cases "string_of_nat (nat i)")
        (auto simp: string_of_int_def)
    ultimately show False by (auto simp: js_lower_char_def js_is_digit_def Let_def split: if_splits)
  qed
  have r: "route (list_navigate cs (NavEdit i)) ?p = Render ExpenseFormPage"
    using assms strip low notnew sd
    by (auto simp: route_def private_route_def is_authenticated_def Let_def js_number_string_int)
  have rid: "route_id ?p = Some (string_of_int i)"
    using strip low notnew sd by (simp add: route_id_def Let_def)
  have f: "\<forall>srv srv' fs. (\<forall>rq. rq_url rq = ''/v1/expenses/'' @ string_of_int i \<longrightarrow> srv rq = srv' rq) \<longrightarrow>
            fetch_expense srv cs fs (string_of_int i) = fetch_expense srv' cs fs (string_of_int i)"
    by (simp add: fetch_expense_def get_expense_by_id_def api_data_def api_send_def Let_def
        js_number_string_of_int js_number_string_int)
  show ?thesis using r rid f by (simp add: js_number_string_int)
qed

theorem edit_link_opens_form_witness:
  "route (list_navigate \<lparr>stored_token = Some ''abc'', default_auth = None, location = ''/expenses''\<rparr> (NavEdit 7))
     ''/expenses/7'' = Render ExpenseFormPage \<and>
   route_id (location (list_navigate \<lparr>stored_token = Some ''abc'', default_auth = None,
     location = ''/expenses''\<rparr> (NavEdit 7))) = Some ''7''"
proof -
  have a: "is_authenticated \<lparr>stored_token = Some ''abc'', default_auth = None, location = ''/expenses''\<rparr>"
    by (simp add: is_authenticated_def js_truthy_str_def)
  have n: "js_number_string 7 = ''7''"
    using js_number_string_int [of 7] by (simp add: string_of_int_def char_of_eq_iff)
  show ?thesis
    using edit_link_opens_form [OF a, of 7] n by (simp add: string_of_int_def char_of_eq_iff)
qed

end
