(* ===== verification/Dashboard.thy ===== *)
theory Dashboard
  imports Reports ListPage
begin

text \<open>
  The dashboard's load, \<open>fetchDashboardData\<close> of \<open>pages/Dashboard.tsx\<close> (lines 25--54),
  over the client: the month's expenses (\<open>getMonthlyReport\<close> with \<open>getFullYear\<close> and
  \<open>getMonth() + 1\<close>), all expenses, and the category report of the current month,
  whose bounds are \<open>format(new Date(y, m, 1), 'yyyy-MM-dd')\<close> and
  \<open>format(new Date(y, m + 1, 0), 'yyyy-MM-dd')\<close>. \<open>new Date(y, m, d)\<close> is ECMAScript's
  \<open>MakeDay\<close>: the month is reduced modulo 12 into the year, and day 0 is the day before
  the first of the month; a year from 0 to 99 means 1900 to 1999. Responses are read
  through the interfaces (\<open>decode_expenses\<close>, \<open>decode_category_reports\<close>); a body that
  does not have the declared shape is the outcome \<open>DashIllTyped\<close>. The lemmas show
  that the range is the first and the last day of the current month, also for February
  of a leap year and for December, and that the load refines \<open>dashboard_fetch\<close>.
\<close>

section \<open>Dates of the month range\<close>

text \<open>\<open>new Date(y, m, d)\<close> in the fixed time zone: \<open>MakeDay\<close>, \<open>MakeDate\<close>, \<open>TimeClip\<close>.\<close>

definition js_make_date :: "int \<Rightarrow> int \<Rightarrow> int \<Rightarrow> js_date" where
  "js_make_date y m d =
     (let yr = (if 0 \<le> y \<and> y \<le> 99 then 1900 + y else y);
          ym = yr + m div 12;
          mn = nat (m mod 12)
      in time_clip (of_int ((make_day ym (Suc mn) 1 + d - 1) * ms_per_day)))"

text \<open>date-fns' \<open>format(date, 'yyyy-MM-dd')\<close>; it throws \<open>RangeError\<close> on Invalid Date.\<close>

definition format_ymd :: "int \<Rightarrow> string" where
  "format_ymd t =
     format_year (year_from_time t) @ ''-'' @
     add_leading_zeros (int (month_from_time t)) 2 @ ''-'' @
     add_leading_zeros (int (date_from_time t)) 2"

definition format_date_ymd :: "js_date \<Rightarrow> string option" where
  "format_date_ymd dt = map_option format_ymd dt"

text \<open>Lines 44--45, with \<open>now\<close> the time value of \<open>new Date()\<close> (line 29).\<close>

definition dashboard_month_range :: "int \<Rightarrow> (string \<times> string) option" where
  "dashboard_month_range now =
     (let y = year_from_time now; m = int (month_from_time now) - 1
      in case format_date_ymd (js_make_date y m 1) of
           None \<Rightarrow> None
         | Some sd \<Rightarrow>
             (case format_date_ymd (js_make_date y (m + 1) 0) of
                None \<Rightarrow> None
              | Some ed \<Rightarrow> Some (sd, ed)))"

section \<open>Reading the category report\<close>

text \<open>The \<open>ExpenseCategoryReport\<close> interface (\<open>types.ts\<close>, lines 29--33).\<close>

definition decode_category_report :: "json \<Rightarrow> expense_category_report option" where
  "decode_category_report j =
     (case j of
        JObj kvs \<Rightarrow>
          (let g = map_of (rev kvs)
           in case (json_str (g ''category''), json_int (g ''count''), json_rat (g ''totalAmount'')) of
                (Some c, Some n, Some a) \<Rightarrow>
                  Some \<lparr>report_category = c, report_count = n, total_amount = a\<rparr>
              | _ \<Rightarrow> None)
      | _ \<Rightarrow> None)"

definition decode_category_reports :: "json option \<Rightarrow> expense_category_report list option" where
  "decode_category_reports d =
     (case d of Some (JArr xs) \<Rightarrow> those (map decode_category_report xs) | _ \<Rightarrow> None)"

section \<open>fetchDashboardData\<close>

datatype dash_outcome = DashLoaded | DashFailed | DashIllTyped

text \<open>
  Lines 26--51: each step runs after the previous one returned; the first exception
  (a failed call, or \<open>format\<close>'s \<open>RangeError\<close>) ends the load in the \<open>catch\<close>, which
  only logs, so the setters already run stay in effect.
\<close>

definition fetch_dashboard_data ::
  "server \<Rightarrow> client_state \<Rightarrow> int \<Rightarrow> dashboard_state \<Rightarrow> client_state \<times> dashboard_state \<times> dash_outcome"
  where
  "fetch_dashboard_data srv cs now st =
     (let y = year_from_time now; m = int (month_from_time now) - 1
      in case get_monthly_report srv cs y (m + 1) of
           (cs1, Inl _) \<Rightarrow> (cs1, st, DashFailed)
         | (cs1, Inr d1) \<Rightarrow>
             (case decode_expenses d1 of
                None \<Rightarrow> (cs1, st, DashIllTyped)
              | Some ms \<Rightarrow>
                  (let st1 = st\<lparr>dash_monthly_total := monthly_total ms\<rparr>
                   in case get_all_expenses srv cs1 of
                        (cs2, Inl _) \<Rightarrow> (cs2, st1, DashFailed)
                      | (cs2, Inr d2) \<Rightarrow>
                          (case decode_expenses d2 of
                             None \<Rightarrow> (cs2, st1, DashIllTyped)
                           | Some xs \<Rightarrow>
                               (let st2 = st1\<lparr>dash_recent := recent_expenses xs\<rparr>
                                in case dashboard_month_range now of
                                     None \<Rightarrow> (cs2, st2, DashFailed)
                                   | Some (sd, ed) \<Rightarrow>
                                       (case get_category_report srv cs2 sd ed of
                                          (cs3, Inl _) \<Rightarrow> (cs3, st2, DashFailed)
                                        | (cs3, Inr d3) \<Rightarrow>
                                            (case decode_category_reports d3 of
                                               None \<Rightarrow> (cs3, st2, DashIllTyped)
                                             | Some cats \<Rightarrow>
                                                 (cs3, st2\<lparr>dash_categories := cats\<rparr>, DashLoaded))))))))"

text \<open>The mount effect (line 53--54): one load from the initial state.\<close>

definition dashboard_mount :: "server \<Rightarrow> client_state \<Rightarrow> int \<Rightarrow> client_state \<times> dashboard_state \<times> dash_outcome"
  where "dashboard_mount srv cs now = fetch_dashboard_data srv cs now dashboard_init"

section \<open>Specification helpers\<close>

text \<open>The text \<open>yyyy-MM-dd\<close> of a calendar day.\<close>

definition iso_ymd :: "int \<Rightarrow> nat \<Rightarrow> nat \<Rightarrow> string" where
  "iso_ymd y m d = format_year y @ ''-'' @ add_leading_zeros (int m) 2 @ ''-'' @ add_leading_zeros (int d) 2"

text \<open>The JSON the server sends for a category row, and a response carrying \<open>data\<close>.\<close>

definition report_json :: "expense_category_report \<Rightarrow> json" where
  "report_json r =
     JObj [(''category'', JStr (report_category r)), (''count'', JNum (of_int (report_count r))),
           (''totalAmount'', JNum (total_amount r))]"

definition data_response :: "json list \<Rightarrow> http_result" where
  "data_response js = HttpResponse 200 (JObj [(''data'', JArr js)])"

text \<open>
  A server that answers only the requests of month \<open>m\<close> of year \<open>y\<close>: the monthly
  report of that month, the list, and the category report of exactly that month's days;
  anything else is a bad request.
\<close>

definition month_server ::
  "int \<Rightarrow> nat \<Rightarrow> expense list \<Rightarrow> expense list \<Rightarrow> expense_category_report list \<Rightarrow> server" where
  "month_server y m ms xs cats =
     (\<lambda>rq. if rq_method rq = GET \<and> rq_url rq = ''/v1/expenses/reports/monthly'' \<and>
              rq_params rq = [(''year'', string_of_int y), (''month'', string_of_int (int m))]
           then data_response (map expense_json ms)
           else if rq_method rq = GET \<and> rq_url rq = ''/v1/expenses'' \<and> rq_params rq = []
           then data_response (map expense_json xs)
           else if rq_method rq = GET \<and> rq_url rq = ''/v1/expenses/reports/category'' \<and>
              rq_params rq = day_range_params (iso_ymd y m 1) (iso_ymd y m (days_in_month y m))
           then data_response (map report_json cats)
           else HttpResponse 400 JNull)"

section \<open>Lemmas on the month range\<close>

lemma time_clip_int: "\<bar>t\<bar> \<le> 8640000000000000 \<Longrightarrow> time_clip (of_int t) = Some t"
proof -
  assume "\<bar>t\<bar> \<le> 8640000000000000"
  then have "\<not> 8640000000000000 < \<bar>(of_int t :: rat)\<bar>"
    by (simp only: of_int_abs [symmetric] not_less)
  then show ?thesis by (simp add: time_clip_def)
qed

lemma day_from_year_range:
  "100 \<le> y \<Longrightarrow> y \<le> 10000 \<Longrightarrow> - 700000 \<le> day_from_year y \<and> day_from_year y \<le> 3000000"
  using day_from_year_mono [of 100 y] day_from_year_mono [of y 10000]
  by (simp add: day_from_year_def)

lemma make_day_clip:
  assumes "100 \<le> y" "y \<le> 10000" "1 \<le> m" "m \<le> 12" "e \<in> {-1, 0}"
  shows "time_clip (of_int ((make_day y m 1 + e) * ms_per_day)) = Some ((make_day y m 1 + e) * ms_per_day)"
proof -
  have "days_before_month y 12 \<le> 335"
    by (simp add: days_before_month_table)
  then have "days_before_month y m \<le> 335"
    using assms(3,4) days_before_month_mono [of m 12 y] by simp
  then have "\<bar>make_day y m 1 + e\<bar> \<le> 3001000"
    using day_from_year_range [OF assms(1,2)] assms(5) by (auto simp: make_day_def)
  then have "\<bar>(make_day y m 1 + e) * ms_per_day\<bar> \<le> 3001000 * 86400000"
    by (simp add: abs_mult ms_per_day_def)
  then show ?thesis by (intro time_clip_int) simp
qed

lemma time_value_midnight: "time_value y m d 0 0 0 0 = make_day y m d * ms_per_day"
  by (simp add: time_value_def make_time_def)

lemma js_make_date_first:
  assumes "100 \<le> y" "y \<le> 9999" "1 \<le> mo" "mo \<le> 12"
  shows "js_make_date y (int mo - 1) 1 = Some (time_value y mo 1 0 0 0 0)"
proof -
  have "(int mo - 1) div 12 = 0" "nat ((int mo - 1) mod 12) = mo - 1"
    using assms(3,4) by simp_all
  moreover have "Suc (mo - 1) = mo" using assms(3) by simp
  ultimately show ?thesis
    using assms make_day_clip [of y mo 0] by (simp add: js_make_date_def time_value_midnight)
qed

lemma make_day_last:
  assumes "1 \<le> mo" "mo \<le> 12"
  shows "make_day (y + int mo div 12) (Suc (nat (int mo mod 12))) 1 - 1 =
         make_day y mo (days_in_month y mo)"
proof (cases "mo = 12")
  case True
  have "make_day (y + 1) 1 1 - 1 = day_from_year y + days_in_year y - 1"
    by (simp add: make_day_def day_from_year_succ days_before_month_table)
  also have "\<dots> = make_day y 12 (days_in_month y 12)"
    using days_before_month_end [of y] by (simp add: make_day_def)
  finally show ?thesis using True by simp
next
  case False
  then have "int mo div 12 = 0" "nat (int mo mod 12) = mo" using assms by simp_all
  then show ?thesis using days_before_month_Suc [OF assms(1), of y] by (simp add: make_day_def)
qed

lemma js_make_date_last:
  assumes "100 \<le> y" "y \<le> 9999" "1 \<le> mo" "mo \<le> 12"
  shows "js_make_date y (int mo) 0 = Some (time_value y mo (days_in_month y mo) 0 0 0 0)"
proof -
  have "js_make_date y (int mo) 0 =
        time_clip (of_int ((make_day (y + int mo div 12) (Suc (nat (int mo mod 12))) 1 + -1) * ms_per_day))"
    using assms(1) by (simp add: js_make_date_def)
  also have "\<dots> = Some ((make_day (y + int mo div 12) (Suc (nat (int mo mod 12))) 1 + -1) * ms_per_day)"
    using assms by (intro make_day_clip) (auto simp: nat_less_iff)
  finally show ?thesis using make_day_last [OF assms(3,4), of y] by (simp add: time_value_midnight)
qed

lemma format_ymd_time_value:
  assumes "1 \<le> m" "m \<le> 12" "1 \<le> d" "d \<le> days_in_month y m"
  shows "format_ymd (time_value y m d 0 0 0 0) = iso_ymd y m d"
  using time_value_fields [OF assms, of 0 0 0 0] by (simp add: format_ymd_def iso_ymd_def)

lemma days_in_month_pos: "1 \<le> days_in_month y m"
  by (simp add: days_in_month_def)

lemma dashboard_month_range_current:
  assumes "100 \<le> year_from_time now" "year_from_time now \<le> 9999"
  shows "dashboard_month_range now =
           Some (iso_ymd (year_from_time now) (month_from_time now) 1,
                 iso_ymd (year_from_time now) (month_from_time now)
                   (days_in_month (year_from_time now) (month_from_time now)))"
proof -
  define Y where "Y = year_from_time now"
  define M where "M = month_from_time now"
  have M: "1 \<le> M" "M \<le> 12" using date_fields_bounds [of now] by (simp_all add: M_def)
  have Y: "100 \<le> Y" "Y \<le> 9999" using assms by (simp_all add: Y_def)
  have "int M - 1 + 1 = int M" by simp
  then show ?thesis
    using js_make_date_first [OF Y M] js_make_date_last [OF Y M]
      format_ymd_time_value [OF M order_refl days_in_month_pos] format_ymd_time_value [OF M days_in_month_pos order_refl]
    by (simp add: dashboard_month_range_def format_date_ymd_def Let_def days_in_month_pos
        flip: Y_def M_def)
qed


lemma time_value_mod_1000: "time_value y m d h mi s 0 mod 1000 = 0"
proof -
  have "(1000::int) dvd make_day y m d * 86400000" by (simp add: dvd_mult)
  moreover have "(1000::int) dvd int (((h * 60 + mi) * 60 + s) * 1000)" by simp
  ultimately have "(1000::int) dvd time_value y m d h mi s 0"
    by (simp add: time_value_def make_time_def ms_per_day_def)
  then show ?thesis by simp
qed

lemma add_leading_zeros_clock:
  "add_leading_zeros 0 2 = ''00''" "add_leading_zeros 23 2 = ''23''" "add_leading_zeros 59 2 = ''59''"
  by (simp_all add: add_leading_zeros_def char_of_eq_iff)

lemma parse_time_value:
  assumes "1 \<le> y" "y \<le> 9999" "1 \<le> m" "m \<le> 12" "1 \<le> d" "d \<le> days_in_month y m"
    "h < 24" "mi < 60" "s < 60"
  shows "js_new_date (iso_ymd y m d @ ''T'' @ add_leading_zeros (int h) 2 @ '':'' @
            add_leading_zeros (int mi) 2 @ '':'' @ add_leading_zeros (int s) 2) =
         Some (time_value y m d h mi s 0)"
proof -
  note f = time_value_fields [where ms = 0, OF assms(3-9), simplified]
  have "format_time (time_value y m d h mi s 0) =
        iso_ymd y m d @ ''T'' @ add_leading_zeros (int h) 2 @ '':'' @
        add_leading_zeros (int mi) 2 @ '':'' @ add_leading_zeros (int s) 2"
    using f by (simp add: format_time_def iso_ymd_def)
  moreover have "js_new_date (format_time (time_value y m d h mi s 0)) = Some (time_value y m d h mi s 0)"
    using format_then_parse [of "time_value y m d h mi s 0"] f assms(1,2) time_value_mod_1000 by simp
  ultimately show ?thesis by simp
qed

lemma time_within_month:
  "time_value (year_from_time t) (month_from_time t) 1 0 0 0 0 \<le> t \<and>
   t < time_value (year_from_time t) (month_from_time t)
         (days_in_month (year_from_time t) (month_from_time t)) 23 59 59 0 + 1000"
proof -
  define Y where "Y = year_from_time t"
  define M where "M = month_from_time t"
  define D where "D = date_from_time t"
  define L where "L = days_in_month Y M"
  have b: "1 \<le> D" "D \<le> L" "make_day Y M D = day_of_time t"
    using date_fields_bounds [of t] by (simp_all add: Y_def M_def D_def L_def)
  have t: "t = day_of_time t * ms_per_day + time_in_day t"
    by (simp add: day_of_time_def time_in_day_def)
  have r: "0 \<le> time_in_day t" "time_in_day t < ms_per_day"
    by (simp_all add: time_in_day_def ms_per_day_def)
  have d: "make_day Y M 1 \<le> day_of_time t" "day_of_time t + 1 \<le> make_day Y M L + 1"
    using b by (simp_all add: make_day_def flip: b(3))
  have "make_day Y M 1 * ms_per_day \<le> day_of_time t * ms_per_day"
    using d(1) by (rule mult_right_mono) (simp add: ms_per_day_def)
  moreover have "(day_of_time t + 1) * ms_per_day \<le> (make_day Y M L + 1) * ms_per_day"
    using d(2) by (rule mult_right_mono) (simp add: ms_per_day_def)
  moreover have "time_value Y M L 23 59 59 0 + 1000 = (make_day Y M L + 1) * ms_per_day"
    by (simp add: time_value_def make_time_def ms_per_day_def algebra_simps)
  moreover have "time_value Y M 1 0 0 0 0 = make_day Y M 1 * ms_per_day"
    by (rule time_value_midnight)
  moreover have "(day_of_time t + 1) * ms_per_day = day_of_time t * ms_per_day + ms_per_day"
    by (simp add: distrib_right)
  ultimately have "time_value Y M 1 0 0 0 0 \<le> t \<and> t < time_value Y M L 23 59 59 0 + 1000"
    using t r by linarith
  then show ?thesis by (simp add: Y_def M_def L_def)
qed

lemma decode_category_report_json: "decode_category_report (report_json r) = Some r"
  by (simp add: decode_category_report_def report_json_def json_int_def json_rat_def json_str_def)

lemma decode_category_reports_json:
  "decode_category_reports (Some (JArr (map report_json cats))) = Some cats"
  by (induction cats) (simp_all add: decode_category_reports_def decode_category_report_json)

lemma dashboard_fetch_loaded:
  "dashboard_fetch (Some ms) (Some xs) (Some cats) dashboard_init =
     \<lparr>dash_recent = take 5 xs, dash_monthly_total = sum_list (map amount ms), dash_categories = cats\<rparr>"
  by (simp add: dashboard_fetch_def dashboard_init_def recent_expenses_def js_slice_from_zero
      monthly_total_def foldl_amount_shift)

lemmas dashboard_request_defs =
  get_monthly_report_def get_all_expenses_def get_category_report_def api_data_def api_send_def
  data_response_def is_success_def

text \<open>
  C5. The dashboard's category report asks for the current month: with \<open>now\<close> in a year
  from 100 to 9999 (below 100 \<open>new Date(y, m, d)\<close> reads the year as \<open>1900 + y\<close>), the
  two \<open>format\<close> calls give the first and the last day of \<open>now\<close>'s month, February of a
  leap year and December included; read back as the request parameters
  \<open>T00:00:00\<close> and \<open>T23:59:59\<close>, they are the first instant and the last second of
  that month, and \<open>now\<close> lies between them.
\<close>

theorem dashboard_range_is_current_month:
  assumes "100 \<le> year_from_time now" "year_from_time now \<le> 9999"
  shows "\<exists>sd ed. dashboard_month_range now = Some (sd, ed) \<and>
           map (\<lambda>(k, v). (k, js_new_date v)) (day_range_params sd ed) =
             [(''startDate'', Some (time_value (year_from_time now) (month_from_time now) 1 0 0 0 0)),
              (''endDate'', Some (time_value (year_from_time now) (month_from_time now)
                 (days_in_month (year_from_time now) (month_from_time now)) 23 59 59 0))] \<and>
           time_value (year_from_time now) (month_from_time now) 1 0 0 0 0 \<le> now \<and>
           now < time_value (year_from_time now) (month_from_time now)
                   (days_in_month (year_from_time now) (month_from_time now)) 23 59 59 0 + 1000"
proof -
  define Y where "Y = year_from_time now"
  define M where "M = month_from_time now"
  have M: "1 \<le> M" "M \<le> 12" using date_fields_bounds [of now] by (simp_all add: M_def)
  have Y: "1 \<le> Y" "Y \<le> 9999" using assms by (simp_all add: Y_def)
  have p1: "js_new_date (iso_ymd Y M 1 @ ''T00:00:00'') = Some (time_value Y M 1 0 0 0 0)"
    using parse_time_value [OF Y M order_refl days_in_month_pos, of 0 0 0]
    by (simp add: add_leading_zeros_clock)
  have p2: "js_new_date (iso_ymd Y M (days_in_month Y M) @ ''T23:59:59'') =
            Some (time_value Y M (days_in_month Y M) 23 59 59 0)"
    using parse_time_value [OF Y M days_in_month_pos order_refl, of 23 59 59]
    by (simp add: add_leading_zeros_clock)
  show ?thesis
    using dashboard_month_range_current [OF assms] p1 p2 time_within_month [of now]
    by (simp add: day_range_params_def flip: Y_def M_def)
qed


theorem dashboard_range_is_current_month_witness:
  "year_from_time (time_value 2024 2 10 12 0 0 0) = 2024 \<and>
   month_from_time (time_value 2024 2 10 12 0 0 0) = 2 \<and>
   (\<exists>sd ed. dashboard_month_range (time_value 2024 2 10 12 0 0 0) = Some (sd, ed) \<and>
      map (\<lambda>(k, v). (k, js_new_date v)) (day_range_params sd ed) =
        [(''startDate'', Some (time_value 2024 2 1 0 0 0 0)),
         (''endDate'', Some (time_value 2024 2 29 23 59 59 0))])"
proof -
  have f: "year_from_time (time_value 2024 2 10 12 0 0 0) = 2024"
    "month_from_time (time_value 2024 2 10 12 0 0 0) = 2"
    using time_value_fields [of 2 10 2024 12 0 0 0] by (simp_all add: days_in_month_def is_leap_year_def)
  have l: "days_in_month 2024 2 = 29" by (simp add: days_in_month_def is_leap_year_def)
  show ?thesis
    using dashboard_range_is_current_month [of "time_value 2024 2 10 12 0 0 0"] f l by auto
qed


text \<open>
  C24. The dashboard's load refines \<open>dashboard_fetch\<close>: against a server that answers
  only the requests of \<open>now\<close>'s month (so the monthly report is asked for
  \<open>getMonth() + 1\<close> and the category report for that month's first and last day),
  every call succeeds and the page shows the sum of the month's amounts, the first five
  expenses and the category rows, which is \<open>dashboard_fetch\<close> of the three decoded
  responses. When the first call answers 401 the client logs out and nothing is shown.
\<close>

theorem dashboard_loads_current_month:
  assumes "100 \<le> year_from_time now" "year_from_time now \<le> 9999"
  shows "dashboard_mount (month_server (year_from_time now) (month_from_time now) ms xs cats) cs now =
           (cs, \<lparr>dash_recent = take 5 xs, dash_monthly_total = sum_list (map amount ms),
                 dash_categories = cats\<rparr>, DashLoaded) \<and>
         fst (snd (dashboard_mount (month_server (year_from_time now) (month_from_time now) ms xs cats)
                     cs now)) =
           dashboard_fetch (Some ms) (Some xs) (Some cats) dashboard_init \<and>
         dashboard_mount (\<lambda>_. HttpResponse 401 JNull) cs now = (logout cs, dashboard_init, DashFailed)"
proof -
  have r: "dashboard_month_range now =
      Some (iso_ymd (year_from_time now) (month_from_time now) 1,
            iso_ymd (year_from_time now) (month_from_time now)
              (days_in_month (year_from_time now) (month_from_time now)))"
    by (rule dashboard_month_range_current [OF assms])
  have m: "int (month_from_time now) - 1 + 1 = int (month_from_time now)" by simp
  have l: "dashboard_mount (month_server (year_from_time now) (month_from_time now) ms xs cats) cs now =
           (cs, dashboard_fetch (Some ms) (Some xs) (Some cats) dashboard_init, DashLoaded)"
    by (simp add: dashboard_mount_def fetch_dashboard_data_def Let_def m r dashboard_request_defs
        month_server_def decode_expenses_json decode_category_reports_json dashboard_fetch_def
        dashboard_init_def)
  have f: "dashboard_mount (\<lambda>_. HttpResponse 401 JNull) cs now = (logout cs, dashboard_init, DashFailed)"
    by (simp add: dashboard_mount_def fetch_dashboard_data_def Let_def dashboard_request_defs)
  show ?thesis using l f by (simp add: dashboard_fetch_loaded)
qed

theorem dashboard_loads_current_month_witness:
  "100 \<le> year_from_time (time_value 2024 12 31 23 0 0 0) \<and>
   year_from_time (time_value 2024 12 31 23 0 0 0) \<le> 9999 \<and>
   dashboard_mount (month_server 2024 12 [sample_gas] [sample_gas, sample_coffee] [])
     \<lparr>stored_token = Some ''abc'', default_auth = Some ''Bearer abc'', location = ''/''\<rparr>
     (time_value 2024 12 31 23 0 0 0) =
   (\<lparr>stored_token = Some ''abc'', default_auth = Some ''Bearer abc'', location = ''/''\<rparr>,
    \<lparr>dash_recent = [sample_gas, sample_coffee], dash_monthly_total = 40, dash_categories = []\<rparr>,
    DashLoaded)"
proof -
  have f: "year_from_time (time_value 2024 12 31 23 0 0 0) = 2024"
    "month_from_time (time_value 2024 12 31 23 0 0 0) = 12"
    using time_value_fields [of 12 31 2024 23 0 0 0] by (simp_all add: days_in_month_def)
  show ?thesis
    using dashboard_loads_current_month [of "time_value 2024 12 31 23 0 0 0" "[sample_gas]"
        "[sample_gas, sample_coffee]" "[]"] f
    by (simp add: sample_gas_def)
qed

end
