(* ===== verification/Render.thy ===== *)
theory Render
  imports Dashboard JsFixed
begin

text \<open>
  What the reports page and the dashboard print, and the buttons that navigate away
  from the dashboard and the form. Every amount is printed as \<open>${x.toFixed(2)}\<close>
  (\<open>money_text\<close>); a date through date-fns' \<open>format\<close>, which throws on Invalid Date
  and so aborts the rendering (\<open>None\<close>); a count as \<open>String\<close> of a number. The lemmas
  show that every amount text reads back, with \<open>Number\<close>, within half a cent of the
  amount and exactly for amounts in whole cents, that each button leads to a route
  of \<open>App.tsx\<close> that renders a page for a signed-in user, that the dashboard's month
  label names the month it requests, and that the reports page's headings follow the
  selection while a late response of an older run fills the table below them.
\<close>

section \<open>Amounts and dates\<close>

definition money_text :: "js_num \<Rightarrow> string option" where
  "money_text x = map_option (\<lambda>s. ''$'' @ s) (js_to_fixed 2 x)"

text \<open>\<open>format(new Date(expense.date), 'MMM dd')\<close> (\<open>Reports.tsx\<close>, line 139).\<close>

definition short_date_label :: "string \<Rightarrow> string option" where
  "short_date_label s =
     map_option (\<lambda>t. month_abbrev (month_from_time t) @ '' '' @ add_leading_zeros (int (date_from_time t)) 2)
       (js_new_date s)"

section \<open>The reports page\<close>

record month_row =
  mr_date :: string
  mr_description :: string
  mr_category :: string
  mr_amount :: string

text \<open>A row of the month's table (lines 136--147).\<close>

definition render_month_row :: "expense \<Rightarrow> month_row option" where
  "render_month_row e =
     (case (short_date_label (date e), money_text (JsNum (amount e))) of
        (Some d, Some a) \<Rightarrow>
          Some \<lparr>mr_date = d, mr_description = description e, mr_category = category e, mr_amount = a\<rparr>
      | _ \<Rightarrow> None)"

text \<open>The month's table with its total line (lines 136--156).\<close>

definition render_month_table :: "reports_state \<Rightarrow> (month_row list \<times> string) option" where
  "render_month_table st =
     (case those (map render_month_row (monthly_expenses st)) of
        None \<Rightarrow> None
      | Some rows \<Rightarrow> map_option (\<lambda>t. (rows, t)) (money_text (JsNum (calculate_total (monthly_expenses st)))))"

record category_row =
  cr_category :: string
  cr_total :: string
  cr_count :: string
  cr_average :: string

text \<open>A row of the category summary (lines 181--192): total, count and average.\<close>

definition render_category_row :: "expense_category_report \<Rightarrow> category_row option" where
  "render_category_row c =
     (case (money_text (JsNum (total_amount c)), money_text (category_average c)) of
        (Some t, Some a) \<Rightarrow>
          Some \<lparr>cr_category = report_category c, cr_total = t,
                cr_count = js_number_string (of_int (report_count c)), cr_average = a\<rparr>
      | _ \<Rightarrow> None)"

definition render_category_table :: "reports_state \<Rightarrow> category_row list option" where
  "render_category_table st = those (map render_category_row (category_report st))"

text \<open>The yearly summary (lines 199--211).\<close>

definition render_yearly_summary :: "reports_state \<Rightarrow> (string \<times> string) option" where
  "render_yearly_summary st =
     (case (money_text (JsNum (calculate_total (yearly_expenses st))),
            money_text (monthly_average (yearly_expenses st))) of
        (Some t, Some a) \<Rightarrow> Some (''Total: '' @ t, ''Monthly Average: '' @ a)
      | _ \<Rightarrow> None)"

text \<open>The three headings (lines 122--124, 167--169, 202--204): \<open>months.find(...)?.label\<close> prints nothing when no month matches.\<close>

definition month_heading :: "reports_state \<Rightarrow> string" where
  "month_heading st =
     ''Monthly Summary ('' @ (case month_label (selected_month st) of Some l \<Rightarrow> l | None \<Rightarrow> []) @
     '' '' @ string_of_int (selected_year st) @ '')''"

definition category_heading :: "reports_state \<Rightarrow> string" where
  "category_heading st = ''Category Summary ('' @ string_of_int (selected_year st) @ '')''"

definition yearly_heading :: "reports_state \<Rightarrow> string" where
  "yearly_heading st = ''Yearly Summary ('' @ string_of_int (selected_year st) @ '')''"

section \<open>The dashboard\<close>

text \<open>The monthly total (line 66).\<close>

definition dashboard_total_text :: "dashboard_state \<Rightarrow> string option" where
  "dashboard_total_text st = money_text (JsNum (dash_monthly_total st))"

text \<open>
  date-fns' \<open>MMMM\<close> (the month's full name in the default English locale) and the card's
  label \<open>format(new Date(), 'MMMM yyyy')\<close> (line 69) at the time \<open>now\<close>; the card of lines
  59--71 is its title, the total and the label.
\<close>

definition month_name :: "nat \<Rightarrow> string" where
  "month_name m =
     [''January'', ''February'', ''March'', ''April'', ''May'', ''June'', ''July'', ''August'',
      ''September'', ''October'', ''November'', ''December''] ! (m - 1)"

definition dashboard_month_text :: "int \<Rightarrow> string" where
  "dashboard_month_text now = month_name (month_from_time now) @ '' '' @ format_year (year_from_time now)"

definition dashboard_month_card :: "int \<Rightarrow> dashboard_state \<Rightarrow> (string \<times> string \<times> string) option" where
  "dashboard_month_card now st =
     map_option (\<lambda>t. (''Monthly Total'', t, dashboard_month_text now)) (dashboard_total_text st)"


text \<open>The top categories (lines 81--88): the category and \<open>$total (count expenses)\<close>.\<close>

definition dashboard_top_lines :: "dashboard_state \<Rightarrow> (string \<times> string) list option" where
  "dashboard_top_lines st =
     those (map (\<lambda>c. map_option (\<lambda>t. (report_category c,
                                      t @ '' ('' @ js_number_string (of_int (report_count c)) @ '' expenses)''))
                                (money_text (JsNum (total_amount c))))
                (dashboard_top st))"

text \<open>The recent expenses (lines 123--136): description, \<open>MMM dd, yyyy - category\<close>, amount.\<close>

definition dashboard_recent_lines :: "dashboard_state \<Rightarrow> (string \<times> string \<times> string) list option" where
  "dashboard_recent_lines st =
     those (map (\<lambda>e. case (row_date_label (date e), money_text (JsNum (amount e))) of
                       (Some d, Some a) \<Rightarrow> Some (description e, d @ '' - '' @ category e, a)
                     | _ \<Rightarrow> None)
                (dash_recent st))"

section \<open>Navigation buttons\<close>

datatype dashboard_button = AddNewExpense | ViewReports | ViewAllExpenses

text \<open>
  The dashboard's quick actions (lines 99--111) and its \<open>View All Expenses\<close> button,
  shown only when there are recent expenses (lines 138--146); a button that is not
  shown sends nothing.
\<close>

fun button_shown :: "dashboard_state \<Rightarrow> dashboard_button \<Rightarrow> bool" where
  "button_shown st ViewAllExpenses = (dash_recent st \<noteq> [])"
| "button_shown st _ = True"

fun button_target :: "dashboard_button \<Rightarrow> string" where
  "button_target AddNewExpense = ''/expenses/new''"
| "button_target ViewReports = ''/reports''"
| "button_target ViewAllExpenses = ''/expenses''"

definition press_button :: "dashboard_state \<Rightarrow> client_state \<Rightarrow> dashboard_button \<Rightarrow> client_state" where
  "press_button st cs b = (if button_shown st b then cs\<lparr>location := button_target b\<rparr> else cs)"

text \<open>The form's \<open>Cancel\<close> button (\<open>ExpenseForm.tsx\<close>, lines 241--247).\<close>

definition form_cancel :: "client_state \<Rightarrow> client_state" where
  "form_cancel cs = cs\<lparr>location := ''/expenses''\<rparr>"

section \<open>The form's view\<close>

text \<open>The title and the submit button (\<open>ExpenseForm.tsx\<close>, lines 149 and 239).\<close>

definition form_title :: "form_state \<Rightarrow> string" where
  "form_title fs =
     (if (case fs_id fs of Some i \<Rightarrow> js_truthy_str i | None \<Rightarrow> False) then ''Edit Expense''
      else ''Add New Expense'')"

definition submit_label :: "form_state \<Rightarrow> string" where
  "submit_label fs =
     (if (case fs_id fs of Some i \<Rightarrow> js_truthy_str i | None \<Rightarrow> False) then ''Update'' else ''Add'') @
     '' Expense''"

record field_view =
  fv_label :: string
  fv_error :: bool
  fv_helper :: string

text \<open>The four fields with \<open>error={!!errors.x}\<close> and \<open>helperText={errors.x}\<close> (lines 154--212).\<close>

definition field_views :: "form_state \<Rightarrow> field_view list" where
  "field_views fs =
     map (\<lambda>(l, e). \<lparr>fv_label = l, fv_error = js_truthy_str e, fv_helper = e\<rparr>)
       [(''Amount'', err_amount (fs_errors fs)), (''Description'', err_description (fs_errors fs)),
        (''Category'', err_category (fs_errors fs)), (''Payment Method'', err_payment_method (fs_errors fs))]"

text \<open>\<open>String.prototype.replace\<close> with a string pattern: the first occurrence only.\<close>

fun js_replace_first :: "string \<Rightarrow> string \<Rightarrow> string \<Rightarrow> string" where
  "js_replace_first p r [] = (if p = [] then r else [])"
| "js_replace_first p r (c # cs) =
     (if take (length p) (c # cs) = p then r @ drop (length p) (c # cs)
      else c # js_replace_first p r cs)"

text \<open>The payment method menu (lines 208--212): \<open>method.replace('_', ' ')\<close>.\<close>

definition payment_menu :: "(string \<times> string) list" where
  "payment_menu = map (\<lambda>m. (m, js_replace_first ''_'' '' '' m)) payment_method_values"

section \<open>The reports page's selects\<close>

text \<open>
  The year and month selects (\<open>Reports.tsx\<close>, lines 86--113) offer the years of
  \<open>years\<close> and the months of \<open>months\<close>; their \<open>onChange\<close> sets the selection to the
  chosen menu value (\<open>Number\<close> of a number is the number).
\<close>

fun reports_ui_event :: "int \<Rightarrow> reports_event \<Rightarrow> bool" where
  "reports_ui_event current (SelectYear y) = (y \<in> set (report_years current))"
| "reports_ui_event current (SelectMonth m) = (m \<in> fst ` set months)"
| "reports_ui_event current (Arrive _ _) = True"

section \<open>Lemmas\<close>

lemma money_text_read_back:
  assumes "\<bar>r\<bar> < 10 ^ 21"
  shows "\<exists>s q. money_text (JsNum r) = Some (''$'' @ s) \<and> js_number s = JsNum q \<and>
           \<bar>q - r\<bar> \<le> 1 / 200 \<and> (\<forall>c. r * 100 = of_int c \<longrightarrow> q = r)"
proof -
  define q where "q = sgn r * of_nat (fixed_round 2 \<bar>r\<bar>) / 10 ^ 2"
  obtain t where t: "js_to_fixed 2 (JsNum r) = Some t" "js_number t = JsNum q"
    using js_to_fixed_readback [of 2 r] assms by (auto simp: q_def)
  have "\<bar>q - r\<bar> \<le> 1 / 200"
    using fixed_round_close [of r 2] by (simp add: q_def)
  moreover have "\<forall>c. r * 100 = of_int c \<longrightarrow> q = r"
    using fixed_round_exact [of r 2] by (simp add: q_def)
  ultimately show ?thesis using t by (auto simp: money_text_def)
qed

lemma those_map_Some:
  "(\<forall>x\<in>set xs. f x \<noteq> None) \<Longrightarrow> \<exists>ys. those (map f xs) = Some ys \<and> list_all2 (\<lambda>x y. f x = Some y) xs ys"
  by (induction xs) auto

lemma dashboard_buttons_render:
  assumes "is_authenticated cs"
  shows "route (press_button st cs AddNewExpense) (location (press_button st cs AddNewExpense)) =
           Render ExpenseFormPage"
    "route (press_button st cs ViewReports) (location (press_button st cs ViewReports)) = Render ReportsPage"
    "dash_recent st \<noteq> [] \<Longrightarrow>
       route (press_button st cs ViewAllExpenses) (location (press_button st cs ViewAllExpenses)) =
         Render ExpenseListPage"
    "route (form_cancel cs) (location (form_cancel cs)) = Render ExpenseListPage"
  using assms by (simp_all add: press_button_def form_cancel_def route_def private_route_def
      is_authenticated_def strip_trailing_slashes_def js_string_eval)

lemma render_month_row_amount:
  assumes "short_date_label (date e) \<noteq> None" "\<bar>amount e\<bar> < 10 ^ 21"
  shows "\<exists>row. render_month_row e = Some row \<and> mr_description row = description e \<and>
           (\<exists>s q. mr_amount row = ''$'' @ s \<and> js_number s = JsNum q \<and> \<bar>q - amount e\<bar> \<le> 1 / 200)"
  using assms money_text_read_back [OF assms(2)] by (auto simp: render_month_row_def)

lemma those_SomeD: "those (map f xs) = Some ys \<Longrightarrow> list_all2 (\<lambda>x y. f x = Some y) xs ys"
  by (induction xs arbitrary: ys) (auto split: option.splits)

text \<open>
  C7. Amounts print faithfully: when every date of the month's table can be read and
  the amounts are below \<open>10^21\<close>, the table renders, every row shows its expense's
  description and an amount text that \<open>Number\<close> reads back within half a cent of the
  amount, and the total line reads back within half a cent of the sum of the amounts,
  exactly when that sum is a whole number of cents.
\<close>

theorem month_table_amounts_read_back:
  assumes "\<forall>e\<in>set (monthly_expenses st). short_date_label (date e) \<noteq> None \<and> \<bar>amount e\<bar> < 10 ^ 21"
    and "\<bar>calculate_total (monthly_expenses st)\<bar> < 10 ^ 21"
  shows "\<exists>rows t q. render_month_table st = Some (rows, ''$'' @ t) \<and> js_number t = JsNum q \<and>
           \<bar>q - sum_list (map amount (monthly_expenses st))\<bar> \<le> 1 / 200 \<and>
           (\<forall>c. sum_list (map amount (monthly_expenses st)) * 100 = of_int c \<longrightarrow>
                q = sum_list (map amount (monthly_expenses st))) \<and>
           list_all2 (\<lambda>e row. mr_description row = description e \<and>
                        (\<exists>s q. mr_amount row = ''$'' @ s \<and> js_number s = JsNum q \<and> \<bar>q - amount e\<bar> \<le> 1 / 200))
             (monthly_expenses st) rows"
proof -
  have "\<forall>e\<in>set (monthly_expenses st). render_month_row e \<noteq> None"
    using assms(1) render_month_row_amount by fastforce
  then obtain rows where rows: "those (map render_month_row (monthly_expenses st)) = Some rows"
    using those_map_Some by blast
  have rel: "list_all2 (\<lambda>e row. mr_description row = description e \<and>
               (\<exists>s q. mr_amount row = ''$'' @ s \<and> js_number s = JsNum q \<and> \<bar>q - amount e\<bar> \<le> 1 / 200))
             (monthly_expenses st) rows"
  proof -
    have r: "list_all2 (\<lambda>x y. render_month_row x = Some y) (monthly_expenses st) rows"
      by (rule those_SomeD [OF rows])
    show ?thesis unfolding list_all2_conv_all_nth
    proof (intro conjI)
      show "length (monthly_expenses st) = length rows" using r by (rule list_all2_lengthD)
      show "\<forall>i<length (monthly_expenses st). mr_description (rows ! i) = description (monthly_expenses st ! i) \<and>
          (\<exists>s q. mr_amount (rows ! i) = ''$'' @ s \<and> js_number s = JsNum q \<and>
                 \<bar>q - amount (monthly_expenses st ! i)\<bar> \<le> 1 / 200)"
      proof (intro allI impI)
        fix i assume i: "i < length (monthly_expenses st)"
        then have "render_month_row (monthly_expenses st ! i) = Some (rows ! i)"
          using r by (simp add: list_all2_conv_all_nth)
        moreover have "monthly_expenses st ! i \<in> set (monthly_expenses st)" using i by simp
        ultimately show "mr_description (rows ! i) = description (monthly_expenses st ! i) \<and>
            (\<exists>s q. mr_amount (rows ! i) = ''$'' @ s \<and> js_number s = JsNum q \<and>
                   \<bar>q - amount (monthly_expenses st ! i)\<bar> \<le> 1 / 200)"
          using render_month_row_amount assms(1) by fastforce
      qed
    qed
  qed
  obtain t q where "money_text (JsNum (calculate_total (monthly_expenses st))) = Some (''$'' @ t)"
    "js_number t = JsNum q" "\<bar>q - calculate_total (monthly_expenses st)\<bar> \<le> 1 / 200"
    "\<forall>c. calculate_total (monthly_expenses st) * 100 = of_int c \<longrightarrow> q = calculate_total (monthly_expenses st)"
    using money_text_read_back [OF assms(2)] by blast
  then show ?thesis using rows rel by (auto simp: render_month_table_def calculate_total_sum)
qed

theorem month_table_amounts_read_back_witness:
  "short_date_label (date sample_gas) \<noteq> None \<and>
   (\<exists>rows t q. render_month_table ((reports_init 2024 1)\<lparr>monthly_expenses := [sample_gas]\<rparr>) =
        Some (rows, ''$'' @ t) \<and> js_number t = JsNum q \<and> \<bar>q - 40\<bar> \<le> 1 / 200)"
proof -
  have d: "short_date_label (date sample_gas) \<noteq> None"
    by (simp add: short_date_label_def sample_gas_def js_date_eval)
  have a: "\<bar>amount sample_gas\<bar> < 10 ^ 21" "\<bar>calculate_total [sample_gas]\<bar> < 10 ^ 21"
    by (simp_all add: sample_gas_def calculate_total_def)
  show ?thesis
    using d month_table_amounts_read_back [of "(reports_init 2024 1)\<lparr>monthly_expenses := [sample_gas]\<rparr>"] a
    by (auto simp: sample_gas_def)
qed

text \<open>
  Rounding each amount and the total separately: two rows of half a cent each show
  \<open>$0.01\<close>, and so does their total.
\<close>

lemma rounded_rows_exceed_total:
  "money_text (JsNum (1 / 200)) = Some ''$0.01'' \<and> money_text (JsNum (1 / 200 + 1 / 200)) = Some ''$0.01''"
proof -
  have f: "\<lfloor>(3 / 2 :: rat)\<rfloor> = 1" by (simp add: floor_eq_iff)
  show ?thesis
    by (simp add: money_text_def js_to_fixed_def fixed_round_def fixed_digits_def Let_def char_of_eq_iff f)
qed

lemma payment_menu_labels:
  "payment_menu = [(''IBAN'', ''IBAN''), (''CASH'', ''CASH''), (''CREDIT_CARD'', ''CREDIT CARD'')]"
  by (simp add: payment_menu_def payment_method_values_def)

lemma reports_selection_in_menus:
  assumes "selected_year st \<in> set (report_years current)" "selected_month st \<in> fst ` set months"
    and "list_all (reports_ui_event current) evs"
  shows "selected_year (reports_run srv st evs) \<in> set (report_years current) \<and>
         selected_month (reports_run srv st evs) \<in> fst ` set months"
  using assms
proof (induction evs arbitrary: st)
  case (Cons ev evs)
  have "selected_year (reports_step srv st ev) \<in> set (report_years current) \<and>
        selected_month (reports_step srv st ev) \<in> fst ` set months"
    using Cons.prems
    by (cases ev) (auto simp: start_run_def arrive_def Let_def split: fetch_stage.splits)
  then show ?case using Cons by simp
qed simp

lemma field_views_errors:
  "field_views (fs\<lparr>fs_errors := e\<rparr>) =
     [\<lparr>fv_label = ''Amount'', fv_error = js_truthy_str (err_amount e), fv_helper = err_amount e\<rparr>,
      \<lparr>fv_label = ''Description'', fv_error = js_truthy_str (err_description e), fv_helper = err_description e\<rparr>,
      \<lparr>fv_label = ''Category'', fv_error = js_truthy_str (err_category e), fv_helper = err_category e\<rparr>,
      \<lparr>fv_label = ''Payment Method'', fv_error = js_truthy_str (err_payment_method e),
       fv_helper = err_payment_method e\<rparr>]"
  by (simp add: field_views_def)

text \<open>
  C10. A submit that validation rejects sends nothing, and the form then marks exactly
  the fields whose check failed, each with \<open>validateForm\<close>'s message: the amount when it
  is empty, not a number or not positive, the description when it is blank, the
  category and the payment method when they are falsy; at least one field is marked.
\<close>

theorem rejected_submit_marks_fields:
  assumes "validate_form (fs_data fs) = Some (errs, False)"
  shows "\<exists>d. fd_description (fs_data fs) = Some (JStr d) \<and>
           handle_submit srv now cs fs = (cs, fs\<lparr>fs_errors := errs\<rparr>, SubmitInvalid) \<and>
           map fv_error (field_views (fs\<lparr>fs_errors := errs\<rparr>)) =
             [\<not> (js_truthy_str (fd_amount (fs_data fs)) \<and> \<not> js_is_nan (js_number (fd_amount (fs_data fs))) \<and>
                  \<not> js_le_zero (js_number (fd_amount (fs_data fs)))),
              \<not> js_truthy_str (js_trim d), \<not> js_truthy (fd_category (fs_data fs)),
              \<not> js_truthy (fd_payment_method (fs_data fs))] \<and>
           map fv_helper (field_views (fs\<lparr>fs_errors := errs\<rparr>)) =
             [err_amount errs, err_description errs, err_category errs, err_payment_method errs] \<and>
           list_ex fv_error (field_views (fs\<lparr>fs_errors := errs\<rparr>))"
proof -
  obtain d where d: "fd_description (fs_data fs) = Some (JStr d)"
    and ok: "\<not> (js_truthy_str (fd_amount (fs_data fs)) \<and> \<not> js_is_nan (js_number (fd_amount (fs_data fs))) \<and>
              \<not> js_le_zero (js_number (fd_amount (fs_data fs))) \<and> js_truthy_str (js_trim d) \<and>
              js_truthy (fd_category (fs_data fs)) \<and> js_truthy (fd_payment_method (fs_data fs)))"
    and e: "errs = \<lparr>err_amount = if js_truthy_str (fd_amount (fs_data fs)) \<and> \<not> js_is_nan (js_number (fd_amount (fs_data fs))) \<and>
                                    \<not> js_le_zero (js_number (fd_amount (fs_data fs))) then [] else ''Please enter a valid amount'',
                    err_description = if js_truthy_str (js_trim d) then [] else ''Description is required'',
                    err_category = if js_truthy (fd_category (fs_data fs)) then [] else ''Category is required'',
                    err_payment_method =
                      if js_truthy (fd_payment_method (fs_data fs)) then [] else ''Payment method is required''\<rparr>"
    using assms by (auto simp: validate_form_cases)
  have h: "handle_submit srv now cs fs = (cs, fs\<lparr>fs_errors := errs\<rparr>, SubmitInvalid)"
    using assms by (simp add: handle_submit_def)
  show ?thesis
    using d ok h by (auto simp: field_views_errors e js_truthy_str_def)
qed

theorem rejected_submit_marks_fields_witness:
  "validate_form (fs_data (init_form 0 None)) =
     Some (\<lparr>err_amount = ''Please enter a valid amount'', err_description = ''Description is required'',
            err_category = [], err_payment_method = []\<rparr>, False) \<and>
   list_ex fv_error (field_views ((init_form 0 None)\<lparr>fs_errors :=
     \<lparr>err_amount = ''Please enter a valid amount'', err_description = ''Description is required'',
      err_category = [], err_payment_method = []\<rparr>\<rparr>))"
proof -
  have v: "validate_form (fs_data (init_form 0 None)) =
     Some (\<lparr>err_amount = ''Please enter a valid amount'', err_description = ''Description is required'',
            err_category = [], err_payment_method = []\<rparr>, False)"
    by (simp add: validate_form_def init_form_def js_trim_value_def js_trim_def js_truthy_str_def Let_def)
  show ?thesis using v rejected_submit_marks_fields [OF v] by blast
qed

text \<open>
  The dashboard's card names the month whose category report it requests, with the
  reports page's label for that month.
\<close>

lemma month_label_name: "1 \<le> m \<Longrightarrow> m \<le> 12 \<Longrightarrow> month_label (int m) = Some (month_name m)"
proof -
  assume "1 \<le> m" "m \<le> 12"
  then have "m \<in> set [1..<13]" by simp
  then show ?thesis by (simp add: upt_rec month_label_def months_def month_name_def) (elim disjE; simp)
qed

lemma dashboard_card_names_requested_month:
  assumes "100 \<le> year_from_time now" "year_from_time now \<le> 9999"
  shows "month_label (int (month_from_time now)) = Some (month_name (month_from_time now)) \<and>
         dashboard_month_text now = month_name (month_from_time now) @ '' '' @ format_year (year_from_time now) \<and>
         dashboard_month_range now =
           Some (iso_ymd (year_from_time now) (month_from_time now) 1,
                 iso_ymd (year_from_time now) (month_from_time now)
                   (days_in_month (year_from_time now) (month_from_time now)))"
  using month_label_name [of "month_from_time now"] date_fields_bounds [of now]
    dashboard_month_range_current [OF assms] by (simp add: dashboard_month_text_def)

text \<open>
  The race of \<open>Reports\<close> on the screen: after switching to 2023, the older run's late
  yearly response puts 2024's total under the heading of 2023.
\<close>

lemma stale_yearly_under_new_heading:
  "let st = reports_run sample_server (reports_init 2024 1)
              [SelectYear 2023, Arrive 1 True, Arrive 1 True, Arrive 1 True,
               Arrive 0 True, Arrive 0 True, Arrive 0 True]
   in yearly_heading st = ''Yearly Summary (2023)'' \<and>
      render_yearly_summary st = Some (''Total: $40.00'', ''Monthly Average: $3.33'')"
proof -
  have f: "\<lfloor>(8001 / 2 :: rat)\<rfloor> = 4000" "\<lfloor>(2003 / 6 :: rat)\<rfloor> = 333" by (simp_all add: floor_eq_iff)
  show ?thesis
    by (simp add: sample_server_def reports_init_def start_run_def arrive_def Let_def yearly_heading_def
        string_of_int_def char_of_eq_iff render_yearly_summary_def money_text_def js_to_fixed_def
        fixed_round_def fixed_digits_def calculate_total_def monthly_average_def js_div_def sample_gas_def f)
qed



end
