(* ===== verification/ReportsFetch.thy ===== *)
theory ReportsFetch
  imports Dashboard JsFixed
begin

text \<open>
  \<open>fetchReports\<close> of \<open>pages/Reports.tsx\<close> (lines 48--69) over the client, for one
  selection: the month's expenses, the year's expenses, and the category report of the
  selected year, whose bounds are
  \<open>format(startOfYear(new Date(selectedYear, 0)), 'yyyy-MM-dd')\<close> and
  \<open>format(endOfYear(new Date(selectedYear, 0)), 'yyyy-MM-dd')\<close>. date-fns'
  \<open>startOfYear\<close> sets January 1 at midnight of the date's year, \<open>endOfYear\<close> the day 0 of
  January of the next year (December 31) at 23:59:59.999; both keep Invalid Date. The
  lemmas show that the bounds are the first and the last day of the selected year and
  that this run refines the event model of \<open>Reports\<close>: against a server of the
  selection it stores what three successful responses of the abstract run store, and a
  failing yearly call leaves what the abstract run with a failure there leaves. The
  overlapping runs over the client (\<open>respond\<close>, \<open>reports_http_run\<close>) refine the
  event model for every interleaving, with the responses of failing endpoints as its
  failed responses (C6).
\<close>

section \<open>The year range\<close>

definition start_of_year :: "js_date \<Rightarrow> js_date" where
  "start_of_year d =
     (case d of None \<Rightarrow> None
      | Some t \<Rightarrow> time_clip (of_int (make_day (year_from_time t) 1 1 * ms_per_day)))"

definition end_of_year :: "js_date \<Rightarrow> js_date" where
  "end_of_year d =
     (case d of None \<Rightarrow> None
      | Some t \<Rightarrow> time_clip (of_int ((make_day (year_from_time t + 1) 1 1 - 1) * ms_per_day + 86399999)))"

text \<open>Lines 62--63.\<close>

definition report_year_range :: "int \<Rightarrow> (string \<times> string) option" where
  "report_year_range y =
     (case format_date_ymd (start_of_year (js_make_date y 0 1)) of
        None \<Rightarrow> None
      | Some sd \<Rightarrow>
          (case format_date_ymd (end_of_year (js_make_date y 0 1)) of
             None \<Rightarrow> None
           | Some ed \<Rightarrow> Some (sd, ed)))"

section \<open>fetchReports\<close>

datatype reports_outcome = ReportsLoaded | ReportsFailed | ReportsIllTyped

text \<open>
  Lines 48--69: each setter runs after its call returned; the first exception ends the
  run in the \<open>catch\<close>, which only logs.
\<close>

definition fetch_reports ::
  "server \<Rightarrow> client_state \<Rightarrow> reports_state \<Rightarrow> client_state \<times> reports_state \<times> reports_outcome" where
  "fetch_reports srv cs st =
     (let y = selected_year st; m = selected_month st
      in case get_monthly_report srv cs y m of
           (cs1, Inl _) \<Rightarrow> (cs1, st, ReportsFailed)
         | (cs1, Inr d1) \<Rightarrow>
             (case decode_expenses d1 of
                None \<Rightarrow> (cs1, st, ReportsIllTyped)
              | Some ms \<Rightarrow>
                  (let st1 = st\<lparr>monthly_expenses := ms\<rparr>
                   in case get_yearly_report srv cs1 y of
                        (cs2, Inl _) \<Rightarrow> (cs2, st1, ReportsFailed)
                      | (cs2, Inr d2) \<Rightarrow>
                          (case decode_expenses d2 of
                             None \<Rightarrow> (cs2, st1, ReportsIllTyped)
                           | Some ys \<Rightarrow>
                               (let st2 = st1\<lparr>yearly_expenses := ys\<rparr>
                                in case report_year_range y of
                                     None \<Rightarrow> (cs2, st2, ReportsFailed)
                                   | Some (sd, ed) \<Rightarrow>
                                       (case get_category_report srv cs2 sd ed of
                                          (cs3, Inl _) \<Rightarrow> (cs3, st2, ReportsFailed)
                                        | (cs3, Inr d3) \<Rightarrow>
                                            (case decode_category_reports d3 of
                                               None \<Rightarrow> (cs3, st2, ReportsIllTyped)
                                             | Some cats \<Rightarrow>
                                                 (cs3, st2\<lparr>category_report := cats\<rparr>, ReportsLoaded))))))))"

section \<open>Overlapping runs over the client\<close>

text \<open>
  Each selection change starts a run (lines 69--73) while older runs may still await
  their calls. An event \<open>Respond i\<close> is the answer to run \<open>i\<close>'s pending call, made
  with the run's own year and month: the awaited call and the decoding of its data, the
  setter of that stage, and the run's next stage. After the yearly setter the run
  computes the year's bounds; a RangeError there ends it. The request is made with the
  client state of its answer; a body the decoder rejects is \<open>None\<close> and is not followed.
\<close>

datatype reports_http_event = HttpSelectYear int | HttpSelectMonth int | Respond nat

definition respond :: "server \<Rightarrow> client_state \<Rightarrow> reports_state \<Rightarrow> nat \<Rightarrow> (client_state \<times> reports_state) option" where
  "respond srv cs st i =
     (if length (runs st) \<le> i then Some (cs, st)
      else
        let r = runs st ! i; y = run_year r;
            done = (\<lambda>t. t\<lparr>runs := (runs t)[i := r\<lparr>run_stage := RunDone\<rparr>]\<rparr>)
        in case run_stage r of
             AwaitMonthly \<Rightarrow>
               (case get_monthly_report srv cs y (run_month r) of
                  (cs1, Inl _) \<Rightarrow> Some (cs1, done st)
                | (cs1, Inr d) \<Rightarrow>
                    map_option (\<lambda>ms. (cs1, st\<lparr>monthly_expenses := ms,
                                              runs := (runs st)[i := r\<lparr>run_stage := AwaitYearly\<rparr>]\<rparr>))
                      (decode_expenses d))
           | AwaitYearly \<Rightarrow>
               (case get_yearly_report srv cs y of
                  (cs1, Inl _) \<Rightarrow> Some (cs1, done st)
                | (cs1, Inr d) \<Rightarrow>
                    map_option (\<lambda>ys. (cs1, case report_year_range y of
                                              None \<Rightarrow> done (st\<lparr>yearly_expenses := ys\<rparr>)
                                            | Some _ \<Rightarrow> st\<lparr>yearly_expenses := ys,
                                                 runs := (runs st)[i := r\<lparr>run_stage := AwaitCategory\<rparr>]\<rparr>))
                      (decode_expenses d))
           | AwaitCategory \<Rightarrow>
               (case report_year_range y of
                  None \<Rightarrow> Some (cs, done st)
                | Some (sd, ed) \<Rightarrow>
                    (case get_category_report srv cs sd ed of
                       (cs1, Inl _) \<Rightarrow> Some (cs1, done st)
                     | (cs1, Inr d) \<Rightarrow>
                         map_option (\<lambda>cats. (cs1, done (st\<lparr>category_report := cats\<rparr>)))
                           (decode_category_reports d)))
           | RunDone \<Rightarrow> Some (cs, st))"

fun reports_http_step ::
  "server \<Rightarrow> client_state \<times> reports_state \<Rightarrow> reports_http_event \<Rightarrow> (client_state \<times> reports_state) option" where
  "reports_http_step srv (cs, st) (HttpSelectYear y) =
     Some (cs, if y = selected_year st then st else start_run (st\<lparr>selected_year := y\<rparr>))"
| "reports_http_step srv (cs, st) (HttpSelectMonth m) =
     Some (cs, if m = selected_month st then st else start_run (st\<lparr>selected_month := m\<rparr>))"
| "reports_http_step srv (cs, st) (Respond i) = respond srv cs st i"

fun reports_http_run ::
  "server \<Rightarrow> client_state \<times> reports_state \<Rightarrow> reports_http_event list \<Rightarrow> (client_state \<times> reports_state) option" where
  "reports_http_run srv c [] = Some c"
| "reports_http_run srv c (ev # evs) =
     (case reports_http_step srv c ev of None \<Rightarrow> None | Some c' \<Rightarrow> reports_http_run srv c' evs)"

section \<open>Specification helpers\<close>

text \<open>The abstract event of a concrete one, each response succeeding or failing as \<open>ok\<close> says.\<close>

fun abs_event :: "bool \<Rightarrow> reports_http_event \<Rightarrow> reports_event" where
  "abs_event ok (HttpSelectYear y) = SelectYear y"
| "abs_event ok (HttpSelectMonth m) = SelectMonth m"
| "abs_event ok (Respond i) = Arrive i ok"



text \<open>What the page shows of its state.\<close>

definition reports_view :: "reports_state \<Rightarrow> expense list \<times> expense list \<times> expense_category_report list" where
  "reports_view st = (monthly_expenses st, yearly_expenses st, category_report st)"

text \<open>The HTTP server of an abstract \<open>report_server\<close> for the selection \<open>(y, m)\<close>.\<close>

definition reports_server :: "report_server \<Rightarrow> int \<Rightarrow> int \<Rightarrow> server" where
  "reports_server rs y m =
     (\<lambda>rq. if rq_method rq = GET \<and> rq_url rq = ''/v1/expenses/reports/monthly'' \<and>
              rq_params rq = [(''year'', string_of_int y), (''month'', string_of_int m)]
           then data_response (map expense_json (monthly_of rs y m))
           else if rq_method rq = GET \<and> rq_url rq = ''/v1/expenses/reports/yearly'' \<and>
              rq_params rq = [(''year'', string_of_int y)]
           then data_response (map expense_json (yearly_of rs y))
           else if rq_method rq = GET \<and> rq_url rq = ''/v1/expenses/reports/category'' \<and>
              rq_params rq = day_range_params (iso_ymd y 1 1) (iso_ymd y 12 31)
           then data_response (map report_json (category_of rs y))
           else HttpResponse 400 JNull)"

text \<open>
  The HTTP server of an abstract \<open>report_server\<close> for every selection: it reads the
  query parameters with \<open>Number\<close>, the category report's year from the first four
  characters of \<open>startDate\<close>, and answers a category request covering exactly that year.
\<close>

definition parse_int_param :: "string \<Rightarrow> int option" where
  "parse_int_param s =
     (case js_number s of JsNum r \<Rightarrow> if r = of_int \<lfloor>r\<rfloor> then Some \<lfloor>r\<rfloor> else None | _ \<Rightarrow> None)"

definition report_http_server :: "report_server \<Rightarrow> server" where
  "report_http_server rs =
     (\<lambda>rq. let ps = map_of (rq_params rq) in
           if rq_method rq \<noteq> GET then HttpResponse 400 JNull
           else if rq_url rq = ''/v1/expenses/reports/monthly'' then
             (case (Option.bind (ps ''year'') parse_int_param, Option.bind (ps ''month'') parse_int_param) of
                (Some y, Some m) \<Rightarrow> data_response (map expense_json (monthly_of rs y m))
              | _ \<Rightarrow> HttpResponse 400 JNull)
           else if rq_url rq = ''/v1/expenses/reports/yearly'' then
             (case Option.bind (ps ''year'') parse_int_param of
                Some y \<Rightarrow> data_response (map expense_json (yearly_of rs y))
              | None \<Rightarrow> HttpResponse 400 JNull)
           else if rq_url rq = ''/v1/expenses/reports/category'' then
             (case Option.bind (ps ''startDate'') (\<lambda>a. parse_int_param (take 4 a)) of
                Some y \<Rightarrow>
                  if rq_params rq = day_range_params (iso_ymd y 1 1) (iso_ymd y 12 31)
                  then data_response (map report_json (category_of rs y))
                  else HttpResponse 400 JNull
              | None \<Rightarrow> HttpResponse 400 JNull)
           else HttpResponse 400 JNull)"

definition years_valid :: "reports_state \<Rightarrow> bool" where
  "years_valid st =
     (100 \<le> selected_year st \<and> selected_year st \<le> 9999 \<and>
      list_all (\<lambda>r. 100 \<le> run_year r \<and> run_year r \<le> 9999) (runs st))"

fun event_year_valid :: "reports_http_event \<Rightarrow> bool" where
  "event_year_valid (HttpSelectYear y) = (100 \<le> y \<and> y \<le> 9999)"
| "event_year_valid _ = True"

text \<open>
  A server that answers 500 to the endpoints in \<open>bad\<close> and otherwise as
  \<open>report_http_server\<close>, and the abstract events of a concrete sequence against it: an
  answer fails exactly when the run's pending call goes to a failing endpoint.
\<close>

fun stage_url :: "fetch_stage \<Rightarrow> string" where
  "stage_url AwaitMonthly = ''/v1/expenses/reports/monthly''"
| "stage_url AwaitYearly = ''/v1/expenses/reports/yearly''"
| "stage_url AwaitCategory = ''/v1/expenses/reports/category''"
| "stage_url RunDone = []"

definition failing_server :: "report_server \<Rightarrow> string list \<Rightarrow> server" where
  "failing_server rs bad =
     (\<lambda>rq. if rq_url rq \<in> set bad then HttpResponse 500 JNull else report_http_server rs rq)"

definition answer_ok :: "string list \<Rightarrow> reports_state \<Rightarrow> nat \<Rightarrow> bool" where
  "answer_ok bad st i = (i < length (runs st) \<longrightarrow> stage_url (run_stage (runs st ! i)) \<notin> set bad)"

fun abs_events :: "string list \<Rightarrow> report_server \<Rightarrow> reports_state \<Rightarrow> reports_http_event list \<Rightarrow> reports_event list" where
  "abs_events bad rs st [] = []"
| "abs_events bad rs st (Respond i # evs) =
     Arrive i (answer_ok bad st i) # abs_events bad rs (arrive rs st i (answer_ok bad st i)) evs"
| "abs_events bad rs st (HttpSelectYear y # evs) =
     SelectYear y # abs_events bad rs (reports_step rs st (SelectYear y)) evs"
| "abs_events bad rs st (HttpSelectMonth m # evs) =
     SelectMonth m # abs_events bad rs (reports_step rs st (SelectMonth m)) evs"

section \<open>Lemmas\<close>

lemma format_ymd_time_value_any:
  assumes "1 \<le> m" "m \<le> 12" "1 \<le> d" "d \<le> days_in_month y m" "h < 24" "mi < 60" "s < 60" "ms < 1000"
  shows "format_ymd (time_value y m d h mi s ms) = iso_ymd y m d"
  using time_value_fields [OF assms] by (simp add: format_ymd_def iso_ymd_def)

lemma report_year_range_spec:
  assumes "100 \<le> y" "y \<le> 9999"
  shows "report_year_range y = Some (iso_ymd y 1 1, iso_ymd y 12 31)"
proof -
  have d: "js_make_date y 0 1 = Some (time_value y 1 1 0 0 0 0)"
    using js_make_date_first [OF assms, of 1] by simp
  have yr: "year_from_time (time_value y 1 1 0 0 0 0) = y"
    using time_value_fields [of 1 1 y 0 0 0 0] by (simp add: days_in_month_def)
  have s: "start_of_year (Some (time_value y 1 1 0 0 0 0)) = Some (time_value y 1 1 0 0 0 0)"
    using make_day_clip [of y 1 0] assms yr by (simp add: start_of_year_def time_value_midnight)
  have last: "make_day (y + 1) 1 1 - 1 = make_day y 12 31"
    using make_day_last [of 12 y] by (simp add: days_in_month_def)
  have b: "\<bar>make_day (y + 1) 1 1 + -1\<bar> \<le> 3001000"
  proof -
    have "days_before_month (y + 1) 1 = 0" by (simp add: days_before_month_table)
    moreover have "- 700000 \<le> day_from_year (y + 1)" "day_from_year (y + 1) \<le> 3000000"
      using day_from_year_range [of "y + 1"] assms by simp_all
    ultimately show ?thesis unfolding abs_le_iff by (simp add: make_day_def)
  qed
  have "\<bar>(make_day (y + 1) 1 1 - 1) * ms_per_day + 86399999\<bar> \<le> 8640000000000000"
  proof -
    have "\<bar>(make_day (y + 1) 1 1 - 1) * ms_per_day\<bar> \<le> 3001000 * 86400000"
      using b by (simp add: abs_mult ms_per_day_def)
    then show ?thesis by linarith
  qed
  then have c: "time_clip (of_int ((make_day (y + 1) 1 1 - 1) * ms_per_day + 86399999)) =
                Some ((make_day (y + 1) 1 1 - 1) * ms_per_day + 86399999)"
    by (rule time_clip_int)
  have e: "end_of_year (Some (time_value y 1 1 0 0 0 0)) = Some (time_value y 12 31 23 59 59 999)"
    using last unfolding end_of_year_def option.case yr c by (simp add: time_value_def make_time_def)
  show ?thesis
    using d s e format_ymd_time_value_any [of 1 1 y 0 0 0 0] format_ymd_time_value_any [of 12 31 y 23 59 59 999]
    by (simp add: report_year_range_def format_date_ymd_def days_in_month_def)
qed

text \<open>
  C22. \<open>fetchReports\<close> over the client refines the event model of the reports page:
  against a server that answers the requests of the selected year and month (and asks
  for the category report of exactly that year's days), a run from the page's first
  state succeeds and shows what the abstract run shows after three successful
  responses, the server's data of the selection; when the yearly call fails with 500,
  the page shows what the abstract run shows after a failure at that point, the new
  month's data beside the old year's.
\<close>

theorem reports_fetch_refines_run:
  assumes "100 \<le> y" "y \<le> 9999"
  shows "fetch_reports (reports_server rs y m) cs (reports_init y m) =
           (cs, (reports_init y m)\<lparr>monthly_expenses := monthly_of rs y m, yearly_expenses := yearly_of rs y,
                                    category_report := category_of rs y\<rparr>, ReportsLoaded) \<and>
         reports_view (fst (snd (fetch_reports (reports_server rs y m) cs (reports_init y m)))) =
           reports_view (reports_run rs (reports_init y m) [Arrive 0 True, Arrive 0 True, Arrive 0 True]) \<and>
         reports_view (fst (snd (fetch_reports
             (\<lambda>rq. if rq_url rq = ''/v1/expenses/reports/yearly'' then HttpResponse 500 JNull
                   else reports_server rs y m rq) cs (reports_init y m)))) =
           reports_view (reports_run rs (reports_init y m) [Arrive 0 True, Arrive 0 False])"
  using report_year_range_spec [OF assms]
  by (simp add: fetch_reports_def Let_def dashboard_request_defs get_yearly_report_def
      reports_server_def decode_expenses_json decode_category_reports_json reports_view_def
      reports_init_def arrive_def)

theorem reports_fetch_refines_run_witness:
  "100 \<le> (2024::int) \<and> (2024::int) \<le> 9999 \<and>
   reports_view (fst (snd (fetch_reports (reports_server sample_server 2024 3)
      \<lparr>stored_token = Some ''abc'', default_auth = Some ''Bearer abc'', location = ''/reports''\<rparr>
      (reports_init 2024 3)))) = ([], [sample_gas], [])"
  using reports_fetch_refines_run [of 2024 sample_server 3
      "\<lparr>stored_token = Some ''abc'', default_auth = Some ''Bearer abc'', location = ''/reports''\<rparr>"]
  by (simp add: reports_view_def sample_server_def)

lemma js_number_zeros_nat: "js_number (replicate k CHR ''0'' @ string_of_nat n) = JsNum (of_nat n)"
proof -
  let ?s = "replicate k CHR ''0'' @ string_of_nat n"
  have d: "list_all js_is_digit ?s"
    using string_of_nat_digits [of n] by (simp add: list_all_iff set_replicate_conv_if zero_digit)
  have ne: "string_of_nat n \<noteq> []" by simp
  obtain c r where cr: "?s = c # r" by (cases ?s) (use ne in auto)
  have "js_signed_decimal ?s = JsNum (of_nat n)"
    using js_signed_decimal_digits(1) [OF d] radix_digits_zeros [OF ne, of k] radix_digits_string_of_nat [of n]
    by simp
  moreover have "r \<noteq> [] \<Longrightarrow> radix_of_prefix (hd r) = None"
    using d cr by (cases r) (auto intro: radix_of_prefix_digit)
  ultimately show ?thesis
    using js_trim_digits [OF d] cr by (cases r) (auto simp: js_number_def)
qed

lemma parse_int_param_string_of_int: "parse_int_param (string_of_int i) = Some i"
  by (simp add: parse_int_param_def js_number_string_of_int)

lemma parse_int_param_year:
  assumes "100 \<le> y" "y \<le> 9999"
  shows "parse_int_param (take 4 (iso_ymd y m d @ t)) = Some y"
proof -
  have l: "length (format_year y) = 4"
    using length_add_leading_zeros [of "nat y" 4] assms by (simp add: format_year_def)
  have "js_number (format_year y) = JsNum (of_int y)"
    using js_number_zeros_nat [of "4 - length (string_of_nat (nat y))" "nat y"] assms
    by (simp add: format_year_def add_leading_zeros_def Let_def)
  then show ?thesis using l by (simp add: iso_ymd_def parse_int_param_def)
qed

lemma report_http_server_calls:
  assumes "100 \<le> y" "y \<le> 9999"
  shows "get_monthly_report (report_http_server rs) cs y m =
           (cs, Inr (Some (JArr (map expense_json (monthly_of rs y m)))))"
        "get_yearly_report (report_http_server rs) cs y =
           (cs, Inr (Some (JArr (map expense_json (yearly_of rs y)))))"
        "get_category_report (report_http_server rs) cs (iso_ymd y 1 1) (iso_ymd y 12 31) =
           (cs, Inr (Some (JArr (map report_json (category_of rs y)))))"
  using parse_int_param_year [OF assms, of 1 1 "''T00:00:00''"]
  by (simp_all add: report_http_server_def dashboard_request_defs get_yearly_report_def
      parse_int_param_string_of_int day_range_params_def)

lemma done_idle:
  assumes "run_stage (xs ! i) = RunDone"
  shows "xs[i := (xs ! i)\<lparr>run_stage := RunDone\<rparr>] = xs"
proof -
  have "(xs ! i)\<lparr>run_stage := RunDone\<rparr> = xs ! i" using assms by (cases "xs ! i") simp
  then show ?thesis by simp
qed

lemma list_all_update_keep:
  "list_all P xs \<Longrightarrow> (P (xs ! i) \<Longrightarrow> P x) \<Longrightarrow> list_all P (xs[i := x])"
  by (cases "i < length xs") (auto simp: list_all_length nth_list_update)

lemma years_valid_step:
  assumes "years_valid st" "event_year_valid ev"
  shows "years_valid (reports_step rs st (abs_event ok ev))"
  using assms
  by (cases ev) (auto simp: years_valid_def start_run_def arrive_def Let_def intro!: list_all_update_keep
      split: fetch_stage.split)

lemma respond_failing_server:
  assumes "years_valid st"
  shows "respond (failing_server rs bad) cs st i = Some (cs, arrive rs st i (answer_ok bad st i))"
proof (cases "i < length (runs st)")
  case True
  then have y: "100 \<le> run_year (runs st ! i)" "run_year (runs st ! i) \<le> 9999"
    using assms by (simp_all add: years_valid_def list_all_length)
  have calls: "get_monthly_report (failing_server rs bad) cs (run_year (runs st ! i)) m =
      (if ''/v1/expenses/reports/monthly'' \<in> set bad then (cs, Inl (HttpError 500 JNull))
       else get_monthly_report (report_http_server rs) cs (run_year (runs st ! i)) m)"
    "get_yearly_report (failing_server rs bad) cs (run_year (runs st ! i)) =
      (if ''/v1/expenses/reports/yearly'' \<in> set bad then (cs, Inl (HttpError 500 JNull))
       else get_yearly_report (report_http_server rs) cs (run_year (runs st ! i)))"
    "get_category_report (failing_server rs bad) cs sd ed =
      (if ''/v1/expenses/reports/category'' \<in> set bad then (cs, Inl (HttpError 500 JNull))
       else get_category_report (report_http_server rs) cs sd ed)" for m sd ed
    by (simp_all add: failing_server_def dashboard_request_defs get_yearly_report_def)
  show ?thesis
    using True report_http_server_calls [OF y] report_year_range_spec [OF y] calls
    by (cases "run_stage (runs st ! i)")
      (simp_all add: respond_def arrive_def answer_ok_def Let_def decode_expenses_json
        decode_category_reports_json done_idle)
qed (simp add: respond_def arrive_def answer_ok_def)

lemma years_valid_arrive: "years_valid st \<Longrightarrow> years_valid (arrive rs st i ok)"
  using years_valid_step [of st "Respond i" rs ok] by simp

lemma http_run_failing_server:
  "years_valid st \<Longrightarrow> list_all event_year_valid evs \<Longrightarrow>
   reports_http_run (failing_server rs bad) (cs, st) evs = Some (cs, reports_run rs st (abs_events bad rs st evs))"
proof (induction bad rs st evs rule: abs_events.induct)
  case (2 bad rs st i evs)
  then show ?case using respond_failing_server years_valid_arrive by simp
next
  case (3 bad rs st y evs)
  then show ?case using years_valid_step [of st "HttpSelectYear y" rs True] by simp
next
  case (4 bad rs st m evs)
  then show ?case using years_valid_step [of st "HttpSelectMonth m" rs True] by simp
qed simp

lemma abs_events_none_bad: "abs_events [] rs st evs = map (abs_event True) evs"
  by (induction "[] :: string list" rs st evs rule: abs_events.induct) (simp_all add: answer_ok_def)

text \<open>
  C6. Overlapping \<open>fetchReports\<close> runs over the client refine the event model of
  \<open>Reports\<close>: for every interleaving of selections and responses, against the server of
  an abstract \<open>report_server\<close> the page reaches exactly the state of the abstract run whose
  responses all succeed, and against a server whose endpoints in \<open>bad\<close> answer 500
  exactly the state of the abstract run in which the responses to those endpoints fail;
  the client state is unchanged. So the stale-response race of C21 and the partial
  update of C23 happen over HTTP.
\<close>

theorem reports_http_refines_events:
  assumes "years_valid st" "list_all event_year_valid evs"
  shows "reports_http_run (report_http_server rs) (cs, st) evs =
           Some (cs, reports_run rs st (map (abs_event True) evs)) \<and>
         reports_http_run (failing_server rs bad) (cs, st) evs =
           Some (cs, reports_run rs st (abs_events bad rs st evs))"
proof -
  have "failing_server rs [] = report_http_server rs" by (simp add: failing_server_def)
  then show ?thesis
    using http_run_failing_server [OF assms, of rs "[]" cs] http_run_failing_server [OF assms, of rs bad cs]
    by (simp add: abs_events_none_bad)
qed

theorem reports_http_refines_events_witness:
  "years_valid (reports_init 2024 1) \<and>
   list_all event_year_valid [HttpSelectYear 2023, Respond 1, Respond 1, Respond 1, Respond 0, Respond 0, Respond 0] \<and>
   map_option (\<lambda>c. (selected_year (snd c), yearly_expenses (snd c)))
     (reports_http_run (report_http_server sample_server) (\<lparr>stored_token = None, default_auth = None, location = ''/reports''\<rparr>, reports_init 2024 1)
        [HttpSelectYear 2023, Respond 1, Respond 1, Respond 1, Respond 0, Respond 0, Respond 0]) =
   Some (2023, [sample_gas]) \<and>
   map_option (\<lambda>c. (yearly_expenses (snd c), map run_stage (runs (snd c))))
     (reports_http_run (failing_server sample_server [''/v1/expenses/reports/yearly''])
        (\<lparr>stored_token = None, default_auth = None, location = ''/reports''\<rparr>, reports_init 2024 1)
        [HttpSelectYear 2023, Respond 1, Respond 1, Respond 0, Respond 0]) =
   Some ([], [RunDone, RunDone])"
proof -
  have v: "years_valid (reports_init 2024 1)" by (simp add: years_valid_def reports_init_def)
  have e1: "list_all event_year_valid [HttpSelectYear 2023, Respond 1, Respond 1, Respond 1, Respond 0, Respond 0, Respond 0]"
    by simp
  have e2: "list_all event_year_valid [HttpSelectYear 2023, Respond 1, Respond 1, Respond 0, Respond 0]" by simp
  note r1 = conjunct1 [OF reports_http_refines_events [OF v e1, of sample_server "\<lparr>stored_token = None, default_auth = None, location = ''/reports''\<rparr>"]]
  note r2 = conjunct2 [OF reports_http_refines_events [OF v e2, of sample_server "\<lparr>stored_token = None, default_auth = None, location = ''/reports''\<rparr>" "[''/v1/expenses/reports/yearly'']"]]
  show ?thesis
    unfolding r1 r2 using v e1 e2
    by (simp add: reports_init_def sample_server_def start_run_def arrive_def Let_def answer_ok_def)
qed

end
