(* ===== verification/Spec2Isabelle.thy ===== *)
theory Spec2Isabelle
  imports Render ReportsFetch
begin

text \<open>
  \<^bold>\<open>Expense tracker front end: a verification development.\<close>

  The repository is a React single-page application (\<open>src/expense-tracker-fe/src\<close>).
  Its parts: the domain types (\<open>types.ts\<close>, and the shadowed \<open>types/index.ts\<close>); the
  remote access client \<open>services/api.ts\<close> (an axios instance with a request and a
  response interceptor, \<open>authService\<close> and \<open>expenseService\<close>); the session guard
  \<open>PrivateRoute\<close> and the route table of \<open>App.tsx\<close>; and the pages. The list page
  \<open>pages/ExpenseList.tsx\<close> holds the view-model the spec calls the core: it fetches the
  expenses through the client, filters, sorts and paginates them in its React state.
  The dashboard and report pages total what the client returns; the form page
  validates and submits an expense. The pages call the client; the client reads and
  writes the process-wide token that the guard reads.

  \<^bold>\<open>Theories.\<close>
  \<^item> \<open>Prelude\<close>: the JavaScript built-ins the code calls, from the ECMAScript
    definitions: \<open>Array.prototype.slice\<close> (\<open>js_slice\<close>), \<open>sort\<close> with a
    comparator (\<open>js_sort\<close>, the stable sort ES2019 requires, as insertion),
    \<open>toLowerCase\<close>, \<open>includes\<close>, truthiness, \<open>String()\<close>, division with its
    non-finite results, and the JSON values of response bodies. Its lemmas relate them
    to \<open>take\<close>/\<open>drop\<close> and to the library's \<open>sort_key\<close>: the ascending comparator
    sort is \<open>sort_key\<close>, the descending one is \<open>rev \<circ> sort_key f \<circ> rev\<close>.
  \<^item> \<open>Domain\<close>: both category enumerations and \<open>PaymentMethod\<close> as datatypes with their
    string values, every interface as a record, and the values the list page compares
    (\<open>field_value\<close>, instantiated as a linear order that agrees with JavaScript's
    \<open><\<close> on two numbers, two strings or two booleans).
  \<^item> \<open>Dates\<close>: \<open>new Date(string)\<close> on the ISO date-time forms, the time value by
    ECMAScript's \<open>DayFromYear\<close>/\<open>MakeDay\<close>/\<open>MakeTime\<close>, Invalid Date as \<open>None\<close>, and
    date comparison (false against Invalid Date).
  \<^item> \<open>ExpenseList\<close> (\<open>pages/ExpenseList.tsx\<close>): the React state as the record
    \<open>list_state\<close>; \<open>filterExpenses\<close> as \<open>apply_filters\<close> (the three narrowing filters
    in source order) then \<open>js_sort (expense_cmp order orderBy)\<close>; the rendered slice
    \<open>page_slice\<close>; \<open>handleSort\<close>; the setters as \<open>apply_event\<close>; the \<open>useEffect\<close>
    that reruns the filter when a \<open>useCallback\<close> dependency changes as
    \<open>run_effects\<close>; a user session as \<open>list_step\<close>, with the reachable states an
    inductive predicate over the events the page can send.
  \<^item> \<open>Client\<close> (\<open>services/api.ts\<close>, \<open>App.tsx\<close>): the record \<open>client_state\<close>
    (stored token, default header, location); \<open>api_send\<close> is one call through both
    interceptors, with the server a parameter (any function from request to response),
    so every lemma holds for every server; \<open>login\<close>, \<open>signup\<close>, \<open>logout\<close> and the
    \<open>expenseService\<close> calls are state-passing functions whose errors are the left side
    of a sum (HTTP error, network failure, \<open>TypeError\<close> on a \<open>null\<close> body, no token);
    \<open>route\<close> and \<open>private_route\<close> are the router and the guard; \<open>client_step\<close> and
    \<open>client_reachable\<close> make sessions a state machine.
  \<^item> \<open>Reports\<close> (\<open>pages/Reports.tsx\<close>, \<open>pages/Dashboard.tsx\<close>): \<open>calculateTotal\<close> and
    the dashboard's total as \<open>calculate_total\<close>/\<open>monthly_total\<close> (the \<open>reduce\<close> as a
    left fold), the averages as \<open>js_div\<close>, the slices, the year and month options;
    \<open>category_summary\<close> is the spec's description of the server's category report
    (it models no code and is not in the map). \<open>fetchReports\<close> is modelled with its
    concurrency: each change of the selected year or month starts a run
    (\<open>start_run\<close>), a run awaits its three calls in turn, and a response is an event
    \<open>Arrive i ok\<close> of run \<open>i\<close>, so \<open>reports_run\<close> over an event list is any
    interleaving of the runs' responses. \<open>dashboard_fetch\<close> is the dashboard's single
    load with the early exit of its \<open>catch\<close>.
  \<^item> \<open>JsNumber\<close>: \<open>String.prototype.trim\<close> and \<open>Number(string)\<close> after ECMAScript's
    \<open>StringToNumber\<close> (decimal literals with fraction and exponent, signed
    \<open>Infinity\<close>, binary, octal and hexadecimal integers, \<open>NaN\<close> otherwise).
  \<^item> \<open>DateFormat\<close>: ECMAScript's time value decomposition (\<open>YearFromTime\<close> as a search
    with a termination proof by a measure, the month table, the time of day) and
    date-fns' \<open>format(d, "yyyy-MM-dd'T'HH:mm:ss")\<close>, with both round trips with
    \<open>new Date\<close>.
  \<^item> \<open>Form\<close> (\<open>pages/ExpenseForm.tsx\<close>): the record \<open>form_state\<close> (form data as stored
    at run time, error texts, route id); \<open>validate_form\<close>, \<open>expense_data\<close> (the body
    as \<open>JSON.stringify\<close> writes it, or the exception \<open>trim\<close> or \<open>format\<close> throws),
    \<open>handle_submit\<close> over the client's \<open>add_expense\<close>/\<open>update_expense\<close>,
    \<open>handle_change\<close>, \<open>handle_date_change\<close>, \<open>load_expense\<close>/\<open>fetch_expense\<close> and
    the mount effect; \<open>form_run\<close> composes the three ways the data changes, with
    \<open>ui_event\<close> the values the controls can send.
  \<^item> \<open>ListPage\<close> (\<open>pages/ExpenseList.tsx\<close>, network side): \<open>fetchExpenses\<close> as
    \<open>fetch_expenses\<close>, which reads the response's \<open>data\<close> array through the
    \<open>Expense\<close> interface (\<open>decode_expense\<close>; a body that is not such an array is the
    outcome \<open>FetchIllTyped\<close>, where the code would store it unchecked), the state
    update \<open>list_after_fetch\<close>, the mount effect \<open>list_mount\<close>, \<open>handleDelete\<close> as \<open>handle_delete\<close> (confirmation,
    delete, refetch), the add and edit buttons with the router (\<open>list_navigate\<close>,
    \<open>route_id\<close>), and the date column (\<open>render_dates\<close>, date-fns' \<open>MMM dd, yyyy\<close>).
  \<^item> \<open>Dashboard\<close> (\<open>pages/Dashboard.tsx\<close>): \<open>fetchDashboardData\<close> over the client as
    \<open>fetch_dashboard_data\<close> (the three calls in turn, the first exception ending the
    load with the setters already run in effect), the current month's range
    \<open>dashboard_month_range\<close> from \<open>new Date(y, m, d)\<close> (\<open>js_make_date\<close>, ECMAScript's
    \<open>MakeDay\<close> with the month carried into the year and day 0 the day before) and
    date-fns' \<open>yyyy-MM-dd\<close> (\<open>format_ymd\<close>), and the category rows read through their
    interface (\<open>decode_category_reports\<close>). \<open>dashboard_fetch\<close> of \<open>Reports\<close> is the
    abstract load over the three decoded results, which this one refines.
  \<^item> \<open>ReportsFetch\<close> (\<open>pages/Reports.tsx\<close>): \<open>fetchReports\<close> as one run over the
    client (\<open>fetch_reports\<close>), with the year's bounds from date-fns' \<open>startOfYear\<close> and
    \<open>endOfYear\<close> (\<open>report_year_range\<close>), and the overlapping runs over the client:
    \<open>respond\<close> is the answer to one run's pending call (the call with the run's
    parameters, the decoding, the setter and the run's next stage), \<open>reports_http_run\<close>
    an interleaving of selections and answers. Both refine the event model of
    \<open>Reports\<close>, whose \<open>report_server\<close> the HTTP servers \<open>reports_server\<close> (one selection)
    and \<open>report_http_server\<close> (every selection, parameters read with \<open>Number\<close>) implement.
  \<^item> \<open>JsFixed\<close>: \<open>Number.prototype.toFixed\<close> after ECMAScript (\<open>js_to_fixed\<close>: the
    integer closest to \<open>x * 10^f\<close>, the larger on a tie, padded and pointed), with the
    lemma that \<open>Number\<close> reads its text back as that integer over \<open>10^f\<close>, and that it
    reads the text of \<open>toString\<close> back exactly for every number with at most 20
    decimals (the amounts the form loads for an edit).
  \<^item> \<open>Render\<close>: what the reports page and the dashboard print (\<open>money_text\<close> for
    \<open>${x.toFixed(2)}\<close>, the month table, the category rows, the yearly summary, the
    three headings, the dashboard's monthly card with its label
    \<open>format(new Date(), 'MMMM yyyy')\<close> and its lists), the dashboard's buttons, the form's title, submit
    label, error display and \<open>Cancel\<close>, and the reports page's two selects.

  \<^bold>\<open>What the claims show.\<close> For the list page (C1--C3, C9, C11--C13): the
  filters refine the spec's conjunction of active predicates and the result is sorted
  by the chosen field and direction (C1); every reachable state shows the filter of its
  current parameters, which says the dependency list is complete (C2); pages tile the
  list (C3) and hold \<open>min n (len - p n)\<close> rows (C9); from any state every loaded expense
  can be brought on screen by events the page can send (C11, liveness); a search change
  never resets the page, so a narrowed list can leave the page empty (C12, a finding);
  the page size and the sort key stay within the UI's options (C13). For the form's
  types (C4, in \<open>Form\<close>): the category and payment method keep their declared
  enumeration types under every event the controls can send, but not when a loaded
  expense carries a category of the other enumeration (a finding). For the dashboard
  (C5, C24, in \<open>Dashboard\<close>): the category range is the current month, its parameters
  denote the month's first instant and last second and \<open>now\<close> lies between them (C5);
  the load against a server of the current month refines \<open>dashboard_fetch\<close>, and a 401
  logs out (C24). For the reports (C6, C8, C21--C23): overlapping \<open>fetchReports\<close> runs over
  the client, in every interleaving of selections and responses, reach the state of the
  abstract event model, with the answers of any set of failing endpoints as the failing
  responses (C6, in \<open>ReportsFetch\<close>); the newest run always carries the current
  selection, so when it answers last the page shows that selection's data (C8); in every
  state the yearly response of any run, also a superseded one, overwrites the yearly
  data with that run's year (C21, the race the spec acknowledges); one run over the
  client, which asks for the category report of exactly the selected year, refines
  three successful responses of the event model, and a failing yearly call a failure
  there (C22, in \<open>ReportsFetch\<close>); in every state a failed yearly call after a successful
  monthly one leaves a partial update (C23, a finding). For what the pages print (C7,
  C10, C20, in \<open>Render\<close>): every amount of the month table, and its total, reads back
  with \<open>Number\<close> within half a cent, exactly for whole cents (C7); a submit that validation
  rejects sends nothing and marks exactly the failing fields with their messages (C10);
  a category row with count 0 prints \<open>$NaN\<close> or an infinity as its average (C20, a
  finding). For the client (C14--C19): a 401 logs out and silences the credential until
  a login (C14); the default header always agrees with the stored token (C15); a login
  with a token authenticates (C16) and every failed one clears the session (C17); no
  protected page renders without a token (C18); for every 2xx answer the envelope is
  returned unchecked (C19, a finding). For the form (C25--C29): every body sent
  satisfies the spec's expense invariant except that the text \<open>Infinity\<close> is sent as
  \<open>null\<close> (C25); loading an expense and submitting it unchanged resends its fields for
  every amount with at most 20 decimals, built on the two date round trips and
  \<open>Number(String(x)) = x\<close>, while resetting \<open>isRecurring\<close> and \<open>createDate\<close> (C26, a
  finding); an Invalid Date escapes the \<open>try\<close> (C27, a finding); the outcomes of a submit
  by status (C28); every non-numeric id is requested as \<open>NaN\<close> (C29). For the list page's
  network side and its date column (C30--C34): with the end date at the picked day's
  midnight every expense later that day is filtered out (C30, a finding); the outcomes
  of a delete, cancelled, failed or followed by a fetch (C31); a confirmed delete
  refetches the server's list and the view-model shows its filter (C32); the date
  column renders exactly when every visible date is readable (C33, a finding); the edit
  button routes to the form, which fetches that expense (C34).

  Lemmas beside the claims: the comparator sorts equal the library's stable sort
  (\<open>sort_desc_is_stable_reverse\<close>); the spec's category aggregation is consistent with
  the totals (\<open>category_summary_consistent\<close>); the totals are sums
  (\<open>totals_are_sums\<close>); \<open>YearFromTime\<close>'s search terminates on every day, returns the
  year containing it and moves at most \<open>|d| div 365 + 1\<close> years from 1970
  (\<open>year_search_terminates\<close>); decoding a response element inverts the interface's
  encoding (\<open>decode_expense_roundtrip\<close>).

  \<^bold>\<open>Modelling choices.\<close> Amounts and JSON numbers are exact rationals (no IEEE
  rounding, so \<open>toFixed\<close> decides a tie on the exact value; a literal such as \<open>1e999\<close> is finite here where a double overflows). Strings are
  byte lists and \<open>toLowerCase\<close> maps ASCII capitals only. Dates are read in a fixed
  UTC time zone. Every loop of the code
  is a list traversal, so every function is structural or has a termination proof;
  the one search, \<open>YearFromTime\<close>, terminates by the measure of the days between the
  candidate year and the day, so no fuel is needed. Console logging is not modelled.

  \<^bold>\<open>Not modelled yet, and the plan.\<close> In the overlapping runs a request is
  made with the client state at its answer, not at its sending; the servers of the
  refinements answer without reading the header, so this is invisible there. Failures
  are refined per endpoint (500 on a set of URLs); a server that fails one call and
  answers the same URL later is related to the abstract model call by call only
  (\<open>respond\<close>). \<open>toString\<close> is modelled for the numbers the code prints (no
  exponent notation, fractions cut at 20 digits), so the edit round trip is proved for
  amounts with at most 20 decimals.
  The Login, Register and Layout pages are imported by \<open>App.tsx\<close> but are not among the
  sources; rendering (JSX, theme) has no logic to verify.
\<close>

end
